(* ===== verification/Prelude.thy ===== *)
theory Prelude
  imports Main "HOL-Library.AList" "HOL-Library.List_Lexorder" "HOL-Library.Char_ord"
begin

text \<open>
  Shared vocabulary of the development: 64-bit and 32-bit integers with Go's wrap-around
  written out, the error-and-state computations every handler and transaction is written in
  (with inversion rules for successful and failing runs), and generic lemmas on tables kept
  as lists of rows.

  Strings are byte strings (\<^typ>\<open>string\<close>), as Go's are; \<^theory_text>\<open>List_Lexorder\<close> and
  \<^theory_text>\<open>Char_ord\<close> order them bytewise, as \<^verbatim>\<open>sort.Strings\<close> does.
\<close>

named_theorems run_simps "inversion of computations: what a successful run did"
named_theorems table_simps "facts on tables kept as lists of rows"
named_theorems frame_intros "which parts of the state an operation leaves alone"

section \<open>Fixed-width integers\<close>

text \<open>Go's \<^verbatim>\<open>int64\<close> arithmetic wraps around; PostgreSQL's \<^verbatim>\<open>BIGINT\<close> and
  \<^verbatim>\<open>INTEGER\<close> raise instead. Both are kept as \<^typ>\<open>int\<close> with the width written out.\<close>

definition max_int64 :: int where "max_int64 = 2 ^ 63 - 1"

definition max_int32 :: int where "max_int32 = 2 ^ 31 - 1"

definition min_int32 :: int where "min_int32 = - (2 ^ 31)"

definition wrap64 :: "int \<Rightarrow> int" where
  "wrap64 x = (x + 2 ^ 63) mod 2 ^ 64 - 2 ^ 63"

lemma wrap64_id [simp]: "- (2 ^ 63) \<le> x \<Longrightarrow> x \<le> max_int64 \<Longrightarrow> wrap64 x = x"
  by (simp add: wrap64_def max_int64_def)

lemma wrap64_range: "- (2 ^ 63) \<le> wrap64 x \<and> wrap64 x \<le> max_int64"
proof -
  have "0 \<le> (x + 2 ^ 63) mod 2 ^ 64" and "(x + 2 ^ 63) mod 2 ^ 64 < (2 ^ 64 :: int)" by simp_all
  then show ?thesis by (simp add: wrap64_def max_int64_def)
qed

section \<open>Computations that may fail and change the state\<close>

text \<open>A Go function that returns \<^verbatim>\<open>(T, error)\<close> and has effects: from a state to an error
  (\<open>Inl\<close>) or a value (\<open>Inr\<close>), and the state it leaves. An error keeps the effects made before
  it, as it does in Go; only an explicit rollback undoes them.\<close>

type_synonym ('e, 's, 'a) go = "'s \<Rightarrow> ('e + 'a) \<times> 's"

definition returnM :: "'a \<Rightarrow> ('e, 's, 'a) go" where
  "returnM x = (\<lambda>s. (Inr x, s))"

definition raiseM :: "'e \<Rightarrow> ('e, 's, 'a) go" where
  "raiseM e = (\<lambda>s. (Inl e, s))"

text \<open>\<^verbatim>\<open>x, err := m(); if err != nil { return err }; ...\<close>\<close>

definition bindM :: "('e, 's, 'a) go \<Rightarrow> ('a \<Rightarrow> ('e, 's, 'b) go) \<Rightarrow> ('e, 's, 'b) go" where
  "bindM m f = (\<lambda>s. case m s of (Inl e, s') \<Rightarrow> (Inl e, s') | (Inr x, s') \<Rightarrow> f x s')"

text \<open>Evaluation runs a computation one step at a time.\<close>

declare bindM_def [code_unfold]

text \<open>\<^verbatim>\<open>if err := check(); err != nil { return err }\<close> for a check without effects.\<close>

definition checkM :: "'e option \<Rightarrow> ('e, 's, unit) go" where
  "checkM c = (case c of None \<Rightarrow> returnM () | Some e \<Rightarrow> raiseM e)"

text \<open>\<^verbatim>\<open>_ = m()\<close>: the result and the error are dropped, the effects stay.\<close>

definition ignoreM :: "('e, 's, 'a) go \<Rightarrow> ('e, 's, unit) go" where
  "ignoreM m = (\<lambda>s. (Inr (), snd (m s)))"

text \<open>\<^verbatim>\<open>defer f()\<close>: \<open>f\<close> runs on the state the body leaves, whatever the body returns.\<close>

definition deferM :: "('s \<Rightarrow> 's) \<Rightarrow> ('e, 's, 'a) go \<Rightarrow> ('e, 's, 'a) go" where
  "deferM f m = (\<lambda>s. case m s of (r, s') \<Rightarrow> (r, f s'))"

text \<open>\<^verbatim>\<open>defer func() { if err != nil { h(err) } }()\<close>\<close>

definition onErrorM :: "('e \<Rightarrow> ('e, 's, unit) go) \<Rightarrow> ('e, 's, 'a) go \<Rightarrow> ('e, 's, 'a) go" where
  "onErrorM h m = (\<lambda>s. case m s of (Inl e, s') \<Rightarrow> (Inl e, snd (h e s')) | (Inr x, s') \<Rightarrow> (Inr x, s'))"

text \<open>\<^verbatim>\<open>for _, x := range xs { if err := f(x); err != nil { return err } }\<close>\<close>

fun forM :: "('a \<Rightarrow> ('e, 's, 'b) go) \<Rightarrow> 'a list \<Rightarrow> ('e, 's, 'b list) go" where
  "forM f [] = returnM []"
| "forM f (x # xs) = bindM (f x) (\<lambda>y. bindM (forM f xs) (\<lambda>ys. returnM (y # ys)))"

lemma returnM_run [simp]: "returnM x s = (Inr x, s)"
  by (simp add: returnM_def)

lemma raiseM_run [simp]: "raiseM e s = (Inl e, s)"
  by (simp add: raiseM_def)

lemma bindM_Inr [run_simps]:
  "bindM m f s = (Inr y, s'') \<longleftrightarrow> (\<exists>x s'. m s = (Inr x, s') \<and> f x s' = (Inr y, s''))"
  by (auto simp: bindM_def split: prod.splits sum.splits)

lemma bindM_Inl:
  "bindM m f s = (Inl e, s'') \<longleftrightarrow>
     m s = (Inl e, s'') \<or> (\<exists>x s'. m s = (Inr x, s') \<and> f x s' = (Inl e, s''))"
  by (auto simp: bindM_def split: prod.splits sum.splits)

lemma bindM_cong_run: "m s = (Inr x, s') \<Longrightarrow> bindM m f s = f x s'"
  by (simp add: bindM_def)

lemma bindM_err_run: "m s = (Inl e, s') \<Longrightarrow> bindM m f s = (Inl e, s')"
  by (simp add: bindM_def)

lemma checkM_Inr [run_simps]: "checkM c s = (Inr u, s') \<longleftrightarrow> c = None \<and> s' = s"
  by (cases c) (auto simp: checkM_def)

lemma checkM_Inl: "checkM c s = (Inl e, s') \<longleftrightarrow> c = Some e \<and> s' = s"
  by (cases c) (auto simp: checkM_def)

lemma checkM_None [simp]: "checkM None = returnM ()"
  by (simp add: checkM_def)

lemma checkM_Some [simp]: "checkM (Some e) = raiseM e"
  by (simp add: checkM_def)

lemma returnM_Inr [run_simps]: "returnM x s = (Inr y, s') \<longleftrightarrow> y = x \<and> s' = s"
  by auto

lemma raiseM_Inr [run_simps]: "raiseM e s = (Inr y, s') \<longleftrightarrow> False"
  by auto

lemma deferM_Inr [run_simps]:
  "deferM f m s = (r, s'') \<longleftrightarrow> (\<exists>s'. m s = (r, s') \<and> s'' = f s')"
  by (auto simp: deferM_def split: prod.splits)

lemma onErrorM_Inr [run_simps]: "onErrorM h m s = (Inr x, s') \<longleftrightarrow> m s = (Inr x, s')"
  by (auto simp: onErrorM_def split: prod.splits sum.splits)

lemma onErrorM_Inl:
  "onErrorM h m s = (Inl e, s'') \<longleftrightarrow> (\<exists>s'. m s = (Inl e, s') \<and> s'' = snd (h e s'))"
  by (auto simp: onErrorM_def split: prod.splits sum.splits)

subsection \<open>Frames\<close>

text \<open>\<open>keeps p m\<close>: whatever \<open>m\<close> returns, it leaves the observation \<open>p\<close> of the state alone.\<close>

definition keeps :: "('s \<Rightarrow> 'p) \<Rightarrow> ('e, 's, 'a) go \<Rightarrow> bool" where
  "keeps p m \<longleftrightarrow> (\<forall>s. p (snd (m s)) = p s)"

lemma keepsD: "keeps p m \<Longrightarrow> m s = (r, s') \<Longrightarrow> p s' = p s"
  by (metis keeps_def snd_conv)

lemma keeps_return [frame_intros]: "keeps p (returnM x)"
  by (simp add: keeps_def)

lemma keeps_raise [frame_intros]: "keeps p (raiseM e)"
  by (simp add: keeps_def)

lemma keeps_check [frame_intros]: "keeps p (checkM c)"
  by (cases c) (simp_all add: keeps_def)

lemma keeps_bind [frame_intros]:
  "keeps p m \<Longrightarrow> (\<And>x. keeps p (f x)) \<Longrightarrow> keeps p (bindM m f)"
  by (auto simp: keeps_def bindM_def split: prod.splits sum.splits) (metis snd_conv)+

lemma keeps_ignore [frame_intros]: "keeps p m \<Longrightarrow> keeps p (ignoreM m)"
  by (auto simp: keeps_def ignoreM_def)

lemma keeps_onError [frame_intros]:
  "keeps p m \<Longrightarrow> (\<And>e. keeps p (h e)) \<Longrightarrow> keeps p (onErrorM h m)"
  by (auto simp: keeps_def onErrorM_def split: prod.splits sum.splits) (metis snd_conv)+

lemma keeps_forM [frame_intros]: "(\<And>x. keeps p (f x)) \<Longrightarrow> keeps p (forM f xs)"
  by (induction xs) (auto intro!: frame_intros)

section \<open>Tables as lists of rows\<close>

text \<open>\<open>UPDATE t SET \<dots> WHERE key = k\<close> rewrites the rows with that key, in place.\<close>

definition update_rows :: "('r \<Rightarrow> 'k) \<Rightarrow> 'k \<Rightarrow> ('r \<Rightarrow> 'r) \<Rightarrow> 'r list \<Rightarrow> 'r list" where
  "update_rows key k f rows = map (\<lambda>r. if key r = k then f r else r) rows"

text \<open>\<open>SELECT \<dots> WHERE key = k\<close> on a primary key: the row, if there is one.\<close>

definition find_row :: "('r \<Rightarrow> 'k) \<Rightarrow> 'k \<Rightarrow> 'r list \<Rightarrow> 'r option" where
  "find_row key k rows = List.find (\<lambda>r. key r = k) rows"

definition has_row :: "('r \<Rightarrow> 'k) \<Rightarrow> 'k \<Rightarrow> 'r list \<Rightarrow> bool" where
  "has_row key k rows = list_ex (\<lambda>r. key r = k) rows"

lemma has_row_iff [table_simps]: "has_row key k rows \<longleftrightarrow> k \<in> key ` set rows"
  by (auto simp: has_row_def list_ex_iff)

lemma find_row_Some: "find_row key k rows = Some r \<Longrightarrow> r \<in> set rows \<and> key r = k"
  unfolding find_row_def by (metis (mono_tags, lifting) find_Some_iff2 nth_mem)

lemma find_row_None [table_simps]: "find_row key k rows = None \<longleftrightarrow> k \<notin> key ` set rows"
  by (auto simp: find_row_def find_None_iff)

lemma find_row_append:
  "find_row key k (xs @ ys) =
     (case find_row key k xs of None \<Rightarrow> find_row key k ys | Some r \<Rightarrow> Some r)"
  by (induction xs) (auto simp: find_row_def)

lemma find_row_unique:
  "distinct (map key rows) \<Longrightarrow> r \<in> set rows \<Longrightarrow> find_row key (key r) rows = Some r"
proof (induction rows)
  case Nil
  then show ?case by simp
next
  case (Cons x xs)
  show ?case
  proof (cases "key x = key r")
    case True
    with Cons.prems have "x = r" by (auto simp: image_iff)
    then show ?thesis by (simp add: find_row_def)
  next
    case False
    with Cons show ?thesis by (auto simp: find_row_def)
  qed
qed

lemma find_row_iff:
  "distinct (map key rows) \<Longrightarrow> find_row key k rows = Some r \<longleftrightarrow> r \<in> set rows \<and> key r = k"
  using find_row_Some find_row_unique by metis

lemma update_rows_keys [simp]:
  "(\<And>r. key (f r) = key r) \<Longrightarrow> map key (update_rows key k f rows) = map key rows"
  by (simp add: update_rows_def comp_def)

lemma update_rows_length [simp]: "length (update_rows key k f rows) = length rows"
  by (simp add: update_rows_def)

lemma find_row_update:
  "(\<And>r. key (f r) = key r) \<Longrightarrow>
   find_row key j (update_rows key k f rows) =
     (if j = k then map_option f (find_row key j rows) else find_row key j rows)"
  by (induction rows) (auto simp: update_rows_def find_row_def)

lemma update_rows_other: "k \<notin> key ` set rows \<Longrightarrow> update_rows key k f rows = rows"
  unfolding update_rows_def by (rule map_idI) auto

lemma update_rows_compose:
  "(\<And>r. key (f r) = key r) \<Longrightarrow>
   update_rows key k g (update_rows key k f rows) = update_rows key k (g \<circ> f) rows"
  by (simp add: update_rows_def)

text \<open>The sum of a column after a row changed: the new value replaces the old one.\<close>

lemma sum_update_rows:
  fixes v :: "'r \<Rightarrow> 'd::ab_group_add"
  assumes "distinct (map key rows)" and "find_row key k rows = Some r"
  shows "sum_list (map v (update_rows key k f rows)) = sum_list (map v rows) - v r + v (f r)"
  using assms
proof (induction rows)
  case Nil
  then show ?case by (simp add: find_row_def)
next
  case (Cons x xs)
  show ?case
  proof (cases "key x = k")
    case True
    with Cons.prems have "x = r" and "update_rows key k f xs = xs"
      by (auto simp: find_row_def intro!: update_rows_other)
    then show ?thesis using True by (simp add: update_rows_def)
  next
    case False
    with Cons show ?thesis by (simp add: find_row_def update_rows_def algebra_simps)
  qed
qed

lemma sum_list_map_filter_append [simp]:
  "sum_list (map f (filter P (xs @ [x]))) =
     sum_list (map f (filter P xs)) + (if P x then f x else (0::'d::comm_monoid_add))"
  by simp

lemma set_update_rows:
  "r' \<in> set (update_rows key k f rows) \<longleftrightarrow>
     (\<exists>r\<in>set rows. r' = (if key r = k then f r else r))"
  unfolding update_rows_def set_map image_iff ..

text \<open>Grouping a sum by a key: every element belongs to exactly one group.\<close>

lemma sum_one_group:
  fixes c :: "'d::comm_monoid_add"
  assumes "distinct ks"
  shows "sum_list (map (\<lambda>k. if x = k then c else 0) ks) = (if x \<in> set ks then c else 0)"
  using assms by (induction ks) auto

lemma sum_groups:
  fixes v :: "'x \<Rightarrow> 'd::comm_monoid_add"
  assumes "distinct ks" and "\<forall>x \<in> set xs. f x \<in> set ks"
  shows "sum_list (map (\<lambda>k. sum_list (map v (filter (\<lambda>x. f x = k) xs))) ks) = sum_list (map v xs)"
  using assms(2)
proof (induction xs)
  case Nil
  then show ?case by simp
next
  case (Cons x xs)
  have "sum_list (map (\<lambda>k. sum_list (map v (filter (\<lambda>y. f y = k) (x # xs)))) ks) =
      sum_list (map (\<lambda>k. (if f x = k then v x else 0) + sum_list (map v (filter (\<lambda>y. f y = k) xs))) ks)"
    by (rule arg_cong [where f = sum_list], rule map_cong) auto
  also have "\<dots> = v x + sum_list (map (\<lambda>k. sum_list (map v (filter (\<lambda>y. f y = k) xs))) ks)"
    using Cons.prems sum_one_group [OF assms(1), of "f x" "v x"] by (simp add: sum_list_addf)
  finally show ?case using Cons by simp
qed

section \<open>LIMIT and OFFSET\<close>

text \<open>PostgreSQL rejects a negative LIMIT or OFFSET; the caller supplies the two errors.\<close>

definition limit_offset :: "'e \<Rightarrow> 'e \<Rightarrow> int \<Rightarrow> int \<Rightarrow> 'r list \<Rightarrow> 'e + 'r list" where
  "limit_offset neg_limit neg_offset lim off rows =
     (if off < 0 then Inl neg_offset
      else if lim < 0 then Inl neg_limit
      else Inr (take (nat lim) (drop (nat off) rows)))"

lemma limit_offset_length:
  "limit_offset a b lim off rows = Inr rs \<Longrightarrow> int (length rs) \<le> lim"
  by (auto simp: limit_offset_def split: if_splits)

end
