(* ===== verification/Domain.thy ===== *)
theory Domain
  imports Prelude
begin

text \<open>
  The domain package (\<^verbatim>\<open>src/internal/domain\<close>): its error values, accounts, transfers,
  entries, holds, outbox events, audit logs, users and roles, with the pure operations the
  package defines on them.

  Amounts are \<^verbatim>\<open>decimal.Decimal\<close>, a third-party type whose documented arithmetic is exact.
  They are a type variable \<open>'d::linordered_idom\<close>: everything the code does with amounts is
  addition, subtraction, negation and comparison, and the laws of an ordered integral domain
  are what it relies on. Concrete examples take \<^typ>\<open>int\<close>. Instants (\<^verbatim>\<open>time.Time\<close>) are
  integers. A value of Go's \<^verbatim>\<open>any\<close> is kept as a string or as its \<^verbatim>\<open>%v\<close> rendering.
\<close>

section \<open>Errors\<close>

text \<open>The sentinel errors of \<^verbatim>\<open>errors.go\<close>, \<^verbatim>\<open>hold.go\<close>, \<^verbatim>\<open>user.go\<close> and
  \<^verbatim>\<open>validation.go\<close>; \<open>Wrapf e s\<close> is \<^verbatim>\<open>fmt.Errorf("%w: s", e)\<close>, \<open>Prefixf s e\<close>
  is \<^verbatim>\<open>fmt.Errorf("s: %w", e)\<close>, \<open>PlainErr s\<close> an
  \<^verbatim>\<open>errors.New(s)\<close> or \<^verbatim>\<open>fmt.Errorf\<close> made on the spot, \<open>PgErr c n\<close> a server error with SQLSTATE
  \<open>c\<close> on constraint \<open>n\<close>, \<open>NoRows\<close> is \<^verbatim>\<open>pgx.ErrNoRows\<close>, and \<open>Infra s\<close> any other failure of a driver, network or library.\<close>

datatype err =
    ErrNegativeBalanceNotAllowed
  | ErrPositiveBalanceNotAllowed
  | ErrAccountNotFound
  | ErrSameAccount
  | ErrInvalidAmount
  | ErrCurrencyMismatch
  | ErrTransferNotFound
  | ErrTransferAlreadyReversed
  | ErrHoldNotFound
  | ErrInsufficientFunds
  | ErrHoldNotActive
  | ErrUnauthorized
  | ErrInvalidToken
  | ErrExpiredToken
  | ErrInsufficientRole
  | ErrInvalidAccountName
  | ErrInvalidCurrency
  | ErrAmountTooLarge
  | ErrAmountTooSmall
  | ErrMetadataTooLarge
  | ErrInvalidEmail
  | ErrPasswordTooWeak
  | ErrInvalidIDFormat
  | ErrInconsistentLedger
  | NoRows
  | DeadlineExceeded
  | Canceled
  | Wrapf err string
  | Prefixf string err
  | PlainErr string
  | PgErr string string
  | Infra string

text \<open>\<^verbatim>\<open>errors.Is\<close>: equality with the error or with one it wraps.\<close>

fun errors_Is :: "err \<Rightarrow> err \<Rightarrow> bool" where
  "errors_Is (Wrapf e s) t = (Wrapf e s = t \<or> errors_Is e t)"
| "errors_Is (Prefixf s e) t = (Prefixf s e = t \<or> errors_Is e t)"
| "errors_Is e t = (e = t)"

text \<open>\<^verbatim>\<open>err.Error()\<close>: the texts of the sentinels are in the source; those of server, driver and
  context errors come from outside (\<open>ext\<close>).\<close>

fun errText :: "(err \<Rightarrow> string) \<Rightarrow> err \<Rightarrow> string" where
  "errText ext ErrNegativeBalanceNotAllowed = ''account does not allow negative balance''"
| "errText ext ErrPositiveBalanceNotAllowed = ''account does not allow positive balance''"
| "errText ext ErrAccountNotFound = ''account not found''"
| "errText ext ErrSameAccount = ''cannot transfer to same account''"
| "errText ext ErrInvalidAmount = ''amount must be positive''"
| "errText ext ErrCurrencyMismatch = ''cannot transfer between different currencies''"
| "errText ext ErrTransferNotFound = ''transfer not found''"
| "errText ext ErrTransferAlreadyReversed = ''transfer has already been reversed''"
| "errText ext ErrHoldNotFound = ''hold not found''"
| "errText ext ErrInsufficientFunds = ''insufficient funds for hold''"
| "errText ext ErrHoldNotActive = ''hold is not active''"
| "errText ext ErrUnauthorized = ''unauthorized''"
| "errText ext ErrInvalidToken = ''invalid token''"
| "errText ext ErrExpiredToken = ''token has expired''"
| "errText ext ErrInsufficientRole = ''insufficient role for this operation''"
| "errText ext ErrInvalidAccountName = ''invalid account name''"
| "errText ext ErrInvalidCurrency = ''invalid currency code''"
| "errText ext ErrAmountTooLarge = ''amount exceeds maximum allowed''"
| "errText ext ErrAmountTooSmall = ''amount below minimum allowed''"
| "errText ext ErrMetadataTooLarge = ''metadata size exceeds limit''"
| "errText ext ErrInvalidEmail = ''invalid email format''"
| "errText ext ErrPasswordTooWeak = ''password does not meet requirements''"
| "errText ext ErrInvalidIDFormat = ''invalid ID format''"
| "errText ext ErrInconsistentLedger = ''ledger is inconsistent: debits do not equal credits''"
| "errText ext (Wrapf e s) = errText ext e @ '': '' @ s"
| "errText ext (Prefixf s e) = s @ '': '' @ errText ext e"
| "errText ext (PlainErr s) = s"
| "errText ext e = ext e"

section \<open>Metadata and payload values\<close>

datatype any = AnyStr string | AnyOther string

text \<open>The text \<^verbatim>\<open>fmt.Sprintf("%v", v)\<close> prints.\<close>

fun sprint_v :: "any \<Rightarrow> string" where
  "sprint_v (AnyStr s) = s"
| "sprint_v (AnyOther s) = s"

text \<open>A \<^verbatim>\<open>map[string]any\<close>: \<open>None\<close> is the nil map, otherwise the bindings, one per key.\<close>

type_synonym metadata = "(string \<times> any) list option"

text \<open>A field of an event payload or an audit state: text, or the \<^verbatim>\<open>String()\<close> of a decimal, or
  an instant formatted with RFC 3339, kept as the value that is printed.\<close>

datatype 'd jval = JText string | JDecimal 'd | JTime int

section \<open>Accounts (account.go)\<close>

record 'd account =
  accID :: string
  accName :: string
  accCurrency :: string
  accBalance :: 'd
  accEncumbered :: 'd
  accVersion :: int
  accAllowNegative :: bool
  accAllowPositive :: bool
  accCreatedAt :: int
  accUpdatedAt :: int

definition AvailableBalance :: "'d::linordered_idom account \<Rightarrow> 'd" where
  "AvailableBalance a = accBalance a - accEncumbered a"

definition ValidateDebit :: "'d::linordered_idom account \<Rightarrow> 'd \<Rightarrow> err option" where
  "ValidateDebit a amount =
     (let newBalance = AvailableBalance a - amount
      in if \<not> accAllowNegative a \<and> newBalance < 0 then Some ErrNegativeBalanceNotAllowed else None)"

definition ValidateCredit :: "'d::linordered_idom account \<Rightarrow> 'd \<Rightarrow> err option" where
  "ValidateCredit a amount =
     (let newBalance = accBalance a + amount
      in if \<not> accAllowPositive a \<and> newBalance > 0 then Some ErrPositiveBalanceNotAllowed else None)"

definition ApplyDebit :: "'d::linordered_idom account \<Rightarrow> 'd \<Rightarrow> 'd" where
  "ApplyDebit a amount = accBalance a - amount"

definition ApplyCredit :: "'d::linordered_idom account \<Rightarrow> 'd \<Rightarrow> 'd" where
  "ApplyCredit a amount = accBalance a + amount"

section \<open>Transfers, entries and holds (transfer.go, entry.go, hold.go)\<close>

record 'd transfer =
  trID :: string
  trFrom :: string
  trTo :: string
  trAmount :: 'd
  trCreatedAt :: int
  trEventAt :: int
  trMetadata :: metadata
  trReversed :: "string option"

definition Transfer_Validate :: "'d::linordered_idom transfer \<Rightarrow> err option" where
  "Transfer_Validate t =
     (if trFrom t = trTo t then Some ErrSameAccount
      else if trAmount t \<le> 0 then Some ErrInvalidAmount
      else None)"

record 'd entry =
  enID :: string
  enAccount :: string
  enTransfer :: string
  enAmount :: 'd
  enPrevious :: 'd
  enCurrent :: 'd
  enVersion :: int
  enCreatedAt :: int

datatype hold_status = HoldStatusActive | HoldStatusVoided | HoldStatusCaptured

record 'd hold =
  hoID :: string
  hoAccount :: string
  hoAmount :: 'd
  hoStatus :: hold_status
  hoExpiresAt :: "int option"
  hoMetadata :: metadata
  hoCreatedAt :: int
  hoUpdatedAt :: int

definition Hold_Validate :: "'d::linordered_idom hold \<Rightarrow> err option" where
  "Hold_Validate h = (if hoAmount h \<le> 0 then Some ErrInvalidAmount else None)"

section \<open>Outbox events (events.go)\<close>

datatype event_type =
    EventTypeTransferCreated | EventTypeTransferReversed
  | EventTypeHoldCreated | EventTypeHoldVoided | EventTypeHoldCaptured
  | EventTypeAccountCreated

datatype aggregate_type = AggregateTypeTransfer | AggregateTypeHold | AggregateTypeAccount

record 'd outbox_event =
  obID :: string
  obAggregateID :: string
  obAggregateType :: aggregate_type
  obEventType :: event_type
  obPayload :: "(string \<times> 'd jval) list"
  obCreatedAt :: int
  obPublishedAt :: "int option"
  obPublished :: bool
  obEventVersion :: int
  obSequence :: int
  obAttempts :: int
  obLastError :: "err option"
  obDeadLetteredAt :: "int option"

section \<open>Audit logs (audit.go)\<close>

datatype audit_action =
    AuditActionAccountCreate | AuditActionAccountUpdate | AuditActionAccountView
  | AuditActionTransferCreate | AuditActionTransferReverse | AuditActionTransferView
  | AuditActionHoldCreate | AuditActionHoldVoid | AuditActionHoldCapture | AuditActionHoldView
  | AuditActionUserLogin | AuditActionUserLogout

datatype audit_status = AuditStatusSuccess | AuditStatusFailure | AuditStatusError

text \<open>What an audit state holds: nothing, the object passed to \<^verbatim>\<open>MarshalState\<close>, or a literal
  \<^verbatim>\<open>domain.JSON\<close> of fields.\<close>

datatype 'd audit_state =
    NoState
  | StAccount "'d account"
  | StTransfer "'d transfer"
  | StHold "'d hold"
  | StFields "(string \<times> 'd jval) list"

record 'd audit_log =
  auID :: string
  auUserID :: string
  auAction :: audit_action
  auResourceType :: string
  auResourceID :: string
  auIPAddress :: string
  auUserAgent :: string
  auRequestID :: string
  auBefore :: "'d audit_state"
  auAfter :: "'d audit_state"
  auStatus :: audit_status
  auError :: "err option"
  auCreatedAt :: int
  auPrevHash :: string
  auHash :: string
  auChainSeq :: int

record audit_filter =
  fiUserID :: string
  fiAction :: string
  fiResourceType :: string
  fiResourceID :: string
  fiStartDate :: "int option"
  fiEndDate :: "int option"
  fiLimit :: int
  fiOffset :: int

section \<open>Users and roles (user.go)\<close>

text \<open>A role is a string in the code; \<open>OtherRole\<close> is any string but the three constants, which
  a token or a database row can carry.\<close>

datatype role = RoleAdmin | RoleOperator | RoleViewer | OtherRole string

record user =
  usID :: string
  usEmail :: string
  usName :: string
  usHashedPassword :: string
  usRole :: role
  usCreatedAt :: int
  usUpdatedAt :: int
  usActive :: bool

record request_meta =
  rmRequestID :: string
  rmIPAddress :: string
  rmUserAgent :: string

definition validRoles :: "role list" where
  "validRoles = [RoleAdmin, RoleOperator, RoleViewer]"

definition Role_IsValid :: "role \<Rightarrow> bool" where
  "Role_IsValid r \<longleftrightarrow> r \<in> set validRoles"

definition CanCreate :: "role \<Rightarrow> bool" where
  "CanCreate r \<longleftrightarrow> r = RoleAdmin \<or> r = RoleOperator"

definition CanDelete :: "role \<Rightarrow> bool" where
  "CanDelete r \<longleftrightarrow> r = RoleAdmin"

definition CanManageAccounts :: "role \<Rightarrow> bool" where
  "CanManageAccounts r \<longleftrightarrow> r = RoleAdmin"

definition CanViewAll :: "role \<Rightarrow> bool" where
  "CanViewAll r \<longleftrightarrow> Role_IsValid r"

text \<open>The context of a call: the values the code stores in a \<^verbatim>\<open>context.Context\<close>. The HTTP
  layer stores the user under \<^verbatim>\<open>domain.UserContextKey\<close>, the gRPC interceptor under its own
  \<^verbatim>\<open>middleware.UserContextKey\<close>: two keys of different types, so two slots.\<close>

record context_values =
  cxUser :: "user option"
  cxGrpcUser :: "user option"
  cxMeta :: "request_meta option"

definition Background :: context_values where
  "Background = \<lparr>cxUser = None, cxGrpcUser = None, cxMeta = None\<rparr>"

definition UserFromContext :: "context_values \<Rightarrow> user option" where
  "UserFromContext ctx = cxUser ctx"

definition RequestMetaFromContext :: "context_values \<Rightarrow> request_meta option" where
  "RequestMetaFromContext ctx = cxMeta ctx"

definition ContextWithRequestMeta :: "context_values \<Rightarrow> request_meta \<Rightarrow> context_values" where
  "ContextWithRequestMeta ctx m = ctx\<lparr>cxMeta := Some m\<rparr>"

lemma ValidateDebit_None:
  "ValidateDebit a amount = None \<longleftrightarrow> accAllowNegative a \<or> amount \<le> AvailableBalance a"
  by (auto simp: ValidateDebit_def Let_def not_less)

lemma ValidateCredit_None:
  "ValidateCredit a amount = None \<longleftrightarrow> accAllowPositive a \<or> accBalance a + amount \<le> 0"
  by (auto simp: ValidateCredit_def Let_def not_less)

lemma Transfer_Validate_None:
  "Transfer_Validate t = None \<longleftrightarrow> trFrom t \<noteq> trTo t \<and> 0 < trAmount t"
  by (auto simp: Transfer_Validate_def not_le)

end
