(* ===== verification/Validation.thy ===== *)
theory Validation
  imports Domain
begin

text \<open>
  Input validation (\<^verbatim>\<open>src/internal/domain/validation.go\<close>) and the parts of \<^verbatim>\<open>strings\<close> it uses.
  Strings are UTF-8 bytes. \<^verbatim>\<open>ToUpper\<close> and \<^verbatim>\<open>ToLower\<close> are given on every code point that
  maps to or from ASCII, the only ones the checks can tell apart; other bytes stay.
\<close>

section \<open>The string functions the checks use\<close>

fun HasPrefix :: "string \<Rightarrow> string \<Rightarrow> bool" where
  "HasPrefix s [] = True"
| "HasPrefix [] (p # ps) = False"
| "HasPrefix (c # s) (p # ps) = (c = p \<and> HasPrefix s ps)"

fun Contains :: "string \<Rightarrow> string \<Rightarrow> bool" where
  "Contains [] p = (p = [])"
| "Contains (c # s) p = (HasPrefix (c # s) p \<or> Contains s p)"

text \<open>The UTF-8 encodings of the code points \<^verbatim>\<open>unicode.IsSpace\<close> accepts.\<close>

definition space_encodings :: "string list" where
  "space_encodings =
     [[CHR 0x09], [CHR 0x0A], [CHR 0x0B], [CHR 0x0C], [CHR 0x0D], [CHR 0x20],
      [CHR 0xC2, CHR 0x85], [CHR 0xC2, CHR 0xA0], [CHR 0xE1, CHR 0x9A, CHR 0x80],
      [CHR 0xE2, CHR 0x80, CHR 0x80], [CHR 0xE2, CHR 0x80, CHR 0x81],
      [CHR 0xE2, CHR 0x80, CHR 0x82], [CHR 0xE2, CHR 0x80, CHR 0x83],
      [CHR 0xE2, CHR 0x80, CHR 0x84], [CHR 0xE2, CHR 0x80, CHR 0x85],
      [CHR 0xE2, CHR 0x80, CHR 0x86], [CHR 0xE2, CHR 0x80, CHR 0x87],
      [CHR 0xE2, CHR 0x80, CHR 0x88], [CHR 0xE2, CHR 0x80, CHR 0x89],
      [CHR 0xE2, CHR 0x80, CHR 0x8A], [CHR 0xE2, CHR 0x80, CHR 0xA8],
      [CHR 0xE2, CHR 0x80, CHR 0xA9], [CHR 0xE2, CHR 0x80, CHR 0xAF],
      [CHR 0xE2, CHR 0x81, CHR 0x9F], [CHR 0xE3, CHR 0x80, CHR 0x80]]"

text \<open>Strip prefixes of a list as long as one matches; every encoding is non-empty, so the
  string gets shorter and \<^verbatim>\<open>length s\<close> rounds are enough.\<close>

fun strip_prefixes :: "nat \<Rightarrow> string list \<Rightarrow> string \<Rightarrow> string" where
  "strip_prefixes 0 ps s = s"
| "strip_prefixes (Suc n) ps s =
     (case List.find (HasPrefix s) ps of
        None \<Rightarrow> s
      | Some p \<Rightarrow> strip_prefixes n ps (drop (length p) s))"

definition TrimSpace :: "string \<Rightarrow> string" where
  "TrimSpace s =
     (let l = strip_prefixes (length s) space_encodings s
      in rev (strip_prefixes (length l) (map rev space_encodings) (rev l)))"

definition between :: "char \<Rightarrow> char \<Rightarrow> char \<Rightarrow> bool" where
  "between lo hi c \<longleftrightarrow> lo \<le> c \<and> c \<le> hi"

definition ascii_upper :: "char \<Rightarrow> char" where
  "ascii_upper c = (if between CHR ''a'' CHR ''z'' c then char_of (of_char c - 32 :: nat) else c)"

definition ascii_lower :: "char \<Rightarrow> char" where
  "ascii_lower c = (if between CHR ''A'' CHR ''Z'' c then char_of (of_char c + 32 :: nat) else c)"

text \<open>U+0131 and U+017F are the only non-ASCII code points whose upper case is ASCII, U+0130 and
  U+212A the only ones whose lower case is.\<close>

fun ToUpper :: "string \<Rightarrow> string" where
  "ToUpper [] = []"
| "ToUpper (c # d # s) =
     (if c = CHR 0xC4 \<and> d = CHR 0xB1 then CHR ''I'' # ToUpper s
      else if c = CHR 0xC5 \<and> d = CHR 0xBF then CHR ''S'' # ToUpper s
      else ascii_upper c # ToUpper (d # s))"
| "ToUpper [c] = [ascii_upper c]"

fun ToLower :: "string \<Rightarrow> string" where
  "ToLower [] = []"
| "ToLower (c # s) =
     (if c = CHR 0xC4 \<and> take 1 s = [CHR 0xB0] then CHR ''i'' # ToLower (drop 1 s)
      else if c = CHR 0xE2 \<and> take 2 s = [CHR 0x84, CHR 0xAA] then CHR ''k'' # ToLower (drop 2 s)
      else ascii_lower c # ToLower s)"

fun itoa :: "nat \<Rightarrow> string" where
  "itoa n = (if n < 10 then [char_of (48 + n)] else itoa (n div 10) @ [char_of (48 + n mod 10)])"

declare itoa.simps [simp del]

section \<open>The checks\<close>

definition MaxAccountNameLength :: nat where "MaxAccountNameLength = 255"
definition MinAccountNameLength :: nat where "MinAccountNameLength = 1"
definition MaxMetadataSize :: nat where "MaxMetadataSize = 10240"
definition MinPasswordLength :: nat where "MinPasswordLength = 8"
definition MaxPasswordLength :: nat where "MaxPasswordLength = 128"

definition validCurrencies :: "string list" where
  "validCurrencies =
     [''USD'', ''EUR'', ''GBP'', ''JPY'', ''CNY'', ''AUD'', ''CAD'', ''CHF'',
      ''SEK'', ''NZD'', ''KRW'', ''SGD'', ''NOK'', ''MXN'', ''INR'', ''BRL'',
      ''ZAR'', ''RUB'', ''TRY'', ''HKD'']"

definition dangerous :: "string list" where
  "dangerous = [''--'', ''/*'', ''*/'', '';'', ''DROP'', ''DELETE'', ''INSERT'', ''UPDATE'']"

definition ValidateAccountName :: "string \<Rightarrow> err option" where
  "ValidateAccountName raw =
     (let name = TrimSpace raw in
      if length name < MinAccountNameLength
      then Some (Wrapf ErrInvalidAccountName ''name cannot be empty'')
      else if length name > MaxAccountNameLength
      then Some (Wrapf ErrInvalidAccountName
             (''name exceeds '' @ itoa MaxAccountNameLength @ '' characters''))
      else let nameUpper = ToUpper name in
        if list_ex (Contains nameUpper) dangerous
        then Some (Wrapf ErrInvalidAccountName ''contains forbidden characters'')
        else None)"

definition ValidateCurrency :: "string \<Rightarrow> err option" where
  "ValidateCurrency raw =
     (let currency = ToUpper (TrimSpace raw) in
      if currency \<notin> set validCurrencies
      then Some (Wrapf ErrInvalidCurrency (currency @ '' is not a valid ISO 4217 currency code''))
      else None)"

text \<open>The bounds \<^verbatim>\<open>"0.01"\<close> and \<^verbatim>\<open>"1000000000000"\<close>: an amount is below 0.01 when a hundred times it is
  below one.\<close>

definition ValidateAmount :: "'d::linordered_idom \<Rightarrow> err option" where
  "ValidateAmount amount =
     (if amount \<le> 0 then Some ErrInvalidAmount
      else if 100 * amount < 1 then Some (Wrapf ErrAmountTooSmall ''minimum amount is 0.01'')
      else if amount > 1000000000000
      then Some (Wrapf ErrAmountTooLarge ''maximum amount is 1000000000000'')
      else None)"

definition metadata_size :: "(string \<times> any) list \<Rightarrow> nat" where
  "metadata_size m = sum_list (map (\<lambda>(k, v). length k + length (sprint_v v)) m)"

definition ValidateMetadata :: "metadata \<Rightarrow> err option" where
  "ValidateMetadata metadata =
     (case metadata of
        None \<Rightarrow> None
      | Some m \<Rightarrow>
          if metadata_size m > MaxMetadataSize
          then Some (Wrapf ErrMetadataTooLarge
                 (''metadata size '' @ itoa (metadata_size m) @ '' bytes exceeds limit of '' @
                  itoa MaxMetadataSize @ '' bytes''))
          else None)"

text \<open>The e-mail pattern is anchored on both sides: a local part, one at sign, a host, a dot and at
  least two letters. No class before or after the sign contains it, so the match splits the string
  there; the letters contain no dot, so the last dot ends the host.\<close>

definition is_letter :: "char \<Rightarrow> bool" where
  "is_letter c \<longleftrightarrow> between CHR ''a'' CHR ''z'' c \<or> between CHR ''A'' CHR ''Z'' c"

definition is_digit :: "char \<Rightarrow> bool" where
  "is_digit c \<longleftrightarrow> between CHR ''0'' CHR ''9'' c"

definition is_local :: "char \<Rightarrow> bool" where
  "is_local c \<longleftrightarrow> is_letter c \<or> is_digit c \<or> c \<in> set ''._%+-''"

definition is_host :: "char \<Rightarrow> bool" where
  "is_host c \<longleftrightarrow> is_letter c \<or> is_digit c \<or> c \<in> set ''.-''"

definition emailMatch :: "string \<Rightarrow> bool" where
  "emailMatch s =
     (let user = takeWhile (\<lambda>c. c \<noteq> CHR ''@'') s;
          rest = tl (dropWhile (\<lambda>c. c \<noteq> CHR ''@'') s);
          tld = takeWhile (\<lambda>c. c \<noteq> CHR ''.'') (rev rest);
          host = tl (dropWhile (\<lambda>c. c \<noteq> CHR ''.'') (rev rest))
      in CHR ''@'' \<in> set s \<and> user \<noteq> [] \<and> list_all is_local user \<and>
         CHR ''.'' \<in> set rest \<and> 2 \<le> length tld \<and> list_all is_letter tld \<and>
         host \<noteq> [] \<and> list_all is_host host)"

definition ValidateEmail :: "string \<Rightarrow> err option" where
  "ValidateEmail raw =
     (let email = TrimSpace (ToLower raw) in
      if \<not> emailMatch email then Some ErrInvalidEmail else None)"

definition ValidatePassword :: "string \<Rightarrow> err option" where
  "ValidatePassword password =
     (if length password < MinPasswordLength
      then Some (Wrapf ErrPasswordTooWeak
             (''must be at least '' @ itoa MinPasswordLength @ '' characters''))
      else if length password > MaxPasswordLength
      then Some (Wrapf ErrPasswordTooWeak
             (''must not exceed '' @ itoa MaxPasswordLength @ '' characters''))
      else let hasUpper = list_ex (between CHR ''A'' CHR ''Z'') password;
               hasLower = list_ex (between CHR ''a'' CHR ''z'') password;
               hasNumber = list_ex is_digit password
           in if \<not> hasUpper \<or> \<not> hasLower \<or> \<not> hasNumber
              then Some (Wrapf ErrPasswordTooWeak ''must contain uppercase, lowercase, and numbers'')
              else None)"

definition ValidatePagination :: "int \<Rightarrow> int \<Rightarrow> int \<times> int" where
  "ValidatePagination limit offset =
     (let l1 = (if limit \<le> 0 then 50 else limit);
          l2 = (if l1 > 1000 then 1000 else l1);
          o1 = (if offset < 0 then 0 else offset)
      in (l2, o1))"

section \<open>Facts\<close>

lemma HasPrefix_iff: "HasPrefix s p \<longleftrightarrow> (\<exists>v. s = p @ v)"
  by (induction s p rule: HasPrefix.induct) auto

lemma Contains_iff: "Contains s p \<longleftrightarrow> (\<exists>u v. s = u @ p @ v)"
proof (induction s)
  case Nil
  then show ?case by auto
next
  case (Cons c s)
  show ?case
  proof
    assume "Contains (c # s) p"
    then consider "HasPrefix (c # s) p" | "Contains s p" by auto
    then show "\<exists>u v. c # s = u @ p @ v"
    proof cases
      case 1
      then obtain v where "c # s = [] @ p @ v" by (auto simp: HasPrefix_iff)
      then show ?thesis by blast
    next
      case 2
      with Cons.IH obtain u v where "c # s = (c # u) @ p @ v" by auto
      then show ?thesis by blast
    qed
  next
    assume "\<exists>u v. c # s = u @ p @ v"
    then obtain u v where uv: "c # s = u @ p @ v" by blast
    show "Contains (c # s) p"
    proof (cases u)
      case Nil
      with uv have "HasPrefix (c # s) p" by (simp only: HasPrefix_iff) simp
      then show ?thesis by simp
    next
      case (Cons a u')
      with uv Cons.IH show ?thesis by auto
    qed
  qed
qed

lemma at_not_local: "\<not> is_local CHR ''@''"
  by code_simp

lemma at_not_host: "\<not> is_host CHR ''@''"
  by code_simp

lemma dot_not_letter: "\<not> is_letter CHR ''.''"
  by code_simp

lemma split_at_first:
  assumes "c \<in> set s"
  shows "s = takeWhile (\<lambda>x. x \<noteq> c) s @ c # tl (dropWhile (\<lambda>x. x \<noteq> c) s)"
proof -
  have ne: "dropWhile (\<lambda>x. x \<noteq> c) s \<noteq> []" using assms by (simp add: dropWhile_eq_Nil_conv)
  then have "hd (dropWhile (\<lambda>x. x \<noteq> c) s) = c" using hd_dropWhile [OF ne] by simp
  with ne have "dropWhile (\<lambda>x. x \<noteq> c) s = c # tl (dropWhile (\<lambda>x. x \<noteq> c) s)"
    by (metis list.collapse)
  then show ?thesis by (metis takeWhile_dropWhile_id)
qed

lemma takeWhile_ne_append: "c \<notin> set u \<Longrightarrow> takeWhile (\<lambda>x. x \<noteq> c) (u @ c # r) = u"
  by (induction u) auto

lemma dropWhile_ne_append: "c \<notin> set u \<Longrightarrow> dropWhile (\<lambda>x. x \<noteq> c) (u @ c # r) = c # r"
  by (induction u) auto

end
