(* ===== verification/Database.thy ===== *)
theory Database
  imports Domain
begin

text \<open>
  The PostgreSQL schema and the statements the program runs on it: the tables and constraints of
  \<^verbatim>\<open>src/internal/infrastructure/postgres/migrations\<close> and the queries of
  \<^verbatim>\<open>src/internal/infrastructure/postgres/generated\<close>, one definition per query. A table is the
  list of its rows in insertion order; a statement maps the database to an error or to a result
  and the new database, so a failing statement changes nothing. A NUMERIC column holds the decimal
  value itself and a TIMESTAMPTZ column an instant in microseconds. Rows that an
  \<^verbatim>\<open>ORDER BY\<close> leaves tied come in insertion order, and text is ordered bytewise, which on
  the upper-case ASCII of ULIDs is the order of every collation.
\<close>

section \<open>Tables\<close>

record 'd db =
  accountsT :: "'d account list"
  transfersT :: "'d transfer list"
  entriesT :: "'d entry list"
  holdsT :: "'d hold list"
  outboxT :: "'d outbox_event list"
  auditT :: "'d audit_log list"
  chainHash :: string
  chainSeq :: int
  usersT :: "user list"

text \<open>The database after the migrations: no rows, and the chain state at the genesis hash
  (\<^verbatim>\<open>repeat('0', 64)\<close>).\<close>

definition genesis_hash :: string where
  "genesis_hash = replicate 64 CHR ''0''"

definition empty_db :: "'d db" where
  "empty_db = \<lparr>accountsT = [], transfersT = [], entriesT = [], holdsT = [], outboxT = [],
     auditT = [], chainHash = genesis_hash, chainSeq = 0, usersT = []\<rparr>"

type_synonym ('d, 'a) stmt = "'d db \<Rightarrow> err + ('a \<times> 'd db)"

definition query :: "('d db \<Rightarrow> 'a) \<Rightarrow> ('d, 'a) stmt" where
  "query f d = Inr (f d, d)"

definition rows :: "(err + 'a list) \<Rightarrow> ('d, 'a list) stmt" where
  "rows r d = (case r of Inl e \<Rightarrow> Inl e | Inr xs \<Rightarrow> Inr (xs, d))"

definition one_row :: "'a option \<Rightarrow> ('d, 'a) stmt" where
  "one_row r d = (case r of None \<Rightarrow> Inl NoRows | Some x \<Rightarrow> Inr (x, d))"

definition pg_limit :: "int \<Rightarrow> int \<Rightarrow> 'r list \<Rightarrow> err + 'r list" where
  "pg_limit = limit_offset (PgErr ''2201W'' '''') (PgErr ''2201X'' '''')"

section \<open>Accounts\<close>

text \<open>The CHECK constraints of migration 000008, in name order as PostgreSQL tests them.\<close>

definition account_check :: "'d::linordered_idom account \<Rightarrow> err option" where
  "account_check a =
     (if \<not> (accAllowNegative a \<or> accBalance a - accEncumbered a \<ge> 0)
      then Some (PgErr ''23514'' ''chk_accounts_available_balance'')
      else if \<not> accEncumbered a \<ge> 0
      then Some (PgErr ''23514'' ''chk_accounts_encumbered_non_negative'')
      else if \<not> (accAllowPositive a \<or> accBalance a \<le> 0)
      then Some (PgErr ''23514'' ''chk_accounts_positive_balance'')
      else None)"

definition sql_CreateAccount :: "'d::linordered_idom account \<Rightarrow> ('d, unit) stmt" where
  "sql_CreateAccount a d =
     (let row = a\<lparr>accEncumbered := 0\<rparr> in
      case account_check row of
        Some e \<Rightarrow> Inl e
      | None \<Rightarrow>
          if has_row accID (accID row) (accountsT d) then Inl (PgErr ''23505'' ''accounts_pkey'')
          else Inr ((), d\<lparr>accountsT := accountsT d @ [row]\<rparr>))"

definition sql_GetAccountByID :: "string \<Rightarrow> ('d, 'd account) stmt" where
  "sql_GetAccountByID i d = one_row (find_row accID i (accountsT d)) d"

definition sql_GetAccountByIDForUpdate :: "string \<Rightarrow> ('d, 'd account) stmt" where
  "sql_GetAccountByIDForUpdate i d = one_row (find_row accID i (accountsT d)) d"

definition sql_GetAccountsByIDsForUpdate :: "string list \<Rightarrow> ('d, 'd account list) stmt" where
  "sql_GetAccountsByIDsForUpdate ids =
     query (\<lambda>d. sort_key accID (filter (\<lambda>a. accID a \<in> set ids) (accountsT d)))"

definition sql_ListAccounts :: "int \<Rightarrow> int \<Rightarrow> ('d, 'd account list) stmt" where
  "sql_ListAccounts lim off d =
     rows (pg_limit lim off (sort_key (\<lambda>a. - accCreatedAt a) (accountsT d))) d"

text \<open>\<^verbatim>\<open>UPDATE accounts SET \<dots>, version = version + 1 WHERE id = \<dots>\<close>: no matching row is not an
  error; BIGINT overflow and the CHECK constraints are.\<close>

definition update_account ::
  "string \<Rightarrow> ('d::linordered_idom account \<Rightarrow> 'd account) \<Rightarrow> ('d, unit) stmt" where
  "update_account i f d =
     (case find_row accID i (accountsT d) of
        None \<Rightarrow> Inr ((), d)
      | Some a \<Rightarrow>
          if accVersion a \<ge> max_int64 then Inl (PgErr ''22003'' ''accounts'')
          else case account_check (f a) of
            Some e \<Rightarrow> Inl e
          | None \<Rightarrow> Inr ((), d\<lparr>accountsT := update_rows accID i f (accountsT d)\<rparr>))"

definition set_balance :: "'d \<Rightarrow> int \<Rightarrow> 'd account \<Rightarrow> 'd account" where
  "set_balance b t a = a\<lparr>accBalance := b, accVersion := accVersion a + 1, accUpdatedAt := t\<rparr>"

definition set_encumbered :: "'d \<Rightarrow> int \<Rightarrow> 'd account \<Rightarrow> 'd account" where
  "set_encumbered n t a = a\<lparr>accEncumbered := n, accVersion := accVersion a + 1, accUpdatedAt := t\<rparr>"

definition set_both :: "'d \<Rightarrow> 'd \<Rightarrow> int \<Rightarrow> 'd account \<Rightarrow> 'd account" where
  "set_both b n t a =
     a\<lparr>accBalance := b, accEncumbered := n, accVersion := accVersion a + 1, accUpdatedAt := t\<rparr>"

definition sql_UpdateAccountBalance ::
  "string \<Rightarrow> 'd::linordered_idom \<Rightarrow> int \<Rightarrow> ('d, unit) stmt" where
  "sql_UpdateAccountBalance i b t = update_account i (set_balance b t)"

definition sql_UpdateAccountEncumbered ::
  "string \<Rightarrow> 'd::linordered_idom \<Rightarrow> int \<Rightarrow> ('d, unit) stmt" where
  "sql_UpdateAccountEncumbered i n t = update_account i (set_encumbered n t)"

definition sql_UpdateAccountBalanceAndEncumbered ::
  "string \<Rightarrow> 'd::linordered_idom \<Rightarrow> 'd \<Rightarrow> int \<Rightarrow> ('d, unit) stmt" where
  "sql_UpdateAccountBalanceAndEncumbered i b n t = update_account i (set_both b n t)"

section \<open>Transfers\<close>

definition reversal_taken :: "string option \<Rightarrow> 'd transfer list \<Rightarrow> bool" where
  "reversal_taken r ts = (case r of None \<Rightarrow> False | Some x \<Rightarrow> list_ex (\<lambda>t. trReversed t = Some x) ts)"

definition sql_CreateTransfer :: "'d::linordered_idom transfer \<Rightarrow> ('d, unit) stmt" where
  "sql_CreateTransfer t d =
     (if \<not> (trAmount t > 0 \<and> trFrom t \<noteq> trTo t) then Inl (PgErr ''23514'' ''transfers_check'')
      else if has_row trID (trID t) (transfersT d) then Inl (PgErr ''23505'' ''transfers_pkey'')
      else if reversal_taken (trReversed t) (transfersT d)
      then Inl (PgErr ''23505'' ''idx_transfers_reversed_transfer_id'')
      else if \<not> has_row accID (trFrom t) (accountsT d)
      then Inl (PgErr ''23503'' ''transfers_from_account_id_fkey'')
      else if \<not> has_row accID (trTo t) (accountsT d)
      then Inl (PgErr ''23503'' ''transfers_to_account_id_fkey'')
      else if \<not> (case trReversed t of None \<Rightarrow> True
                | Some r \<Rightarrow> has_row trID r (transfersT d @ [t]))
      then Inl (PgErr ''23503'' ''transfers_reversed_transfer_id_fkey'')
      else Inr ((), d\<lparr>transfersT := transfersT d @ [t]\<rparr>))"

definition sql_GetTransferByID :: "string \<Rightarrow> ('d, 'd transfer) stmt" where
  "sql_GetTransferByID i d = one_row (find_row trID i (transfersT d)) d"

definition sql_ListTransfersByAccount :: "string \<Rightarrow> int \<Rightarrow> int \<Rightarrow> ('d, 'd transfer list) stmt" where
  "sql_ListTransfersByAccount acc lim off d =
     rows (pg_limit lim off
       (sort_key (\<lambda>t. - trCreatedAt t)
         (filter (\<lambda>t. trFrom t = acc \<or> trTo t = acc) (transfersT d)))) d"

definition sql_ListTransfersByAccountCursor ::
  "string \<Rightarrow> string \<Rightarrow> int \<Rightarrow> ('d, 'd transfer list) stmt" where
  "sql_ListTransfersByAccountCursor acc cursor lim d =
     rows (pg_limit lim 0
       (rev (sort_key trID
         (filter (\<lambda>t. (trFrom t = acc \<or> trTo t = acc) \<and> (cursor = [] \<or> trID t < cursor))
           (transfersT d))))) d"

section \<open>Entries\<close>

definition sql_CreateEntry :: "'d entry \<Rightarrow> ('d, unit) stmt" where
  "sql_CreateEntry e d =
     (if has_row enID (enID e) (entriesT d) then Inl (PgErr ''23505'' ''entries_pkey'')
      else if \<not> has_row accID (enAccount e) (accountsT d)
      then Inl (PgErr ''23503'' ''entries_account_id_fkey'')
      else if \<not> has_row trID (enTransfer e) (transfersT d)
      then Inl (PgErr ''23503'' ''entries_transfer_id_fkey'')
      else Inr ((), d\<lparr>entriesT := entriesT d @ [e]\<rparr>))"

definition sql_GetEntriesByTransfer :: "string \<Rightarrow> ('d, 'd entry list) stmt" where
  "sql_GetEntriesByTransfer tr =
     query (\<lambda>d. sort_key enCreatedAt (filter (\<lambda>e. enTransfer e = tr) (entriesT d)))"

definition sql_GetEntriesByAccount :: "string \<Rightarrow> int \<Rightarrow> int \<Rightarrow> ('d, 'd entry list) stmt" where
  "sql_GetEntriesByAccount acc lim off d =
     rows (pg_limit lim off
       (sort_key (\<lambda>e. - enCreatedAt e) (filter (\<lambda>e. enAccount e = acc) (entriesT d)))) d"

definition sql_GetEntriesByAccountOrdered :: "string \<Rightarrow> ('d, 'd entry list) stmt" where
  "sql_GetEntriesByAccountOrdered acc =
     query (\<lambda>d. sort_key enVersion (filter (\<lambda>e. enAccount e = acc) (entriesT d)))"

text \<open>\<^verbatim>\<open>ORDER BY created_at DESC, id DESC LIMIT 1\<close>: the last row by creation time and then id.\<close>

definition sql_GetAccountBalanceAtTime ::
  "string \<Rightarrow> int \<Rightarrow> ('d::linordered_idom, 'd) stmt" where
  "sql_GetAccountBalanceAtTime acc at =
     query (\<lambda>d.
       case rev (sort_key enCreatedAt (sort_key enID
              (filter (\<lambda>e. enAccount e = acc \<and> enCreatedAt e \<le> at) (entriesT d)))) of
         [] \<Rightarrow> 0
       | e # _ \<Rightarrow> enCurrent e)"

definition sql_SumEntryAmountsByAccount :: "string \<Rightarrow> ('d::linordered_idom, 'd) stmt" where
  "sql_SumEntryAmountsByAccount acc =
     query (\<lambda>d. sum_list (map enAmount (filter (\<lambda>e. enAccount e = acc) (entriesT d))))"

definition sql_CheckLedgerConsistency :: "('d::linordered_idom, 'd \<times> 'd) stmt" where
  "sql_CheckLedgerConsistency =
     query (\<lambda>d. (sum_list (map accBalance (accountsT d)), sum_list (map enAmount (entriesT d))))"

text \<open>One row per currency of \<^verbatim>\<open>accounts\<close>; entries are joined to their account's currency, and a
  currency without entries counts zero.\<close>

definition currency_of :: "'d db \<Rightarrow> string \<Rightarrow> string option" where
  "currency_of d acc = map_option accCurrency (find_row accID acc (accountsT d))"

definition sql_CheckLedgerConsistencyByCurrency ::
  "('d::linordered_idom, (string \<times> 'd \<times> 'd) list) stmt" where
  "sql_CheckLedgerConsistencyByCurrency =
     query (\<lambda>d. map (\<lambda>c.
       (c,
        sum_list (map accBalance (filter (\<lambda>a. accCurrency a = c) (accountsT d))),
        sum_list (map enAmount (filter (\<lambda>e. currency_of d (enAccount e) = Some c) (entriesT d)))))
       (sort (remdups (map accCurrency (accountsT d)))))"

section \<open>Holds\<close>

definition sql_CreateHold :: "'d::linordered_idom hold \<Rightarrow> ('d, unit) stmt" where
  "sql_CreateHold h d =
     (if \<not> hoAmount h > 0 then Inl (PgErr ''23514'' ''holds_amount_check'')
      else if has_row hoID (hoID h) (holdsT d) then Inl (PgErr ''23505'' ''holds_pkey'')
      else if \<not> has_row accID (hoAccount h) (accountsT d)
      then Inl (PgErr ''23503'' ''holds_account_id_fkey'')
      else Inr ((), d\<lparr>holdsT := holdsT d @ [h]\<rparr>))"

definition sql_GetHoldByID :: "string \<Rightarrow> ('d, 'd hold) stmt" where
  "sql_GetHoldByID i d = one_row (find_row hoID i (holdsT d)) d"

definition sql_GetHoldByIDForUpdate :: "string \<Rightarrow> ('d, 'd hold) stmt" where
  "sql_GetHoldByIDForUpdate i d = one_row (find_row hoID i (holdsT d)) d"

definition set_status :: "hold_status \<Rightarrow> int \<Rightarrow> 'd hold \<Rightarrow> 'd hold" where
  "set_status st t h = h\<lparr>hoStatus := st, hoUpdatedAt := t\<rparr>"

definition sql_UpdateHoldStatus :: "string \<Rightarrow> hold_status \<Rightarrow> int \<Rightarrow> ('d, unit) stmt" where
  "sql_UpdateHoldStatus i st t d =
     Inr ((), d\<lparr>holdsT := update_rows hoID i (set_status st t) (holdsT d)\<rparr>)"

definition sql_ListHoldsByAccount :: "string \<Rightarrow> int \<Rightarrow> int \<Rightarrow> ('d, 'd hold list) stmt" where
  "sql_ListHoldsByAccount acc lim off d =
     rows (pg_limit lim off
       (sort_key (\<lambda>h. - hoCreatedAt h) (filter (\<lambda>h. hoAccount h = acc) (holdsT d)))) d"

section \<open>Outbox\<close>

definition same_aggregate :: "'d outbox_event \<Rightarrow> 'd outbox_event \<Rightarrow> bool" where
  "same_aggregate e f \<longleftrightarrow>
     obAggregateType f = obAggregateType e \<and> obAggregateID f = obAggregateID e"

text \<open>\<^verbatim>\<open>COALESCE((SELECT MAX(aggregate_sequence) \<dots>), 0) + 1\<close>\<close>

definition next_sequence :: "'d outbox_event \<Rightarrow> 'd outbox_event list \<Rightarrow> int" where
  "next_sequence e es =
     (case map obSequence (filter (same_aggregate e) es) of
        [] \<Rightarrow> 0
      | x # xs \<Rightarrow> fold max xs x) + 1"

text \<open>The unpublished row the INSERT makes: publication, attempts and dead-letter columns take their
  defaults.\<close>

definition sql_CreateOutboxEvent ::
  "'d outbox_event \<Rightarrow> ('d, 'd outbox_event) stmt" where
  "sql_CreateOutboxEvent e d =
     (let row = e\<lparr>obSequence := next_sequence e (outboxT d), obPublishedAt := None,
                  obAttempts := 0, obLastError := None, obDeadLetteredAt := None\<rparr>
      in if obSequence row > max_int64 then Inl (PgErr ''22003'' ''outbox_events'')
         else if has_row obID (obID e) (outboxT d) then Inl (PgErr ''23505'' ''outbox_events_pkey'')
         else if list_ex (\<lambda>f. same_aggregate row f \<and> obSequence f = obSequence row) (outboxT d)
         then Inl (PgErr ''23505'' ''idx_outbox_events_aggregate_sequence'')
         else Inr (row, d\<lparr>outboxT := outboxT d @ [row]\<rparr>))"

definition pending :: "'d outbox_event \<Rightarrow> bool" where
  "pending e \<longleftrightarrow> \<not> obPublished e \<and> obDeadLetteredAt e = None"

definition sql_GetUnpublishedEvents :: "int \<Rightarrow> ('d, 'd outbox_event list) stmt" where
  "sql_GetUnpublishedEvents lim d =
     rows (pg_limit lim 0 (sort_key obCreatedAt (filter pending (outboxT d)))) d"

definition sql_MarkEventPublished :: "string \<Rightarrow> int \<Rightarrow> ('d, unit) stmt" where
  "sql_MarkEventPublished i t d =
     Inr ((), d\<lparr>outboxT := update_rows obID i (\<lambda>e. e\<lparr>obPublished := True, obPublishedAt := Some t\<rparr>)
                            (outboxT d)\<rparr>)"

definition sql_RecordOutboxFailure :: "string \<Rightarrow> err \<Rightarrow> ('d, int) stmt" where
  "sql_RecordOutboxFailure i e d =
     (case find_row obID i (outboxT d) of
        None \<Rightarrow> Inl NoRows
      | Some r \<Rightarrow>
          if obAttempts r \<ge> max_int32 then Inl (PgErr ''22003'' ''outbox_events'')
          else Inr (obAttempts r + 1,
            d\<lparr>outboxT := update_rows obID i
                (\<lambda>r. r\<lparr>obAttempts := obAttempts r + 1, obLastError := Some e\<rparr>) (outboxT d)\<rparr>))"

definition sql_MarkOutboxDeadLettered :: "string \<Rightarrow> int \<Rightarrow> ('d, unit) stmt" where
  "sql_MarkOutboxDeadLettered i t d =
     Inr ((), d\<lparr>outboxT := update_rows obID i (\<lambda>e. e\<lparr>obDeadLetteredAt := Some t\<rparr>) (outboxT d)\<rparr>)"

definition sql_GetDeadLetteredEvents :: "int \<Rightarrow> int \<Rightarrow> ('d, 'd outbox_event list) stmt" where
  "sql_GetDeadLetteredEvents lim off d =
     rows (pg_limit lim off
       (sort_key (\<lambda>e. case obDeadLetteredAt e of None \<Rightarrow> 0 | Some t \<Rightarrow> - t)
         (filter (\<lambda>e. obDeadLetteredAt e \<noteq> None) (outboxT d)))) d"

definition sql_GetEventsByAggregate ::
  "aggregate_type \<Rightarrow> string \<Rightarrow> int \<Rightarrow> int \<Rightarrow> ('d, 'd outbox_event list) stmt" where
  "sql_GetEventsByAggregate ty i lim off d =
     rows (pg_limit lim off
       (sort_key (\<lambda>e. - obCreatedAt e)
         (filter (\<lambda>e. obAggregateType e = ty \<and> obAggregateID e = i) (outboxT d)))) d"

definition sql_DeletePublishedEvents :: "int \<Rightarrow> ('d, unit) stmt" where
  "sql_DeletePublishedEvents cutoff d =
     Inr ((), d\<lparr>outboxT := filter (\<lambda>e. \<not> (obPublished e \<and>
         (case obPublishedAt e of None \<Rightarrow> False | Some t \<Rightarrow> t < cutoff))) (outboxT d)\<rparr>)"

section \<open>What the statements do when they succeed\<close>

lemma query_Inr [run_simps]: "query f d = Inr (x, d') \<longleftrightarrow> x = f d \<and> d' = d"
  by (auto simp: query_def)

lemma one_row_Inr [run_simps]: "one_row r d = Inr (x, d') \<longleftrightarrow> r = Some x \<and> d' = d"
  by (auto simp: one_row_def split: option.splits)

lemma rows_Inr [run_simps]: "rows r d = Inr (xs, d') \<longleftrightarrow> r = Inr xs \<and> d' = d"
  by (auto simp: rows_def split: sum.splits)

lemma account_check_None:
  "account_check a = None \<longleftrightarrow>
     (accAllowNegative a \<or> 0 \<le> AvailableBalance a) \<and> 0 \<le> accEncumbered a \<and>
     (accAllowPositive a \<or> accBalance a \<le> 0)"
  by (auto simp: account_check_def AvailableBalance_def)

lemma set_account_simps [simp]:
  "accID (set_balance b t a) = accID a" "accID (set_encumbered n t a) = accID a"
  "accID (set_both b n t a) = accID a"
  "accBalance (set_balance b t a) = b" "accBalance (set_encumbered n t a) = accBalance a"
  "accBalance (set_both b n t a) = b"
  "accEncumbered (set_balance b t a) = accEncumbered a" "accEncumbered (set_encumbered n t a) = n"
  "accEncumbered (set_both b n t a) = n"
  "accVersion (set_balance b t a) = accVersion a + 1"
  "accVersion (set_encumbered n t a) = accVersion a + 1"
  "accVersion (set_both b n t a) = accVersion a + 1"
  "accCurrency (set_balance b t a) = accCurrency a"
  "accCurrency (set_encumbered n t a) = accCurrency a"
  "accCurrency (set_both b n t a) = accCurrency a"
  "accAllowNegative (set_balance b t a) = accAllowNegative a"
  "accAllowNegative (set_encumbered n t a) = accAllowNegative a"
  "accAllowNegative (set_both b n t a) = accAllowNegative a"
  "accAllowPositive (set_balance b t a) = accAllowPositive a"
  "accAllowPositive (set_encumbered n t a) = accAllowPositive a"
  "accAllowPositive (set_both b n t a) = accAllowPositive a"
  by (simp_all add: set_balance_def set_encumbered_def set_both_def)

lemma update_account_Inr:
  assumes "find_row accID i (accountsT d) = Some a"
  shows "update_account i f d = Inr (u, d') \<longleftrightarrow>
     accVersion a < max_int64 \<and> account_check (f a) = None \<and>
     d' = d\<lparr>accountsT := update_rows accID i f (accountsT d)\<rparr>"
  using assms by (auto simp: update_account_def split: if_splits option.splits)

lemma sql_CreateTransfer_Inr [run_simps]:
  "sql_CreateTransfer t d = Inr (u, d') \<longleftrightarrow>
     0 < trAmount t \<and> trFrom t \<noteq> trTo t \<and> trID t \<notin> trID ` set (transfersT d) \<and>
     \<not> reversal_taken (trReversed t) (transfersT d) \<and>
     trFrom t \<in> accID ` set (accountsT d) \<and> trTo t \<in> accID ` set (accountsT d) \<and>
     (\<forall>r. trReversed t = Some r \<longrightarrow> r \<in> insert (trID t) (trID ` set (transfersT d))) \<and>
     d' = d\<lparr>transfersT := transfersT d @ [t]\<rparr>"
  by (auto simp: sql_CreateTransfer_def has_row_iff split: if_splits option.splits)

lemma sql_CreateEntry_Inr [run_simps]:
  "sql_CreateEntry e d = Inr (u, d') \<longleftrightarrow>
     enID e \<notin> enID ` set (entriesT d) \<and> enAccount e \<in> accID ` set (accountsT d) \<and>
     enTransfer e \<in> trID ` set (transfersT d) \<and> d' = d\<lparr>entriesT := entriesT d @ [e]\<rparr>"
  by (auto simp: sql_CreateEntry_def has_row_iff split: if_splits)

lemma sql_CreateHold_Inr [run_simps]:
  "sql_CreateHold h d = Inr (u, d') \<longleftrightarrow>
     0 < hoAmount h \<and> hoID h \<notin> hoID ` set (holdsT d) \<and>
     hoAccount h \<in> accID ` set (accountsT d) \<and> d' = d\<lparr>holdsT := holdsT d @ [h]\<rparr>"
  by (auto simp: sql_CreateHold_def has_row_iff split: if_splits)

lemma sql_CreateAccount_Inr [run_simps]:
  "sql_CreateAccount a d = Inr (u, d') \<longleftrightarrow>
     account_check (a\<lparr>accEncumbered := 0\<rparr>) = None \<and> accID a \<notin> accID ` set (accountsT d) \<and>
     d' = d\<lparr>accountsT := accountsT d @ [a\<lparr>accEncumbered := 0\<rparr>]\<rparr>"
  by (auto simp: sql_CreateAccount_def has_row_iff Let_def split: if_splits option.splits)

end
