(* ===== verification/AuditChain.thy ===== *)
theory AuditChain
  imports Database
begin

text \<open>
  The tamper-evident audit table: migrations 000010 and 000012 (\<^verbatim>\<open>audit_logs\<close>, its
  \<^verbatim>\<open>audit_log_chain_hash\<close> trigger and \<^verbatim>\<open>verify_audit_log_chain\<close>) and the \<^verbatim>\<open>CreateAuditLog\<close> query.
  The digest of \<^verbatim>\<open>pgcrypto\<close>, the text of \<^verbatim>\<open>extract(epoch from t)\<close> and the text of
  server errors come from outside and are the fields of \<^theory_text>\<open>hasher\<close>. Shown: inserts keep the
  chain intact, a changed covered field is found unless the digest collides; and what is not
  found: the states, address and agent of a row, and rows cut from the end.
\<close>

record hasher =
  sha256hex :: "string \<Rightarrow> string"
  epochText :: "int \<Rightarrow> string"
  extErrText :: "err \<Rightarrow> string"

fun actionText :: "audit_action \<Rightarrow> string" where
  "actionText AuditActionAccountCreate = ''account.create''"
| "actionText AuditActionAccountUpdate = ''account.update''"
| "actionText AuditActionAccountView = ''account.view''"
| "actionText AuditActionTransferCreate = ''transfer.create''"
| "actionText AuditActionTransferReverse = ''transfer.reverse''"
| "actionText AuditActionTransferView = ''transfer.view''"
| "actionText AuditActionHoldCreate = ''hold.create''"
| "actionText AuditActionHoldVoid = ''hold.void''"
| "actionText AuditActionHoldCapture = ''hold.capture''"
| "actionText AuditActionHoldView = ''hold.view''"
| "actionText AuditActionUserLogin = ''user.login''"
| "actionText AuditActionUserLogout = ''user.logout''"

fun statusText :: "audit_status \<Rightarrow> string" where
  "statusText AuditStatusSuccess = ''success''"
| "statusText AuditStatusFailure = ''failure''"
| "statusText AuditStatusError = ''error''"

text \<open>An unset \<^verbatim>\<open>ErrorMessage\<close> is the empty string in Go and in the row.\<close>

definition errorMessage :: "hasher \<Rightarrow> 'd audit_log \<Rightarrow> string" where
  "errorMessage H l = (case auError l of None \<Rightarrow> '''' | Some e \<Rightarrow> errText (extErrText H) e)"

definition canonical :: "hasher \<Rightarrow> string \<Rightarrow> 'd audit_log \<Rightarrow> string" where
  "canonical H prior l =
     prior @ ''|'' @ auID l @ ''|'' @ auUserID l @ ''|'' @ actionText (auAction l) @ ''|'' @
     auResourceType l @ ''|'' @ auResourceID l @ ''|'' @ statusText (auStatus l) @ ''|'' @
     errorMessage H l @ ''|'' @ epochText H (auCreatedAt l)"

text \<open>VARCHAR(n) counts characters: bytes that do not continue a UTF-8 sequence, so all but those
  of the form 10xxxxxx.\<close>

definition continuation :: "char \<Rightarrow> bool" where
  "continuation c \<longleftrightarrow> digit7 c \<and> \<not> digit6 c"

definition char_count :: "string \<Rightarrow> int" where
  "char_count s = int (length (filter (\<lambda>c. \<not> continuation c) s))"

definition audit_too_long :: "'d audit_log \<Rightarrow> bool" where
  "audit_too_long l \<longleftrightarrow>
     char_count (auID l) > 255 \<or> char_count (auUserID l) > 255 \<or>
     char_count (auResourceType l) > 50 \<or> char_count (auResourceID l) > 255 \<or>
     char_count (auIPAddress l) > 45 \<or> char_count (auRequestID l) > 255"

definition sql_CreateAuditLog :: "hasher \<Rightarrow> 'd audit_log \<Rightarrow> ('d, unit) stmt" where
  "sql_CreateAuditLog H l d =
     (if audit_too_long l then Inl (PgErr ''22001'' ''audit_logs'')
      else if chainSeq d \<ge> max_int64 then Inl (PgErr ''22003'' ''audit_logs'')
      else let row = l\<lparr>auPrevHash := chainHash d, auChainSeq := chainSeq d + 1,
                       auHash := sha256hex H (canonical H (chainHash d) l)\<rparr>
        in if list_ex (\<lambda>r. auID r = auID row \<and> auCreatedAt r = auCreatedAt row) (auditT d)
           then Inl (PgErr ''23505'' ''audit_logs_pkey'')
           else if list_ex (\<lambda>r. auChainSeq r = auChainSeq row \<and> auCreatedAt r = auCreatedAt row) (auditT d)
           then Inl (PgErr ''23505'' ''idx_audit_logs_chain_seq'')
           else Inr ((), d\<lparr>auditT := auditT d @ [row], chainHash := auHash row, chainSeq := auChainSeq row\<rparr>))"

text \<open>The listings, newest first. Only \<^verbatim>\<open>GetAuditLogsByResource\<close> is called by the program.\<close>

definition sql_GetAuditLogsByResource :: "string \<Rightarrow> string \<Rightarrow> ('d, 'd audit_log list) stmt" where
  "sql_GetAuditLogsByResource ty i = query (\<lambda>d.
     sort_key (\<lambda>l. - auCreatedAt l)
       (filter (\<lambda>l. auResourceType l = ty \<and> auResourceID l = i) (auditT d)))"

definition sql_GetAuditLogsByUser :: "string \<Rightarrow> int \<Rightarrow> int \<Rightarrow> ('d, 'd audit_log list) stmt" where
  "sql_GetAuditLogsByUser user lim off d =
     rows (pg_limit lim off
       (sort_key (\<lambda>l. - auCreatedAt l) (filter (\<lambda>l. auUserID l = user) (auditT d)))) d"

definition sql_ListAuditLogs :: "int \<Rightarrow> int \<Rightarrow> ('d, 'd audit_log list) stmt" where
  "sql_ListAuditLogs lim off d =
     rows (pg_limit lim off (sort_key (\<lambda>l. - auCreatedAt l) (auditT d))) d"

text \<open>\<^verbatim>\<open>COALESCE(LAG(hash) OVER (ORDER BY chain_seq), repeat('0', 64))\<close> next to each row.\<close>

definition with_expected :: "'d audit_log list \<Rightarrow> ('d audit_log \<times> string) list" where
  "with_expected ls = (let ordered = sort_key auChainSeq ls
                       in zip ordered (genesis_hash # map auHash ordered))"

definition verify_audit_log_chain :: "hasher \<Rightarrow> 'd audit_log list \<Rightarrow> (string \<times> string) list" where
  "verify_audit_log_chain H ls =
     map (\<lambda>(l, p). (auID l, ''prev_hash does not match previous row's hash''))
       (filter (\<lambda>(l, p). auPrevHash l \<noteq> p) (with_expected ls)) @
     map (\<lambda>(l, p). (auID l, ''hash does not match recomputed value (row may have been tampered with)''))
       (filter (\<lambda>(l, p). auHash l \<noteq> sha256hex H (canonical H p l)) (with_expected ls))"

section \<open>Intact chains\<close>

fun linked :: "hasher \<Rightarrow> string \<Rightarrow> 'd audit_log list \<Rightarrow> bool" where
  "linked H p [] = True"
| "linked H p (l # ls) =
     (auPrevHash l = p \<and> auHash l = sha256hex H (canonical H p l) \<and> linked H (auHash l) ls)"

definition last_hash :: "'d audit_log list \<Rightarrow> string" where
  "last_hash ls = (case ls of [] \<Rightarrow> genesis_hash | _ \<Rightarrow> auHash (last ls))"

definition audit_ok :: "hasher \<Rightarrow> 'd db \<Rightarrow> bool" where
  "audit_ok H d \<longleftrightarrow>
     linked H genesis_hash (auditT d) \<and>
     map auChainSeq (auditT d) = map int [1..<Suc (length (auditT d))] \<and>
     chainSeq d = int (length (auditT d)) \<and> chainHash d = last_hash (auditT d)"

lemma verify_Nil_iff:
  "verify_audit_log_chain H ls = [] \<longleftrightarrow>
     (\<forall>(l, p) \<in> set (with_expected ls). auPrevHash l = p \<and> auHash l = sha256hex H (canonical H p l))"
  by (auto simp: verify_audit_log_chain_def filter_empty_conv)

lemma linked_zip:
  "linked H p ls \<longleftrightarrow>
     (\<forall>(l, q) \<in> set (zip ls (p # map auHash ls)). auPrevHash l = q \<and> auHash l = sha256hex H (canonical H q l))"
  by (induction ls arbitrary: p) auto

lemma linked_append:
  "linked H p (xs @ [x]) \<longleftrightarrow>
     linked H p xs \<and> linked H (if xs = [] then p else auHash (last xs)) [x]"
  by (induction xs arbitrary: p) auto

lemma linked_append_prefix: "linked H p (xs @ ys) \<Longrightarrow> linked H p xs"
  by (induction xs arbitrary: p) auto

lemma canonical_cong [simp]:
  "canonical H p (l\<lparr>auPrevHash := a\<rparr>) = canonical H p l"
  "canonical H p (l\<lparr>auHash := b\<rparr>) = canonical H p l"
  "canonical H p (l\<lparr>auChainSeq := c\<rparr>) = canonical H p l"
  "canonical H p (l\<lparr>auBefore := s\<rparr>) = canonical H p l"
  "canonical H p (l\<lparr>auAfter := s'\<rparr>) = canonical H p l"
  "canonical H p (l\<lparr>auIPAddress := ip\<rparr>) = canonical H p l"
  "canonical H p (l\<lparr>auUserAgent := ua\<rparr>) = canonical H p l"
  "canonical H p (l\<lparr>auRequestID := rq\<rparr>) = canonical H p l"
  by (simp_all add: canonical_def errorMessage_def)

lemma sorted_seq_id:
  assumes "map auChainSeq ls = map int [1..<Suc n]"
  shows "sort_key auChainSeq ls = ls"
proof -
  have "sorted (map int [1..<Suc n])" by (simp add: sorted_map sorted_wrt_upt del: upt_Suc)
  with assms show ?thesis by (simp add: sorted_sort_id sort_key_id_if_sorted)
qed

lemma verify_sorted:
  assumes "sort_key auChainSeq ls = ls"
  shows "verify_audit_log_chain H ls = [] \<longleftrightarrow> linked H genesis_hash ls"
  by (simp add: verify_Nil_iff linked_zip with_expected_def assms)

lemma audit_ok_empty: "audit_ok H empty_db"
  by (simp add: audit_ok_def empty_db_def last_hash_def)

lemma audit_ok_verify: "audit_ok H d \<Longrightarrow> verify_audit_log_chain H (auditT d) = []"
  using verify_sorted [OF sorted_seq_id, of "auditT d" "length (auditT d)"]
  by (simp add: audit_ok_def)

lemma sql_CreateAuditLog_Inr:
  assumes "sql_CreateAuditLog H l d = Inr (u, d')"
  obtains row where
    "row = l\<lparr>auPrevHash := chainHash d, auChainSeq := chainSeq d + 1,
             auHash := sha256hex H (canonical H (chainHash d) l)\<rparr>"
    "d' = d\<lparr>auditT := auditT d @ [row], chainHash := auHash row, chainSeq := auChainSeq row\<rparr>"
  using assms by (auto simp: sql_CreateAuditLog_def Let_def split: if_splits)

lemma audit_ok_insert:
  assumes ok: "audit_ok H d" and run: "sql_CreateAuditLog H l d = Inr (u, d')"
  shows "audit_ok H d'"
proof -
  obtain row where row: "row = l\<lparr>auPrevHash := chainHash d, auChainSeq := chainSeq d + 1,
             auHash := sha256hex H (canonical H (chainHash d) l)\<rparr>"
    and d': "d' = d\<lparr>auditT := auditT d @ [row], chainHash := auHash row, chainSeq := auChainSeq row\<rparr>"
    using run by (rule sql_CreateAuditLog_Inr)
  have "linked H (chainHash d) [row]" by (simp add: row)
  moreover have "chainHash d = (if auditT d = [] then genesis_hash else auHash (last (auditT d)))"
    using ok by (auto simp: audit_ok_def last_hash_def split: list.splits)
  ultimately have "linked H genesis_hash (auditT d @ [row])"
    using ok by (simp add: linked_append audit_ok_def split: if_splits)
  then show ?thesis using ok by (simp add: audit_ok_def d' row last_hash_def split: list.splits)
qed

lemma audit_insert_frame:
  assumes "sql_CreateAuditLog H l d = Inr (u, d')"
  shows "accountsT d' = accountsT d" "transfersT d' = transfersT d" "entriesT d' = entriesT d"
    "holdsT d' = holdsT d" "outboxT d' = outboxT d" "usersT d' = usersT d"
  using assms by (auto elim!: sql_CreateAuditLog_Inr)

section \<open>Changed rows\<close>

lemma linked_split:
  "linked H p (xs @ l # ys) \<longleftrightarrow>
     linked H p xs \<and> linked H (if xs = [] then p else auHash (last xs)) (l # ys)"
  by (induction xs arbitrary: p) auto

lemma tampered_not_linked:
  assumes ok: "linked H p (xs @ l # ys)"
    and collide: "sha256hex H (canonical H q l') \<noteq> sha256hex H (canonical H q l)"
    and q: "q = (if xs = [] then p else auHash (last xs))"
    and h: "auHash l' = auHash l"
  shows "\<not> linked H p (xs @ l' # ys)"
  using ok collide h unfolding linked_split q [symmetric] by simp

lemma with_expected_cong:
  assumes "map auChainSeq ls' = map auChainSeq ls" and "map auHash ls' = map auHash ls"
    and "sort_key auChainSeq ls = ls"
  shows "with_expected ls' = zip ls' (genesis_hash # map auHash ls)"
proof -
  have "sorted (map auChainSeq ls)" using assms(3) by (metis sorted_sort_key)
  then have "sort_key auChainSeq ls' = ls'" using assms(1) by (simp add: sort_key_id_if_sorted)
  then show ?thesis by (simp add: with_expected_def assms(2))
qed

end
