(* ===== verification/Store.thy ===== *)
theory Store
  imports AuditChain
begin

text \<open>
  What a use case runs on: the committed database, the working copy of the open transaction, and
  counters into the outside world (\<^verbatim>\<open>tx_manager.go\<close>, \<^verbatim>\<open>id_generator.go\<close>, \<^verbatim>\<open>time.Now\<close>).

  The outside is the record \<^theory_text>\<open>env\<close>: the identifiers the generator returns, the clock readings,
  and, for every call to the database, the failure (lost connection, deadlock, serialization
  failure, deadline) it meets, if any. Every result below holds for every \<^theory_text>\<open>env\<close>, so for every
  pattern of failures. A failing call has no effect; a failing commit commits nothing.
  Transactions run one after another: the row locks the code takes are not needed to state what
  one of them does.
\<close>

record env =
  envID :: "nat \<Rightarrow> string"
  envNow :: "nat \<Rightarrow> int"
  envFault :: "nat \<Rightarrow> err option"
  envHasher :: hasher
  envAudit :: bool

text \<open>\<open>envAudit\<close> is \<^verbatim>\<open>uc.auditRepo != nil\<close>.\<close>

record 'd world =
  committed :: "'d db"
  working :: "'d db"
  callCount :: nat
  idCount :: nat
  nowCount :: nat

type_synonym ('d, 'a) act = "(err, 'd world, 'a) go"

definition Generate :: "env \<Rightarrow> ('d, string) act" where
  "Generate E = (\<lambda>w. (Inr (envID E (idCount w)), w\<lparr>idCount := Suc (idCount w)\<rparr>))"

definition Now :: "env \<Rightarrow> ('d, int) act" where
  "Now E = (\<lambda>w. (Inr (envNow E (nowCount w)), w\<lparr>nowCount := Suc (nowCount w)\<rparr>))"

text \<open>One call to the server: it may fail before the statement takes effect.\<close>

definition dbCall :: "env \<Rightarrow> ('d world \<Rightarrow> (err + 'a) \<times> 'd world) \<Rightarrow> ('d, 'a) act" where
  "dbCall E f = (\<lambda>w.
     let w' = w\<lparr>callCount := Suc (callCount w)\<rparr>
     in case envFault E (callCount w) of Some e \<Rightarrow> (Inl e, w') | None \<Rightarrow> f w')"

definition txStmt :: "env \<Rightarrow> ('d, 'a) stmt \<Rightarrow> ('d, 'a) act" where
  "txStmt E st = dbCall E (\<lambda>w.
     case st (working w) of Inl e \<Rightarrow> (Inl e, w) | Inr (x, d) \<Rightarrow> (Inr x, w\<lparr>working := d\<rparr>))"

definition poolStmt :: "env \<Rightarrow> ('d, 'a) stmt \<Rightarrow> ('d, 'a) act" where
  "poolStmt E st = dbCall E (\<lambda>w.
     case st (committed w) of Inl e \<Rightarrow> (Inl e, w) | Inr (x, d) \<Rightarrow> (Inr x, w\<lparr>committed := d\<rparr>))"

definition Begin :: "env \<Rightarrow> ('d, unit) act" where
  "Begin E = dbCall E (\<lambda>w. (Inr (), w\<lparr>working := committed w\<rparr>))"

definition Commit :: "env \<Rightarrow> ('d, unit) act" where
  "Commit E = dbCall E (\<lambda>w. (Inr (), w\<lparr>committed := working w\<rparr>))"

text \<open>\<^verbatim>\<open>defer func() { _ = tx.Rollback(ctx) }()\<close>: drops the working copy; after a commit
  there is nothing left to drop.\<close>

definition Rollback :: "'d world \<Rightarrow> 'd world" where
  "Rollback w = w\<lparr>working := committed w\<rparr>"

text \<open>\<^verbatim>\<open>tx, err := Begin(ctx); if err != nil { return err }; defer Rollback; body\<close>. The body ends
  with its own \<^const>\<open>Commit\<close>.\<close>

definition inTx :: "env \<Rightarrow> ('d, 'a) act \<Rightarrow> ('d, 'a) act" where
  "inTx E body = bindM (Begin E) (\<lambda>_. deferM Rollback body)"

section \<open>Inversion and frames\<close>

lemma Generate_Inr [run_simps]:
  "Generate E w = (Inr i, w') \<longleftrightarrow> i = envID E (idCount w) \<and> w' = w\<lparr>idCount := Suc (idCount w)\<rparr>"
  by (auto simp: Generate_def)

lemma Now_Inr [run_simps]:
  "Now E w = (Inr t, w') \<longleftrightarrow> t = envNow E (nowCount w) \<and> w' = w\<lparr>nowCount := Suc (nowCount w)\<rparr>"
  by (auto simp: Now_def)

lemma txStmt_Inr [run_simps]:
  "txStmt E st w = (Inr x, w') \<longleftrightarrow>
     envFault E (callCount w) = None \<and>
     (\<exists>d. st (working w) = Inr (x, d) \<and> w' = w\<lparr>working := d, callCount := Suc (callCount w)\<rparr>)"
  by (auto simp: txStmt_def dbCall_def Let_def split: option.splits sum.splits)

lemma poolStmt_Inr [run_simps]:
  "poolStmt E st w = (Inr x, w') \<longleftrightarrow>
     envFault E (callCount w) = None \<and>
     (\<exists>d. st (committed w) = Inr (x, d) \<and> w' = w\<lparr>committed := d, callCount := Suc (callCount w)\<rparr>)"
  by (auto simp: poolStmt_def dbCall_def Let_def split: option.splits sum.splits)

lemma Begin_Inr [run_simps]:
  "Begin E w = (Inr x, w') \<longleftrightarrow>
     envFault E (callCount w) = None \<and>
     w' = w\<lparr>working := committed w, callCount := Suc (callCount w)\<rparr>"
  by (auto simp: Begin_def dbCall_def Let_def split: option.splits)

lemma Commit_Inr [run_simps]:
  "Commit E w = (Inr x, w') \<longleftrightarrow>
     envFault E (callCount w) = None \<and>
     w' = w\<lparr>committed := working w, callCount := Suc (callCount w)\<rparr>"
  by (auto simp: Commit_def dbCall_def Let_def split: option.splits)

lemma keeps_Generate [frame_intros]:
  "keeps committed (Generate E)" "keeps working (Generate E)"
  by (simp_all add: keeps_def Generate_def)

lemma keeps_Now [frame_intros]: "keeps committed (Now E)" "keeps working (Now E)"
  by (simp_all add: keeps_def Now_def)

lemma keeps_txStmt [frame_intros]: "keeps committed (txStmt E st)"
  by (auto simp: keeps_def txStmt_def dbCall_def Let_def split: option.splits sum.splits)

lemma keeps_Begin [frame_intros]: "keeps committed (Begin E)"
  by (auto simp: keeps_def Begin_def dbCall_def Let_def split: option.splits)

text \<open>A pool call that fails, or that only reads, leaves the database as it was.\<close>

lemma poolStmt_Inl: "poolStmt E st w = (Inl e, w') \<Longrightarrow> committed w' = committed w"
  by (auto simp: poolStmt_def dbCall_def Let_def split: option.splits sum.splits)

lemma Commit_Inl: "Commit E w = (Inl e, w') \<Longrightarrow> committed w' = committed w"
  by (auto simp: Commit_def dbCall_def Let_def split: option.splits)

section \<open>Transactions are atomic\<close>

text \<open>The shape of every transaction of the program: a prefix that works on the transaction's
  copy only, then the commit, then the result.\<close>

locale transaction =
  fixes E :: env and pre :: "('d, 'a) act" and run :: "('d, 'a) act"
  assumes pre_keeps: "keeps committed pre"
    and run_eq: "run = inTx E (bindM pre (\<lambda>x. bindM (Commit E) (\<lambda>_. returnM x)))"
begin

lemma tx_failed: "run w = (Inl e, w') \<Longrightarrow> committed w' = committed w"
proof -
  assume fail: "run w = (Inl e, w')"
  consider "Begin E w = (Inl e, w')"
    | u w1 w2 where "Begin E w = (Inr u, w1)"
        "bindM pre (\<lambda>x. bindM (Commit E) (\<lambda>_. returnM x)) w1 = (Inl e, w2)" "w' = Rollback w2"
    using fail by (auto simp: run_eq inTx_def bindM_Inl deferM_Inr)
  then show ?thesis
  proof cases
    case 1
    then show ?thesis using keepsD [OF keeps_Begin] by metis
  next
    case 2
    then have c1: "committed w1 = committed w" using keepsD [OF keeps_Begin] by metis
    from 2(2) have "committed w2 = committed w1"
      by (auto simp: bindM_Inl) (metis keepsD [OF pre_keeps] Commit_Inl)+
    then show ?thesis using 2(3) c1 by (simp add: Rollback_def)
  qed
qed

lemma tx_succeeded:
  assumes "run w = (Inr x, w')"
  obtains w1 w2 where "committed w1 = committed w" "working w1 = committed w"
    "callCount w1 = Suc (callCount w)" "idCount w1 = idCount w" "nowCount w1 = nowCount w"
    "pre w1 = (Inr x, w2)" "committed w' = working w2"
proof -
  from assms obtain w2 where
    pre: "pre (w\<lparr>working := committed w, callCount := Suc (callCount w)\<rparr>) = (Inr x, w2)"
    and "committed w' = working w2"
    by (auto simp: run_eq inTx_def run_simps Rollback_def)
  then show thesis by (intro that [OF _ _ _ _ _ pre]) auto
qed

end

end
