(* ===== verification/Repositories.thy ===== *)
theory Repositories
  imports Store
begin

text \<open>
  The repositories (\<^verbatim>\<open>src/internal/adapter/repository/postgres\<close>): one definition per method, a
  statement run inside the caller's transaction or on the pool, with the translation of driver
  errors into domain errors. Rows and domain structs have the same fields, so the row conversions
  are the identity.
\<close>

section \<open>Conversions\<close>

definition toInt32 :: "int \<Rightarrow> int" where
  "toInt32 n = (if n > max_int32 then max_int32 else if n < min_int32 then min_int32 else n)"

text \<open>\<^verbatim>\<open>if errors.Is(err, pgx.ErrNoRows) { return nil, e }\<close>\<close>

definition translateM :: "(err \<Rightarrow> err) \<Rightarrow> ('d, 'a) act \<Rightarrow> ('d, 'a) act" where
  "translateM g m = (\<lambda>w. case m w of (Inl e, w') \<Rightarrow> (Inl (g e), w') | (Inr x, w') \<Rightarrow> (Inr x, w'))"

definition noRowsAs :: "err \<Rightarrow> err \<Rightarrow> err" where
  "noRowsAs e' e = (if errors_Is e NoRows then e' else e)"

section \<open>account_repo.go\<close>

definition accountRepo_Create :: "env \<Rightarrow> 'd::linordered_idom account \<Rightarrow> ('d, unit) act" where
  "accountRepo_Create E a = poolStmt E (sql_CreateAccount a)"

definition accountRepo_CreateTx :: "env \<Rightarrow> 'd::linordered_idom account \<Rightarrow> ('d, unit) act" where
  "accountRepo_CreateTx E a = txStmt E (sql_CreateAccount a)"

definition accountRepo_GetByID :: "env \<Rightarrow> string \<Rightarrow> ('d, 'd account) act" where
  "accountRepo_GetByID E i =
     translateM (noRowsAs ErrAccountNotFound) (poolStmt E (sql_GetAccountByID i))"

definition accountRepo_GetByIDForUpdate :: "env \<Rightarrow> string \<Rightarrow> ('d, 'd account) act" where
  "accountRepo_GetByIDForUpdate E i =
     translateM (noRowsAs ErrAccountNotFound) (txStmt E (sql_GetAccountByIDForUpdate i))"

definition accountRepo_GetByIDsForUpdate :: "env \<Rightarrow> string list \<Rightarrow> ('d, 'd account list) act" where
  "accountRepo_GetByIDsForUpdate E ids = txStmt E (sql_GetAccountsByIDsForUpdate ids)"

definition accountRepo_UpdateBalance ::
  "env \<Rightarrow> string \<Rightarrow> 'd::linordered_idom \<Rightarrow> int \<Rightarrow> ('d, unit) act" where
  "accountRepo_UpdateBalance E i b t = txStmt E (sql_UpdateAccountBalance i b t)"

definition accountRepo_UpdateEncumberedBalance ::
  "env \<Rightarrow> string \<Rightarrow> 'd::linordered_idom \<Rightarrow> int \<Rightarrow> ('d, unit) act" where
  "accountRepo_UpdateEncumberedBalance E i n t = txStmt E (sql_UpdateAccountEncumbered i n t)"

definition accountRepo_UpdateBalanceAndEncumbered ::
  "env \<Rightarrow> string \<Rightarrow> 'd::linordered_idom \<Rightarrow> 'd \<Rightarrow> int \<Rightarrow> ('d, unit) act" where
  "accountRepo_UpdateBalanceAndEncumbered E i b n t =
     txStmt E (sql_UpdateAccountBalanceAndEncumbered i b n t)"

definition accountRepo_List :: "env \<Rightarrow> int \<Rightarrow> int \<Rightarrow> ('d, 'd account list) act" where
  "accountRepo_List E lim off = poolStmt E (sql_ListAccounts (toInt32 lim) (toInt32 off))"

section \<open>transfer_repo.go\<close>

definition alreadyReversed :: "err \<Rightarrow> err" where
  "alreadyReversed e =
     (if e = PgErr ''23505'' ''idx_transfers_reversed_transfer_id''
      then ErrTransferAlreadyReversed else e)"

definition transferRepo_Create :: "env \<Rightarrow> 'd::linordered_idom transfer \<Rightarrow> ('d, unit) act" where
  "transferRepo_Create E t = translateM alreadyReversed (txStmt E (sql_CreateTransfer t))"

definition transferRepo_GetByID :: "env \<Rightarrow> string \<Rightarrow> ('d, 'd transfer) act" where
  "transferRepo_GetByID E i =
     translateM (noRowsAs ErrTransferNotFound) (poolStmt E (sql_GetTransferByID i))"

definition transferRepo_ListByAccount ::
  "env \<Rightarrow> string \<Rightarrow> int \<Rightarrow> int \<Rightarrow> ('d, 'd transfer list) act" where
  "transferRepo_ListByAccount E acc lim off =
     poolStmt E (sql_ListTransfersByAccount acc (toInt32 lim) (toInt32 off))"

definition transferRepo_ListByAccountCursor ::
  "env \<Rightarrow> string \<Rightarrow> string \<Rightarrow> int \<Rightarrow> ('d, 'd transfer list) act" where
  "transferRepo_ListByAccountCursor E acc cursor lim =
     poolStmt E (sql_ListTransfersByAccountCursor acc cursor (toInt32 lim))"

section \<open>entry_repo.go\<close>

definition entryRepo_Create :: "env \<Rightarrow> 'd entry \<Rightarrow> ('d, unit) act" where
  "entryRepo_Create E e = txStmt E (sql_CreateEntry e)"

definition entryRepo_GetByTransfer :: "env \<Rightarrow> string \<Rightarrow> ('d, 'd entry list) act" where
  "entryRepo_GetByTransfer E tr = poolStmt E (sql_GetEntriesByTransfer tr)"

definition entryRepo_GetByAccount :: "env \<Rightarrow> string \<Rightarrow> int \<Rightarrow> int \<Rightarrow> ('d, 'd entry list) act" where
  "entryRepo_GetByAccount E acc lim off =
     poolStmt E (sql_GetEntriesByAccount acc (toInt32 lim) (toInt32 off))"

definition entryRepo_SumAmountsByAccount :: "env \<Rightarrow> string \<Rightarrow> ('d::linordered_idom, 'd) act" where
  "entryRepo_SumAmountsByAccount E acc = poolStmt E (sql_SumEntryAmountsByAccount acc)"

definition entryRepo_GetAllByAccountOrdered :: "env \<Rightarrow> string \<Rightarrow> ('d, 'd entry list) act" where
  "entryRepo_GetAllByAccountOrdered E acc = poolStmt E (sql_GetEntriesByAccountOrdered acc)"

definition entryRepo_GetBalanceAtTime ::
  "env \<Rightarrow> string \<Rightarrow> int \<Rightarrow> ('d::linordered_idom, 'd) act" where
  "entryRepo_GetBalanceAtTime E acc at = poolStmt E (sql_GetAccountBalanceAtTime acc at)"

section \<open>hold_repo.go\<close>

definition holdRepo_Create :: "env \<Rightarrow> 'd::linordered_idom hold \<Rightarrow> ('d, unit) act" where
  "holdRepo_Create E h = txStmt E (sql_CreateHold h)"

definition holdRepo_GetByID :: "env \<Rightarrow> string \<Rightarrow> ('d, 'd hold) act" where
  "holdRepo_GetByID E i = translateM (noRowsAs ErrHoldNotFound) (poolStmt E (sql_GetHoldByID i))"

definition holdRepo_GetByIDForUpdate :: "env \<Rightarrow> string \<Rightarrow> ('d, 'd hold) act" where
  "holdRepo_GetByIDForUpdate E i =
     translateM (noRowsAs ErrHoldNotFound) (txStmt E (sql_GetHoldByIDForUpdate i))"

definition holdRepo_UpdateStatus :: "env \<Rightarrow> string \<Rightarrow> hold_status \<Rightarrow> int \<Rightarrow> ('d, unit) act" where
  "holdRepo_UpdateStatus E i st t = txStmt E (sql_UpdateHoldStatus i st t)"

definition holdRepo_ListByAccount :: "env \<Rightarrow> string \<Rightarrow> int \<Rightarrow> int \<Rightarrow> ('d, 'd hold list) act" where
  "holdRepo_ListByAccount E acc lim off =
     poolStmt E (sql_ListHoldsByAccount acc (toInt32 lim) (toInt32 off))"

section \<open>ledger_repo.go\<close>

definition ledgerRepo_CheckConsistency :: "env \<Rightarrow> ('d::linordered_idom, 'd \<times> 'd) act" where
  "ledgerRepo_CheckConsistency E = poolStmt E sql_CheckLedgerConsistency"

definition ledgerRepo_CheckConsistencyByCurrency ::
  "env \<Rightarrow> ('d::linordered_idom, (string \<times> 'd \<times> 'd) list) act" where
  "ledgerRepo_CheckConsistencyByCurrency E = poolStmt E sql_CheckLedgerConsistencyByCurrency"

section \<open>outbox_repo.go\<close>

definition outboxRepo_Create :: "env \<Rightarrow> 'd outbox_event \<Rightarrow> ('d, 'd outbox_event) act" where
  "outboxRepo_Create E e =
     (let v = (if obEventVersion e = 0 then 1 else obEventVersion e)
      in bindM (txStmt E (sql_CreateOutboxEvent (e\<lparr>obEventVersion := v\<rparr>)))
           (\<lambda>row. returnM (e\<lparr>obEventVersion := obEventVersion row, obSequence := obSequence row\<rparr>)))"

definition outboxRepo_GetUnpublished :: "env \<Rightarrow> int \<Rightarrow> ('d, 'd outbox_event list) act" where
  "outboxRepo_GetUnpublished E lim = poolStmt E (sql_GetUnpublishedEvents (toInt32 lim))"

definition outboxRepo_MarkPublished :: "env \<Rightarrow> string \<Rightarrow> int \<Rightarrow> ('d, unit) act" where
  "outboxRepo_MarkPublished E i t = poolStmt E (sql_MarkEventPublished i t)"

definition outboxRepo_GetByAggregate ::
  "env \<Rightarrow> aggregate_type \<Rightarrow> string \<Rightarrow> int \<Rightarrow> int \<Rightarrow> ('d, 'd outbox_event list) act" where
  "outboxRepo_GetByAggregate E ty i lim off =
     poolStmt E (sql_GetEventsByAggregate ty i (toInt32 lim) (toInt32 off))"

definition outboxRepo_DeletePublished :: "env \<Rightarrow> int \<Rightarrow> ('d, unit) act" where
  "outboxRepo_DeletePublished E cutoff = poolStmt E (sql_DeletePublishedEvents cutoff)"

definition outboxRepo_RecordFailure :: "env \<Rightarrow> string \<Rightarrow> err \<Rightarrow> ('d, int) act" where
  "outboxRepo_RecordFailure E i e = poolStmt E (sql_RecordOutboxFailure i e)"

definition outboxRepo_MarkDeadLettered :: "env \<Rightarrow> string \<Rightarrow> int \<Rightarrow> ('d, unit) act" where
  "outboxRepo_MarkDeadLettered E i t = poolStmt E (sql_MarkOutboxDeadLettered i t)"

definition outboxRepo_GetDeadLettered :: "env \<Rightarrow> int \<Rightarrow> int \<Rightarrow> ('d, 'd outbox_event list) act" where
  "outboxRepo_GetDeadLettered E lim off =
     poolStmt E (sql_GetDeadLetteredEvents (toInt32 lim) (toInt32 off))"

section \<open>audit_repo.go\<close>

definition auditRepo_Create :: "env \<Rightarrow> 'd audit_log \<Rightarrow> ('d, unit) act" where
  "auditRepo_Create E l = poolStmt E (sql_CreateAuditLog (envHasher E) l)"

definition auditRepo_CreateTx :: "env \<Rightarrow> 'd audit_log \<Rightarrow> ('d, unit) act" where
  "auditRepo_CreateTx E l = txStmt E (sql_CreateAuditLog (envHasher E) l)"

text \<open>The filter query \<^verbatim>\<open>List\<close> builds: a clause per field that is set, newest first, at most 100
  rows when no positive limit is given, and an offset only when it is positive.\<close>

definition matches_filter :: "audit_filter \<Rightarrow> 'd audit_log \<Rightarrow> bool" where
  "matches_filter f l \<longleftrightarrow>
     (fiUserID f \<noteq> [] \<longrightarrow> auUserID l = fiUserID f) \<and>
     (fiAction f \<noteq> [] \<longrightarrow> actionText (auAction l) = fiAction f) \<and>
     (fiResourceType f \<noteq> [] \<longrightarrow> auResourceType l = fiResourceType f) \<and>
     (fiResourceID f \<noteq> [] \<longrightarrow> auResourceID l = fiResourceID f) \<and>
     (case fiStartDate f of None \<Rightarrow> True | Some t \<Rightarrow> auCreatedAt l \<ge> t) \<and>
     (case fiEndDate f of None \<Rightarrow> True | Some t \<Rightarrow> auCreatedAt l \<le> t)"

definition auditRepo_List :: "env \<Rightarrow> audit_filter \<Rightarrow> ('d, 'd audit_log list) act" where
  "auditRepo_List E f = poolStmt E (\<lambda>d.
     rows (pg_limit (if fiLimit f > 0 then fiLimit f else 100)
                    (if fiOffset f > 0 then fiOffset f else 0)
       (sort_key (\<lambda>l. - auCreatedAt l) (filter (matches_filter f) (auditT d)))) d)"

definition auditRepo_GetByResourceID :: "env \<Rightarrow> string \<Rightarrow> string \<Rightarrow> ('d, 'd audit_log list) act" where
  "auditRepo_GetByResourceID E ty i = poolStmt E (sql_GetAuditLogsByResource ty i)"

text \<open>The query the repository builds is, for a user alone, the prepared one that nothing calls.\<close>

lemma audit_listing_prepared:
  assumes "0 < lim" and "0 \<le> off" and "user \<noteq> []"
  shows "auditRepo_List E \<lparr>fiUserID = user, fiAction = [], fiResourceType = [], fiResourceID = [],
      fiStartDate = None, fiEndDate = None, fiLimit = lim, fiOffset = off\<rparr> =
    poolStmt E (sql_GetAuditLogsByUser user lim off)"
  using assms by (simp add: auditRepo_List_def matches_filter_def [abs_def] sql_GetAuditLogsByUser_def [abs_def])

section \<open>Inversion and frames\<close>

lemma translateM_Inr [run_simps]: "translateM g m w = (Inr x, w') \<longleftrightarrow> m w = (Inr x, w')"
  by (auto simp: translateM_def split: prod.splits sum.splits)

lemma translateM_Inl: "translateM g m w = (Inl e, w') \<longleftrightarrow> (\<exists>e'. m w = (Inl e', w') \<and> e = g e')"
  by (auto simp: translateM_def split: prod.splits sum.splits)

lemma keeps_translate [frame_intros]: "keeps p m \<Longrightarrow> keeps p (translateM g m)"
  by (auto simp: keeps_def translateM_def split: prod.splits sum.splits) (metis snd_conv)+

lemmas account_tx_defs =
  accountRepo_CreateTx_def accountRepo_GetByIDForUpdate_def accountRepo_GetByIDsForUpdate_def
  accountRepo_UpdateBalance_def accountRepo_UpdateEncumberedBalance_def
  accountRepo_UpdateBalanceAndEncumbered_def

lemmas tx_repo_defs =
  account_tx_defs transferRepo_Create_def entryRepo_Create_def holdRepo_Create_def
  holdRepo_GetByIDForUpdate_def holdRepo_UpdateStatus_def outboxRepo_Create_def
  auditRepo_CreateTx_def

lemma keeps_tx_repos [frame_intros]:
  "keeps committed (accountRepo_CreateTx E a)"
  "keeps committed (accountRepo_GetByIDForUpdate E i)"
  "keeps committed (accountRepo_GetByIDsForUpdate E ids)"
  "keeps committed (accountRepo_UpdateBalance E i b t)"
  "keeps committed (accountRepo_UpdateEncumberedBalance E i n t)"
  "keeps committed (accountRepo_UpdateBalanceAndEncumbered E i b n t)"
  "keeps committed (transferRepo_Create E tr)"
  "keeps committed (entryRepo_Create E en)"
  "keeps committed (holdRepo_Create E h)"
  "keeps committed (holdRepo_GetByIDForUpdate E i)"
  "keeps committed (holdRepo_UpdateStatus E i st t)"
  "keeps committed (outboxRepo_Create E ev)"
  "keeps committed (auditRepo_CreateTx E l)"
  unfolding tx_repo_defs Let_def by (intro frame_intros)+

text \<open>The tables that hold money, and the users: what every failure must leave alone.\<close>

definition same_ledger :: "'d db \<Rightarrow> 'd db \<Rightarrow> bool" where
  "same_ledger d d' \<longleftrightarrow>
     accountsT d' = accountsT d \<and> transfersT d' = transfersT d \<and> entriesT d' = entriesT d \<and>
     holdsT d' = holdsT d \<and> outboxT d' = outboxT d \<and> usersT d' = usersT d"

lemma same_ledger_refl [simp]: "same_ledger d d"
  by (simp add: same_ledger_def)

lemma same_ledger_trans: "same_ledger a b \<Longrightarrow> same_ledger b c \<Longrightarrow> same_ledger a c"
  by (simp add: same_ledger_def)

lemma same_ledger_audit: "sql_CreateAuditLog H l d = Inr (u, d') \<Longrightarrow> same_ledger d d'"
  by (auto simp: same_ledger_def dest: audit_insert_frame)

lemma auditRepo_Create_ledger:
  "auditRepo_Create E l w = (r, w') \<Longrightarrow> same_ledger (committed w) (committed w')"
  by (cases r) (auto simp: auditRepo_Create_def poolStmt_Inr dest: poolStmt_Inl same_ledger_audit)

lemma auditRepo_Create_ok:
  "auditRepo_Create E l w = (r, w') \<Longrightarrow> audit_ok (envHasher E) (committed w) \<Longrightarrow>
   audit_ok (envHasher E) (committed w')"
  by (cases r) (auto simp: auditRepo_Create_def poolStmt_Inr dest: poolStmt_Inl audit_ok_insert)

end
