(* ===== verification/Retrier.thy ===== *)
theory Retrier
  imports Repositories
begin

text \<open>
  Retrying a transaction: \<^verbatim>\<open>noopRetrier\<close> of \<^verbatim>\<open>transfer_usecase.go\<close> and the \<^verbatim>\<open>Retrier\<close> of
  \<^verbatim>\<open>retrier.go\<close>, behind the interface \<^verbatim>\<open>usecase.Retrier\<close>. The locale \<^theory_text>\<open>retrier\<close> is that
  interface; both implementations are interpretations of it.

  The backoff library is third-party: what it does between two attempts (wait and go on, stop
  because the elapsed time ran out, stop because the context is done) is the parameter \<open>W\<close>,
  one answer per retry. Its documented behaviour is used: a permanent error ends the loop with
  the wrapped error, a stop returns the last error, a finished context returns the context's.
\<close>

datatype wait = TryAgain | StopElapsed | CtxDone err

definition pgErrDeadlock :: string where "pgErrDeadlock = ''40P01''"
definition pgErrSerializationFailure :: string where "pgErrSerializationFailure = ''40001''"

text \<open>\<^verbatim>\<open>errors.As(err, &pgErr)\<close> looks through wrapping.\<close>

fun isRetryableError :: "err \<Rightarrow> bool" where
  "isRetryableError (PgErr c n) = (c = pgErrDeadlock \<or> c = pgErrSerializationFailure)"
| "isRetryableError (Wrapf e s) = isRetryableError e"
| "isRetryableError (Prefixf s e) = isRetryableError e"
| "isRetryableError e = False"

definition maxRetries :: nat where "maxRetries = 3"

text \<open>The loop, with the \<^verbatim>\<open>retryCount\<close> the closure counts in.\<close>

function retry_from :: "nat \<Rightarrow> (nat \<Rightarrow> wait) \<Rightarrow> nat \<Rightarrow> ('d, 'a) act \<Rightarrow> ('d, 'a) act" where
  "retry_from mx W retryCount operation w =
     (case operation w of
        (Inr x, w') \<Rightarrow> (Inr x, w')
      | (Inl e, w') \<Rightarrow>
          if \<not> isRetryableError e then (Inl e, w')
          else if Suc retryCount > mx then (Inl e, w')
          else case W (Suc retryCount) of
            TryAgain \<Rightarrow> retry_from mx W (Suc retryCount) operation w'
          | StopElapsed \<Rightarrow> (Inl e, w')
          | CtxDone e' \<Rightarrow> (Inl e', w'))"
  by pat_completeness auto
termination by (relation "measure (\<lambda>(mx, W, k, operation, w). Suc mx - k)") auto

declare retry_from.simps [simp del]

datatype retrier_impl = NoopRetrier | PgRetrier "nat \<Rightarrow> wait"

fun Retry :: "retrier_impl \<Rightarrow> ('d, 'a) act \<Rightarrow> ('d, 'a) act" where
  "Retry NoopRetrier operation = operation"
| "Retry (PgRetrier W) operation = retry_from maxRetries W 0 operation"

section \<open>The interface\<close>

text \<open>\<open>failed_runs operation w v\<close>: \<open>v\<close> is reached from \<open>w\<close> by attempts that failed.\<close>

inductive failed_runs :: "('d, 'a) act \<Rightarrow> 'd world \<Rightarrow> 'd world \<Rightarrow> bool" for operation where
  failed_refl: "failed_runs operation w w"
| failed_step: "operation w = (Inl e, w') \<Longrightarrow> failed_runs operation w' v \<Longrightarrow> failed_runs operation w v"

text \<open>What a use case may assume of any retrier: what it returns is what the last attempt did, and
  every attempt before it failed.\<close>

locale retrier =
  fixes retry :: "('d, 'a) act \<Rightarrow> ('d, 'a) act"
  assumes retry_succeeded:
      "retry operation w = (Inr x, w') \<Longrightarrow> \<exists>v. failed_runs operation w v \<and> operation v = (Inr x, w')"
    and retry_failed: "retry operation w = (Inl e, w') \<Longrightarrow> \<exists>v e'. failed_runs operation w v \<and> operation v = (Inl e', w')"
begin

lemma failed_runs_observe:
  assumes "failed_runs operation w v"
    and "\<And>w e w'. operation w = (Inl e, w') \<Longrightarrow> p w' = p w"
  shows "p v = p w"
  using assms by (induction rule: failed_runs.induct) auto

text \<open>An operation that leaves \<open>p\<close> alone when it fails is retried without leaving traces in \<open>p\<close>.\<close>

lemma retry_atomic_failed:
  assumes "\<And>w e w'. operation w = (Inl e, w') \<Longrightarrow> p w' = p w"
    and "retry operation w = (Inl e, w')"
  shows "p w' = p w"
proof -
  obtain v e' where v: "failed_runs operation w v" and last: "operation v = (Inl e', w')"
    using retry_failed [OF assms(2)] by blast
  have "p v = p w" by (rule failed_runs_observe [OF v]) (rule assms(1))
  then show ?thesis using assms(1) [OF last] by simp
qed

lemma retry_atomic_succeeded:
  assumes "\<And>w e w'. operation w = (Inl e, w') \<Longrightarrow> p w' = p w"
    and "retry operation w = (Inr x, w')"
  obtains v where "p v = p w" "operation v = (Inr x, w')"
proof -
  obtain v where v: "failed_runs operation w v" and last: "operation v = (Inr x, w')"
    using retry_succeeded [OF assms(2)] by blast
  have "p v = p w" by (rule failed_runs_observe [OF v]) (rule assms(1))
  then show thesis using last by (rule that)
qed

end

lemma retry_from_succeeded:
  "retry_from mx W k operation w = (Inr x, w') \<Longrightarrow>
     \<exists>v. failed_runs operation w v \<and> operation v = (Inr x, w')"
proof (induction mx W k operation w rule: retry_from.induct)
  case (1 mx W k operation w)
  obtain r w1 where run: "operation w = (r, w1)" by (cases "operation w")
  show ?case
  proof (cases r)
    case (Inr y)
    then show ?thesis using 1(2) run by (auto simp: retry_from.simps [of mx W k] intro: failed_refl)
  next
    case (Inl e)
    then have again: "retry_from mx W (Suc k) operation w1 = (Inr x, w')"
      and cond: "isRetryableError e" "\<not> Suc k > mx" "W (Suc k) = TryAgain"
      using 1(2) run by (auto simp: retry_from.simps [of mx W k] split: if_splits wait.splits)
    then show ?thesis using 1(1) run Inl by (metis failed_step)
  qed
qed

lemma retry_from_failed:
  "retry_from mx W k operation w = (Inl e, w') \<Longrightarrow>
     \<exists>v e'. failed_runs operation w v \<and> operation v = (Inl e', w')"
proof (induction mx W k operation w rule: retry_from.induct)
  case (1 mx W k operation w)
  obtain r w1 where run: "operation w = (r, w1)" by (cases "operation w")
  show ?case
  proof (cases "\<exists>e1. r = Inl e1 \<and> isRetryableError e1 \<and> \<not> Suc k > mx \<and> W (Suc k) = TryAgain")
    case True
    then obtain e1 where r: "r = Inl e1" and c: "isRetryableError e1" "\<not> Suc k > mx" "W (Suc k) = TryAgain"
      by blast
    then have "retry_from mx W (Suc k) operation w1 = (Inl e, w')"
      using 1(2) run by (simp add: retry_from.simps [of mx W k])
    then show ?thesis using 1(1) run r c by (metis failed_step)
  next
    case False
    then obtain e1 where "operation w = (Inl e1, w')"
      using 1(2) run
      by (auto simp: retry_from.simps [of mx W k] split: if_splits wait.splits sum.splits)
    then show ?thesis using failed_refl by metis
  qed
qed

interpretation noop: retrier "Retry NoopRetrier"
  by unfold_locales (auto intro: failed_refl)

interpretation pg: retrier "Retry (PgRetrier W)" for W
  by unfold_locales (simp add: retry_from_succeeded, simp only: Retry.simps, erule retry_from_failed)

text \<open>Hence any retrier a use case can be given.\<close>

interpretation any_retrier: retrier "Retry R" for R
  by (cases R) (auto intro: noop.retrier_axioms pg.retrier_axioms)

section \<open>How often an operation runs\<close>

text \<open>The number of attempts is the number of failed runs and the last one.\<close>

fun attempts :: "nat \<Rightarrow> ('d, 'a) act \<Rightarrow> 'd world \<Rightarrow> 'd world list" where
  "attempts 0 operation w = []"
| "attempts (Suc n) operation w = w # (case operation w of
      (Inl e, w') \<Rightarrow> if isRetryableError e then attempts n operation w' else []
    | (Inr x, w') \<Rightarrow> [])"

lemma attempts_length: "length (attempts n operation w) \<le> n"
  by (induction n arbitrary: w) (auto split: prod.splits sum.splits)

lemma attempts_nonempty: "0 < n \<Longrightarrow> attempts n operation w \<noteq> []"
  by (cases n) auto

text \<open>When no wait is cut short, the loop returns what the last of at most \<open>mx + 1\<close> attempts does.\<close>

lemma retry_from_attempts:
  assumes "\<And>k. W k = TryAgain" and "k \<le> mx"
  shows "retry_from mx W k operation w = operation (last (attempts (Suc (mx - k)) operation w))"
  using assms
proof (induction mx W k operation w rule: retry_from.induct)
  case (1 mx W k operation w)
  obtain r w1 where run: "operation w = (r, w1)" by (cases "operation w")
  show ?case
  proof (cases "\<exists>e. r = Inl e \<and> isRetryableError e \<and> k < mx")
    case True
    then obtain e where e: "r = Inl e" "isRetryableError e" "k < mx" by blast
    have "retry_from mx W k operation w = retry_from mx W (Suc k) operation w1"
      using e run 1(2) [of "Suc k"] by (simp add: retry_from.simps [of mx W k])
    also have "\<dots> = operation (last (attempts (Suc (mx - Suc k)) operation w1))"
      by (rule 1(1)) (use e run 1(2) in auto)
    also have "Suc (mx - Suc k) = mx - k" using e by simp
    also have "last (attempts (mx - k) operation w1) = last (attempts (Suc (mx - k)) operation w)"
      using e run attempts_nonempty [of "mx - k" operation w1] by simp
    finally show ?thesis .
  next
    case False
    then have "retry_from mx W k operation w = (r, w1)"
      using run 1(3) by (cases r) (auto simp: retry_from.simps [of mx W k] not_less)
    moreover have "last (attempts (Suc (mx - k)) operation w) = w"
      using False run 1(3) by (cases r) auto
    ultimately show ?thesis using run by simp
  qed
qed

end
