(* ===== verification/TransferUC.thy ===== *)
theory TransferUC
  imports Validation Retrier
begin

text \<open>
  The transfer use case (\<^verbatim>\<open>src/internal/usecase/transfer_usecase.go\<close>, with \<^verbatim>\<open>audit.go\<close>): batches
  of transfers in one transaction, reversals and listings. The Go code keeps the locked accounts
  in a map of pointers that every transfer of the batch updates; here the map is passed along.
  Metrics are left out.
\<close>

section \<open>Audit rows\<close>

definition auditActor :: "context_values \<Rightarrow> string \<times> string \<times> string \<times> string" where
  "auditActor ctx =
     (let userID = (case UserFromContext ctx of Some u \<Rightarrow> usID u | None \<Rightarrow> ''system'')
      in case RequestMetaFromContext ctx of
           Some m \<Rightarrow> (userID, rmRequestID m, rmIPAddress m, rmUserAgent m)
         | None \<Rightarrow> (userID, '''', '''', ''''))"

text \<open>The \<^verbatim>\<open>domain.AuditLog\<close> literal of the use cases; the hash columns belong to the trigger.\<close>

definition auditLog ::
  "context_values \<Rightarrow> string \<Rightarrow> audit_action \<Rightarrow> string \<Rightarrow> string \<Rightarrow> 'd audit_state \<Rightarrow> 'd audit_state \<Rightarrow>
   audit_status \<Rightarrow> err option \<Rightarrow> int \<Rightarrow> 'd audit_log" where
  "auditLog ctx i action resource_type resource_id state_before state_after status failure t =
     (case auditActor ctx of (userID, requestID, ipAddress, userAgent) \<Rightarrow>
        \<lparr>auID = i, auUserID = userID, auAction = action, auResourceType = resource_type,
         auResourceID = resource_id, auIPAddress = ipAddress, auUserAgent = userAgent,
         auRequestID = requestID, auBefore = state_before, auAfter = state_after, auStatus = status,
         auError = failure, auCreatedAt = t, auPrevHash = '''', auHash = '''', auChainSeq = 0\<rparr>)"

section \<open>Inputs\<close>

record 'd CreateTransferInput =
  ciEventAt :: "int option"
  ciMetadata :: metadata
  ciFrom :: string
  ciTo :: string
  ciAmount :: 'd
  ciReversed :: "string option"

record 'd CreateBatchTransferInput =
  cbEventAt :: "int option"
  cbMetadata :: metadata
  cbTransfers :: "'d CreateTransferInput list"

section \<open>Accounts of a batch\<close>

text \<open>The loop of \<^verbatim>\<open>collectUniqueAccountIDs\<close>: the identifiers seen so far and collected.\<close>

definition add_unseen :: "string \<Rightarrow> string list \<Rightarrow> string list" where
  "add_unseen i ids = (if i \<in> set ids then ids else ids @ [i])"

definition collectUniqueAccountIDs :: "'d CreateTransferInput list \<Rightarrow> string list" where
  "collectUniqueAccountIDs transfers =
     fold (\<lambda>t ids. add_unseen (ciTo t) (add_unseen (ciFrom t) ids)) transfers []"

type_synonym 'd account_map = "string \<Rightarrow> 'd account option"

definition buildAccountMap :: "'d account list \<Rightarrow> 'd account_map" where
  "buildAccountMap accounts = fold (\<lambda>a m. m(accID a \<mapsto> a)) accounts Map.empty"

section \<open>One transfer\<close>

text \<open>An entry, as both \<^verbatim>\<open>processTransfer\<close> and \<^verbatim>\<open>CaptureHold\<close> build it.\<close>

definition newEntry :: "string \<Rightarrow> 'd account \<Rightarrow> string \<Rightarrow> 'd \<Rightarrow> 'd \<Rightarrow> int \<Rightarrow> 'd entry" where
  "newEntry i a transfer_id amount newBalance now =
     \<lparr>enID = i, enAccount = accID a, enTransfer = transfer_id, enAmount = amount,
      enPrevious = accBalance a, enCurrent = newBalance,
      enVersion = wrap64 (accVersion a + 1), enCreatedAt = now\<rparr>"

text \<open>\<^verbatim>\<open>account.Balance = b; account.Version++\<close> on the pointer in the map.\<close>

definition touch :: "'d account \<Rightarrow> 'd \<Rightarrow> 'd account" where
  "touch a b = a\<lparr>accBalance := b, accVersion := wrap64 (accVersion a + 1)\<rparr>"

definition newEvent ::
  "string \<Rightarrow> string \<Rightarrow> aggregate_type \<Rightarrow> event_type \<Rightarrow> (string \<times> 'd jval) list \<Rightarrow> int \<Rightarrow> 'd outbox_event" where
  "newEvent i aggregate ty ety payload now =
     \<lparr>obID = i, obAggregateID = aggregate, obAggregateType = ty, obEventType = ety,
      obPayload = payload, obCreatedAt = now, obPublishedAt = None, obPublished = False,
      obEventVersion = 1, obSequence = 0, obAttempts = 0, obLastError = None,
      obDeadLetteredAt = None\<rparr>"

definition transferEvent :: "string \<Rightarrow> 'd transfer \<Rightarrow> int \<Rightarrow> 'd outbox_event" where
  "transferEvent i t now =
     (case trReversed t of
        Some original \<Rightarrow>
          newEvent i (trID t) AggregateTypeTransfer EventTypeTransferReversed
            [(''reversal_transfer_id'', JText (trID t)), (''original_transfer_id'', JText original),
             (''amount'', JDecimal (trAmount t)), (''event_at'', JTime (trEventAt t))] now
      | None \<Rightarrow>
          newEvent i (trID t) AggregateTypeTransfer EventTypeTransferCreated
            [(''transfer_id'', JText (trID t)), (''from_account_id'', JText (trFrom t)),
             (''to_account_id'', JText (trTo t)), (''amount'', JDecimal (trAmount t)),
             (''event_at'', JTime (trEventAt t))] now)"

text \<open>The guards of \<^verbatim>\<open>processTransfer\<close> on the two accounts, in the code's order.\<close>

definition checkAccounts :: "'d::linordered_idom account \<Rightarrow> 'd account \<Rightarrow> 'd \<Rightarrow> err option" where
  "checkAccounts fromAccount toAccount amount =
     (if accCurrency fromAccount \<noteq> accCurrency toAccount then Some ErrCurrencyMismatch
      else case ValidateDebit fromAccount amount of
        Some e \<Rightarrow> Some e
      | None \<Rightarrow> ValidateCredit toAccount amount)"

text \<open>Everything after the guards: the transfer, an entry and a balance update per account, the
  event. The second account is read from the map after the first one was updated.\<close>

definition postTransfer ::
  "env \<Rightarrow> 'd::linordered_idom account_map \<Rightarrow> 'd account \<Rightarrow> 'd account \<Rightarrow> 'd CreateTransferInput \<Rightarrow>
   int \<Rightarrow> int \<Rightarrow> metadata \<Rightarrow> ('d, 'd transfer \<times> 'd account_map) act" where
  "postTransfer E m fromAccount toAccount input now eventAt metadata =
     bindM (Generate E) (\<lambda>tid.
     let transfer = \<lparr>trID = tid, trFrom = ciFrom input, trTo = ciTo input, trAmount = ciAmount input,
           trCreatedAt = now, trEventAt = eventAt, trMetadata = metadata, trReversed = ciReversed input\<rparr> in
     bindM (checkM (Transfer_Validate transfer)) (\<lambda>_.
     bindM (transferRepo_Create E transfer) (\<lambda>_.
     let fromNewBalance = ApplyDebit fromAccount (ciAmount input) in
     bindM (Generate E) (\<lambda>fid.
     bindM (entryRepo_Create E (newEntry fid fromAccount tid (- ciAmount input) fromNewBalance now)) (\<lambda>_.
     bindM (accountRepo_UpdateBalance E (accID fromAccount) fromNewBalance now) (\<lambda>_.
     let m = m(ciFrom input \<mapsto> touch fromAccount fromNewBalance);
         toAccount = (if ciTo input = ciFrom input then touch fromAccount fromNewBalance else toAccount);
         toNewBalance = ApplyCredit toAccount (ciAmount input) in
     bindM (Generate E) (\<lambda>cid.
     bindM (entryRepo_Create E (newEntry cid toAccount tid (ciAmount input) toNewBalance now)) (\<lambda>_.
     bindM (accountRepo_UpdateBalance E (accID toAccount) toNewBalance now) (\<lambda>_.
     let m = m(ciTo input \<mapsto> touch toAccount toNewBalance) in
     bindM (Generate E) (\<lambda>oid.
     bindM (outboxRepo_Create E (transferEvent oid transfer now)) (\<lambda>_.
     returnM (transfer, m))))))))))))"

definition processTransfer ::
  "env \<Rightarrow> 'd::linordered_idom account_map \<Rightarrow> 'd CreateTransferInput \<Rightarrow> int \<Rightarrow> int \<Rightarrow> metadata \<Rightarrow>
   ('d, 'd transfer \<times> 'd account_map) act" where
  "processTransfer E m input now eventAt metadata =
     (case (m (ciFrom input), m (ciTo input)) of
        (Some fromAccount, Some toAccount) \<Rightarrow>
          bindM (checkM (checkAccounts fromAccount toAccount (ciAmount input))) (\<lambda>_.
          postTransfer E m fromAccount toAccount input now eventAt metadata)
      | _ \<Rightarrow> raiseM ErrAccountNotFound)"

section \<open>The transaction\<close>

text \<open>The loop over the batch; a transfer's own metadata wins over the batch's.\<close>

fun processAll ::
  "env \<Rightarrow> 'd::linordered_idom account_map \<Rightarrow> 'd CreateTransferInput list \<Rightarrow> int \<Rightarrow> int \<Rightarrow> metadata \<Rightarrow>
   ('d, ('d transfer \<times> string) list) act" where
  "processAll E m [] now eventAt batchMetadata = returnM []"
| "processAll E m (ti # tis) now eventAt batchMetadata =
     bindM (processTransfer E m ti now eventAt
              (if ciMetadata ti \<noteq> None then ciMetadata ti else batchMetadata)) (\<lambda>(transfer, m').
     let currency = (case m' (ciFrom ti) of Some a \<Rightarrow> accCurrency a | None \<Rightarrow> '''') in
     bindM (processAll E m' tis now eventAt batchMetadata) (\<lambda>rest.
     returnM ((transfer, currency) # rest)))"

definition transferAction :: "string option \<Rightarrow> audit_action" where
  "transferAction reversed =
     (if reversed \<noteq> None then AuditActionTransferReverse else AuditActionTransferCreate)"

definition auditTransfer :: "env \<Rightarrow> context_values \<Rightarrow> 'd transfer \<Rightarrow> ('d, unit) act" where
  "auditTransfer E ctx t =
     bindM (Generate E) (\<lambda>i.
     bindM (Now E) (\<lambda>at.
     auditRepo_CreateTx E
       (auditLog ctx i (transferAction (trReversed t)) ''transfer'' (trID t) NoState (StTransfer t)
          AuditStatusSuccess None at)))"

definition lockAccounts :: "env \<Rightarrow> string list \<Rightarrow> ('d, 'd account_map) act" where
  "lockAccounts E accountIDs =
     bindM (accountRepo_GetByIDsForUpdate E accountIDs) (\<lambda>accounts.
     bindM (checkM (if length accounts \<noteq> length accountIDs then Some ErrAccountNotFound else None)) (\<lambda>_.
     returnM (buildAccountMap accounts)))"

definition transferBody ::
  "env \<Rightarrow> context_values \<Rightarrow> 'd::linordered_idom CreateBatchTransferInput \<Rightarrow> string list \<Rightarrow>
   ('d, 'd transfer list \<times> string list) act" where
  "transferBody E ctx input accountIDs =
     bindM (lockAccounts E accountIDs) (\<lambda>m.
     bindM (Now E) (\<lambda>now.
     let eventAt = (case cbEventAt input of Some t \<Rightarrow> t | None \<Rightarrow> now) in
     bindM (processAll E m (cbTransfers input) now eventAt (cbMetadata input)) (\<lambda>posted.
     bindM (if envAudit E then forM (auditTransfer E ctx) (map fst posted) else returnM []) (\<lambda>_.
     returnM (map fst posted, map snd posted)))))"

definition executeTransferTransaction ::
  "env \<Rightarrow> context_values \<Rightarrow> 'd::linordered_idom CreateBatchTransferInput \<Rightarrow> string list \<Rightarrow>
   ('d, 'd transfer list \<times> string list) act" where
  "executeTransferTransaction E ctx input accountIDs =
     inTx E (bindM (transferBody E ctx input accountIDs) (\<lambda>r.
             bindM (Commit E) (\<lambda>_. returnM r)))"

section \<open>The operations\<close>

text \<open>The checks before the transaction: first the batch's metadata, then each transfer in turn.\<close>

definition checkInput :: "'d::linordered_idom CreateTransferInput \<Rightarrow> err option" where
  "checkInput ti =
     (if ciFrom ti = ciTo ti then Some ErrSameAccount
      else if ciAmount ti \<le> 0 then Some ErrInvalidAmount
      else ValidateMetadata (ciMetadata ti))"

fun first_error :: "('a \<Rightarrow> err option) \<Rightarrow> 'a list \<Rightarrow> err option" where
  "first_error check [] = None"
| "first_error check (x # xs) =
     (case check x of Some e \<Rightarrow> Some e | None \<Rightarrow> first_error check xs)"

definition checkBatch :: "'d::linordered_idom CreateBatchTransferInput \<Rightarrow> err option" where
  "checkBatch input =
     (case ValidateMetadata (cbMetadata input) of
        Some e \<Rightarrow> Some e
      | None \<Rightarrow> first_error checkInput (cbTransfers input))"

text \<open>A failure row per attempted transfer, on the pool; the row's resource is the row itself, and
  a write that fails is ignored.\<close>

definition auditFailedTransfer ::
  "env \<Rightarrow> context_values \<Rightarrow> err \<Rightarrow> 'd CreateTransferInput \<Rightarrow> ('d, unit) act" where
  "auditFailedTransfer E ctx failure ti =
     bindM (Generate E) (\<lambda>i.
     bindM (Now E) (\<lambda>at.
     ignoreM (auditRepo_Create E
       (auditLog ctx i (transferAction (ciReversed ti)) ''transfer'' i
          (StFields [(''from_account_id'', JText (ciFrom ti)), (''to_account_id'', JText (ciTo ti)),
                     (''amount'', JDecimal (ciAmount ti))]) NoState
          AuditStatusFailure (Some failure) at))))"

definition auditFailedTransfers ::
  "env \<Rightarrow> context_values \<Rightarrow> 'd CreateBatchTransferInput \<Rightarrow> err \<Rightarrow> ('d, unit) act" where
  "auditFailedTransfers E ctx input failure =
     (if envAudit E
      then ignoreM (forM (auditFailedTransfer E ctx failure) (cbTransfers input))
      else returnM ())"

definition CreateBatchTransfer ::
  "env \<Rightarrow> retrier_impl \<Rightarrow> context_values \<Rightarrow> 'd::linordered_idom CreateBatchTransferInput \<Rightarrow>
   ('d, 'd transfer list) act" where
  "CreateBatchTransfer E R ctx input =
     onErrorM (auditFailedTransfers E ctx input)
       (bindM (checkM (checkBatch input)) (\<lambda>_.
        let accountIDs = sort (collectUniqueAccountIDs (cbTransfers input)) in
        bindM (Retry R (executeTransferTransaction E ctx input accountIDs)) (\<lambda>(transfers, currencies).
        returnM transfers)))"

definition CreateTransfer ::
  "env \<Rightarrow> retrier_impl \<Rightarrow> context_values \<Rightarrow> 'd::linordered_idom CreateTransferInput \<Rightarrow>
   ('d, 'd transfer) act" where
  "CreateTransfer E R ctx input =
     bindM (CreateBatchTransfer E R ctx
              \<lparr>cbEventAt = ciEventAt input, cbMetadata = ciMetadata input, cbTransfers = [input]\<rparr>)
       (\<lambda>result. returnM (hd result))"

definition GetTransfer :: "env \<Rightarrow> string \<Rightarrow> ('d, 'd transfer) act" where
  "GetTransfer E i = transferRepo_GetByID E i"

text \<open>\<^verbatim>\<open>make\<close>, \<^verbatim>\<open>maps.Copy\<close> and an assignment: the caller's bindings, with \<^verbatim>\<open>reversal_of\<close>
  replaced or added.\<close>

definition reversalMetadata :: "metadata \<Rightarrow> string \<Rightarrow> metadata" where
  "reversalMetadata m original =
     Some (AList.update ''reversal_of'' (AnyStr original) (case m of None \<Rightarrow> [] | Some kvs \<Rightarrow> kvs))"

definition ReverseTransfer ::
  "env \<Rightarrow> retrier_impl \<Rightarrow> context_values \<Rightarrow> string \<Rightarrow> metadata \<Rightarrow> ('d::linordered_idom, 'd transfer) act" where
  "ReverseTransfer E R ctx transfer_id input_metadata =
     bindM (transferRepo_GetByID E transfer_id) (\<lambda>original.
     bindM (Now E) (\<lambda>now.
     bindM (CreateBatchTransfer E R ctx
       \<lparr>cbEventAt = Some now, cbMetadata = None,
        cbTransfers = [\<lparr>ciEventAt = None, ciMetadata = reversalMetadata input_metadata (trID original),
          ciFrom = trTo original, ciTo = trFrom original, ciAmount = trAmount original,
          ciReversed = Some (trID original)\<rparr>]\<rparr>) (\<lambda>result.
     returnM (hd result))))"

section \<open>Listings\<close>

definition clampLimit :: "int \<Rightarrow> int" where
  "clampLimit n = (let n = (if n \<le> 0 then 20 else n) in if n > 100 then 100 else n)"

definition ListTransfersByAccount :: "env \<Rightarrow> string \<Rightarrow> int \<Rightarrow> int \<Rightarrow> ('d, 'd transfer list) act" where
  "ListTransfersByAccount E acc lim off = transferRepo_ListByAccount E acc (clampLimit lim) off"

definition ListTransfersByAccountCursor ::
  "env \<Rightarrow> string \<Rightarrow> string \<Rightarrow> int \<Rightarrow> ('d, 'd transfer list \<times> string) act" where
  "ListTransfersByAccountCursor E acc cursor lim =
     (let lim = clampLimit lim in
      bindM (transferRepo_ListByAccountCursor E acc cursor lim) (\<lambda>transfers.
      returnM (transfers,
        if int (length transfers) = lim then trID (transfers ! (length transfers - 1)) else [])))"

end
