(* ===== verification/AccountUC.thy ===== *)
theory AccountUC
  imports TransferUC
begin

text \<open>
  Accounts, entries and the ledger-wide check (\<^verbatim>\<open>account_usecase.go\<close>, \<^verbatim>\<open>entry_usecase.go\<close>,
  \<^verbatim>\<open>ledger_usecase.go\<close>).
\<close>

section \<open>Accounts\<close>

record CreateAccountInput =
  aiName :: string
  aiCurrency :: string
  aiAllowNegative :: bool
  aiAllowPositive :: bool

text \<open>Name and currency are stored as given: the trimmed and upper-cased forms the checks look at
  are not kept.\<close>

definition newAccount :: "string \<Rightarrow> CreateAccountInput \<Rightarrow> int \<Rightarrow> 'd::linordered_idom account" where
  "newAccount i input now =
     \<lparr>accID = i, accName = aiName input, accCurrency = aiCurrency input, accBalance = 0,
      accEncumbered = 0, accVersion = 0, accAllowNegative = aiAllowNegative input,
      accAllowPositive = aiAllowPositive input, accCreatedAt = now, accUpdatedAt = now\<rparr>"

definition accountBody ::
  "env \<Rightarrow> context_values \<Rightarrow> CreateAccountInput \<Rightarrow> int \<Rightarrow> ('d::linordered_idom, 'd account) act" where
  "accountBody E ctx input now =
     bindM (Generate E) (\<lambda>i.
     let account = newAccount i input now in
     bindM (accountRepo_CreateTx E account) (\<lambda>_.
     bindM (if envAudit E
            then bindM (Generate E) (\<lambda>j.
                 bindM (Now E) (\<lambda>at.
                 auditRepo_CreateTx E
                   (auditLog ctx j AuditActionAccountCreate ''account'' (accID account) NoState
                      (StAccount account) AuditStatusSuccess None at)))
            else returnM ()) (\<lambda>_.
     returnM account)))"

definition accountTransaction ::
  "env \<Rightarrow> context_values \<Rightarrow> CreateAccountInput \<Rightarrow> int \<Rightarrow> ('d::linordered_idom, 'd account) act" where
  "accountTransaction E ctx input now =
     inTx E (bindM (accountBody E ctx input now) (\<lambda>a. bindM (Commit E) (\<lambda>_. returnM a)))"

definition auditFailedAccount ::
  "env \<Rightarrow> context_values \<Rightarrow> CreateAccountInput \<Rightarrow> err \<Rightarrow> ('d, unit) act" where
  "auditFailedAccount E ctx input failErr =
     (if envAudit E
      then bindM (Generate E) (\<lambda>i.
           bindM (Now E) (\<lambda>at.
           ignoreM (auditRepo_Create E
             (auditLog ctx i AuditActionAccountCreate ''account'' i
                (StFields [(''name'', JText (aiName input)), (''currency'', JText (aiCurrency input))])
                NoState AuditStatusFailure (Some failErr) at))))
      else returnM ())"

definition CreateAccount ::
  "env \<Rightarrow> context_values \<Rightarrow> CreateAccountInput \<Rightarrow> ('d::linordered_idom, 'd account) act" where
  "CreateAccount E ctx input =
     onErrorM (auditFailedAccount E ctx input)
       (bindM (checkM (ValidateAccountName (aiName input))) (\<lambda>_.
        bindM (checkM (ValidateCurrency (aiCurrency input))) (\<lambda>_.
        bindM (Now E) (\<lambda>now.
        accountTransaction E ctx input now))))"

definition GetAccount :: "env \<Rightarrow> string \<Rightarrow> ('d, 'd account) act" where
  "GetAccount E i = accountRepo_GetByID E i"

definition ListAccounts :: "env \<Rightarrow> int \<Rightarrow> int \<Rightarrow> ('d, 'd account list) act" where
  "ListAccounts E lim off = accountRepo_List E (clampLimit lim) off"

section \<open>Entries\<close>

definition GetEntriesByAccount :: "env \<Rightarrow> string \<Rightarrow> int \<Rightarrow> int \<Rightarrow> ('d, 'd entry list) act" where
  "GetEntriesByAccount E acc lim off = entryRepo_GetByAccount E acc (clampLimit lim) off"

definition GetEntriesByTransfer :: "env \<Rightarrow> string \<Rightarrow> ('d, 'd entry list) act" where
  "GetEntriesByTransfer E tr = entryRepo_GetByTransfer E tr"

definition GetHistoricalBalance :: "env \<Rightarrow> string \<Rightarrow> int \<Rightarrow> ('d::linordered_idom, 'd) act" where
  "GetHistoricalBalance E acc at = entryRepo_GetBalanceAtTime E acc at"

section \<open>The ledger\<close>

definition CheckConsistency :: "env \<Rightarrow> ('d::linordered_idom, bool) act" where
  "CheckConsistency E =
     bindM (ledgerRepo_CheckConsistency E) (\<lambda>(totalBalance, totalAmount).
     bindM (checkM (if totalBalance \<noteq> 0 then Some ErrInconsistentLedger else None)) (\<lambda>_.
     bindM (checkM (if totalAmount \<noteq> 0 then Some ErrInconsistentLedger else None)) (\<lambda>_.
     returnM True)))"

end
