(* ===== verification/Reconciliation.thy ===== *)
theory Reconciliation
  imports AccountUC
begin

text \<open>
  Reconciliation (\<^verbatim>\<open>src/internal/usecase/reconciliation_usecase.go\<close>) and one pass of its scheduler
  (\<^verbatim>\<open>src/internal/infrastructure/reconciliation/scheduler.go\<close>). The printing of a decimal is
  third-party and the parameter \<open>dec\<close>; the reason of a chain break keeps the values its text prints.
\<close>

record 'd ReconciliationResult =
  rrAccountID :: string
  rrRecordedBalance :: 'd
  rrCalculatedBalance :: 'd
  rrDifference :: 'd
  rrIsReconciled :: bool
  rrLastChecked :: int

definition ReconcileAccount :: "env \<Rightarrow> string \<Rightarrow> ('d::linordered_idom, 'd ReconciliationResult) act" where
  "ReconcileAccount E accountID =
     bindM (accountRepo_GetByID E accountID) (\<lambda>account.
     bindM (entryRepo_SumAmountsByAccount E accountID) (\<lambda>calculatedBalance.
     let difference = accBalance account - calculatedBalance in
     bindM (Now E) (\<lambda>now.
     returnM \<lparr>rrAccountID = accountID, rrRecordedBalance = accBalance account,
              rrCalculatedBalance = calculatedBalance, rrDifference = difference,
              rrIsReconciled = (difference = 0), rrLastChecked = now\<rparr>)))"

text \<open>\<^verbatim>\<open>if err != nil { return fmt.Errorf("\<dots>: %w", err) }\<close>\<close>

definition prefixErr :: "string \<Rightarrow> ('d, 'a) act \<Rightarrow> ('d, 'a) act" where
  "prefixErr s m = translateM (Prefixf s) m"

definition ReconcileAllAccounts :: "env \<Rightarrow> ('d::linordered_idom, 'd ReconciliationResult list) act" where
  "ReconcileAllAccounts E =
     (case ValidatePagination 10000 0 of (limit, offset) \<Rightarrow>
        bindM (accountRepo_List E limit offset) (\<lambda>accounts.
        forM (\<lambda>a. prefixErr (''failed to reconcile account '' @ accID a) (ReconcileAccount E (accID a)))
          accounts))"

definition mismatchText :: "('d::linordered_idom \<Rightarrow> string) \<Rightarrow> string \<times> 'd \<times> 'd \<Rightarrow> string" where
  "mismatchText dec r =
     (case r of (currency, totalBalance, totalEntries) \<Rightarrow>
        currency @ '': balance='' @ dec totalBalance @ '' entries='' @ dec totalEntries @
        '' difference='' @ dec (totalBalance - totalEntries))"

fun joinStrings :: "string \<Rightarrow> string list \<Rightarrow> string" where
  "joinStrings sep [] = []"
| "joinStrings sep [s] = s"
| "joinStrings sep (s # t # ss) = s @ sep @ joinStrings sep (t # ss)"

definition CheckLedgerConsistency :: "env \<Rightarrow> ('d \<Rightarrow> string) \<Rightarrow> ('d::linordered_idom, unit) act" where
  "CheckLedgerConsistency E dec =
     bindM (ledgerRepo_CheckConsistencyByCurrency E) (\<lambda>results.
     let mismatches = map (mismatchText dec) (filter (\<lambda>(c, b, e). b \<noteq> e) results) in
     checkM (if length mismatches > 0
             then Some (PlainErr (''ledger inconsistency detected: '' @ joinStrings ''; '' mismatches))
             else None))"

section \<open>Entry chains\<close>

datatype 'd break_reason =
    FirstVersion int
  | BalanceMismatch 'd 'd
  | NotContiguous int int

record 'd EntryChainBreak =
  cbEntryID :: string
  cbSequence :: nat
  cbReason :: "'d break_reason"

record 'd EntryChainResult =
  crAccountID :: string
  crBreaks :: "'d EntryChainBreak list"
  crValid :: bool

text \<open>The loop of \<^verbatim>\<open>VerifyEntryChain\<close>: the index and the previous entry's balance and version
  are carried along; an entry adds its breaks, in the order of the checks.\<close>

fun chainBreaks :: "nat \<Rightarrow> 'd \<Rightarrow> int \<Rightarrow> 'd entry list \<Rightarrow> 'd EntryChainBreak list" where
  "chainBreaks i prevBalance prevVersion [] = []"
| "chainBreaks i prevBalance prevVersion (e # es) =
     (if i = 0
      then (if enVersion e \<noteq> 1
            then [\<lparr>cbEntryID = enID e, cbSequence = i, cbReason = FirstVersion (enVersion e)\<rparr>] else [])
      else (if enPrevious e \<noteq> prevBalance
            then [\<lparr>cbEntryID = enID e, cbSequence = i, cbReason = BalanceMismatch (enPrevious e) prevBalance\<rparr>]
            else []) @
           (if enVersion e \<noteq> wrap64 (prevVersion + 1)
            then [\<lparr>cbEntryID = enID e, cbSequence = i, cbReason = NotContiguous (enVersion e) prevVersion\<rparr>]
            else [])) @
     chainBreaks (Suc i) (enCurrent e) (enVersion e) es"

definition VerifyEntryChain :: "env \<Rightarrow> string \<Rightarrow> ('d::linordered_idom, 'd EntryChainResult) act" where
  "VerifyEntryChain E accountID =
     bindM (entryRepo_GetAllByAccountOrdered E accountID) (\<lambda>entries.
     let breaks = chainBreaks 0 0 0 entries in
     returnM \<lparr>crAccountID = accountID, crBreaks = breaks, crValid = (breaks = [])\<rparr>)"

section \<open>The report\<close>

record 'd ReconciliationReport =
  rpCheckedAt :: int
  rpDiscrepancies :: "'d ReconciliationResult list"
  rpChainBreaks :: "'d EntryChainResult list"
  rpTotalAccounts :: nat
  rpReconciledAccounts :: nat
  rpLedgerConsistent :: bool

text \<open>A failed consistency check, like a failed query, only clears \<^verbatim>\<open>LedgerConsistent\<close>.\<close>

definition succeeds :: "('d, 'a) act \<Rightarrow> ('d, bool) act" where
  "succeeds m = (\<lambda>w. case m w of (Inl e, w') \<Rightarrow> (Inr False, w') | (Inr x, w') \<Rightarrow> (Inr True, w'))"

definition GenerateReconciliationReport ::
  "env \<Rightarrow> ('d \<Rightarrow> string) \<Rightarrow> ('d::linordered_idom, 'd ReconciliationReport) act" where
  "GenerateReconciliationReport E dec =
     bindM (ReconcileAllAccounts E) (\<lambda>results.
     bindM (succeeds (CheckLedgerConsistency E dec)) (\<lambda>consistent.
     bindM (Now E) (\<lambda>now.
     bindM (forM (\<lambda>r. prefixErr (''failed to verify entry chain for account '' @ rrAccountID r)
                        (VerifyEntryChain E (rrAccountID r))) results) (\<lambda>chains.
     returnM \<lparr>rpCheckedAt = now,
              rpDiscrepancies = filter (\<lambda>r. \<not> rrIsReconciled r) results,
              rpChainBreaks = filter (\<lambda>c. \<not> crValid c) chains,
              rpTotalAccounts = length results,
              rpReconciledAccounts = length (filter rrIsReconciled results),
              rpLedgerConsistent = consistent\<rparr>))))"

text \<open>One pass of the scheduler, as the label it counts the run under.\<close>

datatype run_outcome = RunError | RunOk | RunDrift

definition drifted :: "'d ReconciliationReport \<Rightarrow> bool" where
  "drifted report \<longleftrightarrow>
     length (rpDiscrepancies report) > 0 \<or> length (rpChainBreaks report) > 0 \<or>
     \<not> rpLedgerConsistent report"

definition runOnce :: "env \<Rightarrow> ('d \<Rightarrow> string) \<Rightarrow> 'd::linordered_idom world \<Rightarrow> run_outcome \<times> 'd world" where
  "runOnce E dec w =
     (case GenerateReconciliationReport E dec w of
        (Inl e, w') \<Rightarrow> (RunError, w')
      | (Inr report, w') \<Rightarrow> (if drifted report then RunDrift else RunOk, w'))"

end
