(* ===== verification/HoldUC.thy ===== *)
theory HoldUC
  imports TransferUC
begin

text \<open>
  Holds (\<^verbatim>\<open>src/internal/usecase/hold_usecase.go\<close>): reserving an amount, giving it back, and
  capturing it as a transfer to another account. Each is one transaction under a deferred failure
  audit; \<^verbatim>\<open>VoidHold\<close> and \<^verbatim>\<open>CaptureHold\<close> write their success row after the commit, on the pool.
\<close>

section \<open>Audit\<close>

definition auditFailedHold ::
  "env \<Rightarrow> context_values \<Rightarrow> audit_action \<Rightarrow> (string \<times> 'd jval) list \<Rightarrow> err \<Rightarrow> ('d, unit) act" where
  "auditFailedHold E ctx action state failErr =
     (if envAudit E
      then bindM (Generate E) (\<lambda>i.
           bindM (Now E) (\<lambda>at.
           ignoreM (auditRepo_Create E
             (auditLog ctx i action ''hold'' i (StFields state) NoState AuditStatusFailure
                (Some failErr) at))))
      else returnM ())"

text \<open>The best-effort row after a commit.\<close>

definition auditHold ::
  "env \<Rightarrow> context_values \<Rightarrow> audit_action \<Rightarrow> string \<Rightarrow> 'd audit_state \<Rightarrow> ('d, unit) act" where
  "auditHold E ctx action hold_id after =
     (if envAudit E
      then bindM (Generate E) (\<lambda>i.
           bindM (Now E) (\<lambda>at.
           ignoreM (auditRepo_Create E
             (auditLog ctx i action ''hold'' hold_id NoState after AuditStatusSuccess None at))))
      else returnM ())"

section \<open>HoldFunds\<close>

definition holdEvent :: "string \<Rightarrow> 'd hold \<Rightarrow> string \<Rightarrow> int \<Rightarrow> 'd outbox_event" where
  "holdEvent i h currency now =
     newEvent i (hoID h) AggregateTypeHold EventTypeHoldCreated
       [(''hold_id'', JText (hoID h)), (''account_id'', JText (hoAccount h)),
        (''amount'', JDecimal (hoAmount h)), (''currency'', JText currency)] now"

definition auditHoldTx :: "env \<Rightarrow> context_values \<Rightarrow> 'd hold \<Rightarrow> ('d, unit) act" where
  "auditHoldTx E ctx h =
     (if envAudit E
      then bindM (Generate E) (\<lambda>i.
           bindM (Now E) (\<lambda>at.
           auditRepo_CreateTx E
             (auditLog ctx i AuditActionHoldCreate ''hold'' (hoID h) NoState (StHold h)
                AuditStatusSuccess None at)))
      else returnM ())"

definition newHold :: "string \<Rightarrow> string \<Rightarrow> 'd \<Rightarrow> int \<Rightarrow> 'd hold" where
  "newHold i acc amount now =
     \<lparr>hoID = i, hoAccount = acc, hoAmount = amount, hoStatus = HoldStatusActive,
      hoExpiresAt = None, hoMetadata = None, hoCreatedAt = now, hoUpdatedAt = now\<rparr>"

definition holdBody ::
  "env \<Rightarrow> context_values \<Rightarrow> string \<Rightarrow> 'd::linordered_idom \<Rightarrow> ('d, 'd hold) act" where
  "holdBody E ctx accountID amount =
     bindM (accountRepo_GetByIDForUpdate E accountID) (\<lambda>account.
     bindM (checkM (ValidateDebit account amount)) (\<lambda>_.
     bindM (Now E) (\<lambda>now.
     bindM (Generate E) (\<lambda>hid.
     let hold = newHold hid accountID amount now in
     bindM (holdRepo_Create E hold) (\<lambda>_.
     let newEncumbered = accEncumbered account + amount in
     bindM (accountRepo_UpdateEncumberedBalance E accountID newEncumbered now) (\<lambda>_.
     bindM (Generate E) (\<lambda>oid.
     bindM (outboxRepo_Create E (holdEvent oid hold (accCurrency account) now)) (\<lambda>_.
     bindM (auditHoldTx E ctx hold) (\<lambda>_.
     returnM hold)))))))))"

definition holdTransaction ::
  "env \<Rightarrow> context_values \<Rightarrow> string \<Rightarrow> 'd::linordered_idom \<Rightarrow> ('d, 'd hold) act" where
  "holdTransaction E ctx accountID amount =
     inTx E (bindM (holdBody E ctx accountID amount) (\<lambda>h. bindM (Commit E) (\<lambda>_. returnM h)))"

definition HoldFunds ::
  "env \<Rightarrow> context_values \<Rightarrow> string \<Rightarrow> 'd::linordered_idom \<Rightarrow> ('d, 'd hold) act" where
  "HoldFunds E ctx accountID amount =
     onErrorM (auditFailedHold E ctx AuditActionHoldCreate
                 [(''account_id'', JText accountID), (''amount'', JDecimal amount)])
       (bindM (checkM (if amount \<le> 0 then Some ErrInvalidAmount else None)) (\<lambda>_.
        holdTransaction E ctx accountID amount))"

section \<open>VoidHold\<close>

definition voidEvent :: "string \<Rightarrow> 'd hold \<Rightarrow> int \<Rightarrow> 'd outbox_event" where
  "voidEvent i h now =
     newEvent i (hoID h) AggregateTypeHold EventTypeHoldVoided
       [(''hold_id'', JText (hoID h)), (''account_id'', JText (hoAccount h)),
        (''amount'', JDecimal (hoAmount h))] now"

definition activeHold :: "env \<Rightarrow> string \<Rightarrow> ('d, 'd hold) act" where
  "activeHold E holdID =
     bindM (holdRepo_GetByIDForUpdate E holdID) (\<lambda>hold.
     bindM (checkM (if hoStatus hold \<noteq> HoldStatusActive then Some ErrHoldNotActive else None)) (\<lambda>_.
     returnM hold))"

definition voidBody :: "env \<Rightarrow> string \<Rightarrow> ('d::linordered_idom, unit) act" where
  "voidBody E holdID =
     bindM (activeHold E holdID) (\<lambda>hold.
     bindM (accountRepo_GetByIDForUpdate E (hoAccount hold)) (\<lambda>account.
     bindM (Now E) (\<lambda>now.
     bindM (holdRepo_UpdateStatus E holdID HoldStatusVoided now) (\<lambda>_.
     let newEncumbered = accEncumbered account - hoAmount hold;
         newEncumbered = (if newEncumbered < 0 then 0 else newEncumbered) in
     bindM (accountRepo_UpdateEncumberedBalance E (hoAccount hold) newEncumbered now) (\<lambda>_.
     bindM (Generate E) (\<lambda>oid.
     bindM (outboxRepo_Create E (voidEvent oid hold now)) (\<lambda>_.
     returnM ())))))))"

definition voidTransaction :: "env \<Rightarrow> string \<Rightarrow> ('d::linordered_idom, unit) act" where
  "voidTransaction E holdID =
     inTx E (bindM (voidBody E holdID) (\<lambda>r. bindM (Commit E) (\<lambda>_. returnM r)))"

definition VoidHold :: "env \<Rightarrow> context_values \<Rightarrow> string \<Rightarrow> ('d::linordered_idom, unit) act" where
  "VoidHold E ctx holdID =
     onErrorM (auditFailedHold E ctx AuditActionHoldVoid [(''hold_id'', JText holdID)])
       (bindM (voidTransaction E holdID) (\<lambda>_.
        auditHold E ctx AuditActionHoldVoid holdID NoState))"

section \<open>CaptureHold\<close>

definition captureEvent :: "string \<Rightarrow> 'd hold \<Rightarrow> 'd transfer \<Rightarrow> string \<Rightarrow> int \<Rightarrow> 'd outbox_event" where
  "captureEvent i h t toAccountID now =
     newEvent i (hoID h) AggregateTypeHold EventTypeHoldCaptured
       [(''hold_id'', JText (hoID h)), (''transfer_id'', JText (trID t)),
        (''to_account_id'', JText toAccountID), (''amount'', JDecimal (hoAmount h))] now"

definition captureTransfer :: "string \<Rightarrow> 'd hold \<Rightarrow> string \<Rightarrow> int \<Rightarrow> 'd transfer" where
  "captureTransfer i hold toAccountID now =
     \<lparr>trID = i, trFrom = hoAccount hold, trTo = toAccountID, trAmount = hoAmount hold,
      trCreatedAt = now, trEventAt = now,
      trMetadata = Some [(''hold_id'', AnyStr (hoID hold)), (''type'', AnyStr ''capture'')],
      trReversed = None\<rparr>"

text \<open>The reads and checks: the hold is active, both accounts exist, share a currency, and the
  destination may be credited. The debit needs no check, the hold reserved it.\<close>

definition captureChecks ::
  "env \<Rightarrow> string \<Rightarrow> string \<Rightarrow> ('d::linordered_idom, 'd hold \<times> 'd account \<times> 'd account) act" where
  "captureChecks E holdID toAccountID =
     bindM (activeHold E holdID) (\<lambda>hold.
     bindM (accountRepo_GetByIDsForUpdate E [hoAccount hold, toAccountID]) (\<lambda>accounts.
     let accountMap = buildAccountMap accounts in
     case (accountMap (hoAccount hold), accountMap toAccountID) of
       (Some fromAccount, Some toAccount) \<Rightarrow>
         bindM (checkM (if accCurrency fromAccount \<noteq> accCurrency toAccount
                        then Some ErrCurrencyMismatch else None)) (\<lambda>_.
         bindM (checkM (ValidateCredit toAccount (hoAmount hold))) (\<lambda>_.
         returnM (hold, fromAccount, toAccount)))
     | _ \<Rightarrow> raiseM ErrAccountNotFound))"

definition captureWrites ::
  "env \<Rightarrow> 'd::linordered_idom hold \<Rightarrow> 'd account \<Rightarrow> 'd account \<Rightarrow> string \<Rightarrow> ('d, 'd transfer) act" where
  "captureWrites E hold fromAccount toAccount toAccountID =
     bindM (Now E) (\<lambda>now.
     bindM (Generate E) (\<lambda>tid.
     let transfer = captureTransfer tid hold toAccountID now in
     bindM (transferRepo_Create E transfer) (\<lambda>_.
     let fromNewBalance = accBalance fromAccount - hoAmount hold in
     bindM (Generate E) (\<lambda>fid.
     bindM (entryRepo_Create E (newEntry fid fromAccount tid (- hoAmount hold) fromNewBalance now)) (\<lambda>_.
     let fromNewEncumbered = accEncumbered fromAccount - hoAmount hold in
     bindM (accountRepo_UpdateBalanceAndEncumbered E (accID fromAccount) fromNewBalance fromNewEncumbered now) (\<lambda>_.
     let toNewBalance = ApplyCredit toAccount (hoAmount hold) in
     bindM (Generate E) (\<lambda>cid.
     bindM (entryRepo_Create E (newEntry cid toAccount tid (hoAmount hold) toNewBalance now)) (\<lambda>_.
     bindM (accountRepo_UpdateBalance E (accID toAccount) toNewBalance now) (\<lambda>_.
     bindM (holdRepo_UpdateStatus E (hoID hold) HoldStatusCaptured now) (\<lambda>_.
     bindM (Generate E) (\<lambda>oid.
     bindM (outboxRepo_Create E (captureEvent oid hold transfer toAccountID now)) (\<lambda>_.
     returnM transfer))))))))))))"

definition captureBody :: "env \<Rightarrow> string \<Rightarrow> string \<Rightarrow> ('d::linordered_idom, 'd transfer) act" where
  "captureBody E holdID toAccountID =
     bindM (captureChecks E holdID toAccountID) (\<lambda>(hold, fromAccount, toAccount).
     captureWrites E hold fromAccount toAccount toAccountID)"

definition captureTransaction :: "env \<Rightarrow> string \<Rightarrow> string \<Rightarrow> ('d::linordered_idom, 'd transfer) act" where
  "captureTransaction E holdID toAccountID =
     inTx E (bindM (captureBody E holdID toAccountID) (\<lambda>t. bindM (Commit E) (\<lambda>_. returnM t)))"

definition CaptureHold ::
  "env \<Rightarrow> context_values \<Rightarrow> string \<Rightarrow> string \<Rightarrow> ('d::linordered_idom, 'd transfer) act" where
  "CaptureHold E ctx holdID toAccountID =
     onErrorM (auditFailedHold E ctx AuditActionHoldCapture
                 [(''hold_id'', JText holdID), (''to_account_id'', JText toAccountID)])
       (bindM (captureTransaction E holdID toAccountID) (\<lambda>transfer.
        bindM (auditHold E ctx AuditActionHoldCapture holdID (StTransfer transfer)) (\<lambda>_.
        returnM transfer)))"

definition ListHoldsByAccount :: "env \<Rightarrow> string \<Rightarrow> int \<Rightarrow> int \<Rightarrow> ('d, 'd hold list) act" where
  "ListHoldsByAccount E acc lim off = holdRepo_ListByAccount E acc lim off"

end
