(* ===== verification/Ledger.thy ===== *)
theory Ledger
  imports Repositories
begin

text \<open>
  What the tables must satisfy at every commit: the ledger invariant, in six parts, and the lemma
  that carries most of the proofs of the use cases: posting a transfer (a transfer row, two
  entries, two balance updates) keeps the parts that speak of money.
\<close>

section \<open>The invariant\<close>

definition account_entries :: "'d db \<Rightarrow> string \<Rightarrow> 'd entry list" where
  "account_entries d i = filter (\<lambda>e. enAccount e = i) (entriesT d)"

definition transfer_entries :: "'d db \<Rightarrow> string \<Rightarrow> 'd entry list" where
  "transfer_entries d i = filter (\<lambda>e. enTransfer e = i) (entriesT d)"

definition active_holds :: "'d hold list \<Rightarrow> string \<Rightarrow> 'd hold list" where
  "active_holds hs i = filter (\<lambda>h. hoAccount h = i \<and> hoStatus h = HoldStatusActive) hs"

definition keys_ok :: "'d db \<Rightarrow> bool" where
  "keys_ok d \<longleftrightarrow>
     distinct (map accID (accountsT d)) \<and> distinct (map trID (transfersT d)) \<and>
     distinct (map enID (entriesT d)) \<and> distinct (map hoID (holdsT d)) \<and>
     distinct (map obID (outboxT d))"

definition checks_ok :: "'d::linordered_idom db \<Rightarrow> bool" where
  "checks_ok d \<longleftrightarrow> (\<forall>a \<in> set (accountsT d). account_check a = None)"

text \<open>The entries of an account, in the order they were made, start from zero and continue each
  other's balance with rising versions up to the account's own balance and version.\<close>

fun entry_chain :: "'d::linordered_idom \<Rightarrow> int \<Rightarrow> 'd entry list \<Rightarrow> 'd \<Rightarrow> int \<Rightarrow> bool" where
  "entry_chain b v [] b' v' = (b = b' \<and> v \<le> v')"
| "entry_chain b v (e # es) b' v' =
     (enPrevious e = b \<and> enCurrent e = b + enAmount e \<and> v < enVersion e \<and>
      entry_chain (enCurrent e) (enVersion e) es b' v')"

definition chains_ok :: "'d::linordered_idom db \<Rightarrow> bool" where
  "chains_ok d \<longleftrightarrow>
     (\<forall>a \<in> set (accountsT d).
        entry_chain 0 0 (account_entries d (accID a)) (accBalance a) (accVersion a))"

text \<open>Double entry: every transfer moved a positive amount between two accounts of one currency,
  by exactly two entries.\<close>

definition double_entry :: "'d::linordered_idom db \<Rightarrow> 'd transfer \<Rightarrow> bool" where
  "double_entry d t \<longleftrightarrow>
     0 < trAmount t \<and> trFrom t \<noteq> trTo t \<and>
     (\<exists>c. currency_of d (trFrom t) = Some c \<and> currency_of d (trTo t) = Some c) \<and>
     map (\<lambda>e. (enAccount e, enAmount e)) (transfer_entries d (trID t)) =
       [(trFrom t, - trAmount t), (trTo t, trAmount t)]"

definition transfers_ok :: "'d::linordered_idom db \<Rightarrow> bool" where
  "transfers_ok d \<longleftrightarrow>
     (\<forall>t \<in> set (transfersT d). double_entry d t) \<and>
     (\<forall>e \<in> set (entriesT d). enTransfer e \<in> trID ` set (transfersT d) \<and>
        enAccount e \<in> accID ` set (accountsT d))"

definition reversals_ok :: "'d db \<Rightarrow> bool" where
  "reversals_ok d \<longleftrightarrow>
     distinct (map (\<lambda>t. the (trReversed t)) (filter (\<lambda>t. trReversed t \<noteq> None) (transfersT d)))"

definition holds_ok :: "'d::linordered_idom db \<Rightarrow> bool" where
  "holds_ok d \<longleftrightarrow>
     (\<forall>h \<in> set (holdsT d). 0 < hoAmount h \<and> hoAccount h \<in> accID ` set (accountsT d)) \<and>
     (\<forall>a \<in> set (accountsT d).
        accEncumbered a = sum_list (map hoAmount (active_holds (holdsT d) (accID a))))"

text \<open>The events of an aggregate are numbered 1, 2, 3, \<open>\<dots>\<close> in the order they were made.\<close>

definition outbox_ok :: "'d db \<Rightarrow> bool" where
  "outbox_ok d \<longleftrightarrow>
     (\<forall>e \<in> set (outboxT d).
        let es = filter (same_aggregate e) (outboxT d)
        in map obSequence es = map int [1..<Suc (length es)])"

definition ledger_inv :: "'d::linordered_idom db \<Rightarrow> bool" where
  "ledger_inv d \<longleftrightarrow>
     keys_ok d \<and> checks_ok d \<and> chains_ok d \<and> transfers_ok d \<and> reversals_ok d \<and> holds_ok d \<and>
     outbox_ok d"

lemma ledger_inv_empty: "ledger_inv empty_db"
  by (simp add: ledger_inv_def keys_ok_def checks_ok_def chains_ok_def transfers_ok_def
      reversals_ok_def holds_ok_def outbox_ok_def empty_db_def)

lemma ledger_inv_same: "same_ledger d d' \<Longrightarrow> ledger_inv d \<Longrightarrow> ledger_inv d'"
  by (simp add: ledger_inv_def keys_ok_def checks_ok_def chains_ok_def transfers_ok_def
      reversals_ok_def holds_ok_def outbox_ok_def double_entry_def currency_of_def
      account_entries_def transfer_entries_def same_ledger_def)

section \<open>Chains of entries\<close>

lemma entry_chain_balance: "entry_chain b v es b' v' \<Longrightarrow> b' = b + sum_list (map enAmount es)"
proof (induction es arbitrary: b v)
  case (Cons e es)
  have rest: "entry_chain (enCurrent e) (enVersion e) es b' v'" and e: "enCurrent e = b + enAmount e"
    using Cons.prems unfolding entry_chain.simps by blast+
  show ?case using Cons.IH [OF rest] e by (simp add: add.assoc)
qed simp

lemma entry_chain_mono: "entry_chain b v es b' v' \<Longrightarrow> v \<le> v'"
  by (induction es arbitrary: b v) fastforce+

lemma entry_chain_later: "entry_chain b v es b' v' \<Longrightarrow> v' \<le> v'' \<Longrightarrow> entry_chain b v es b' v''"
  by (induction es arbitrary: b v) auto

lemma entry_chain_append:
  "entry_chain b v (es @ [e]) b'' v'' \<longleftrightarrow>
     (\<exists>b' v'. entry_chain b v es b' v' \<and> enPrevious e = b' \<and> enCurrent e = b' + enAmount e \<and>
        v' < enVersion e \<and> b'' = enCurrent e \<and> enVersion e \<le> v'')"
proof (induction es arbitrary: b v)
  case Nil
  then show ?case by auto
next
  case (Cons x xs)
  then show ?case by auto
qed

lemma entry_chain_extend:
  assumes "entry_chain b v es b' v'" and "enPrevious e = b'" and "enCurrent e = b' + enAmount e"
    and "enVersion e = v' + 1" and "b'' = enCurrent e" and "v'' = v' + 1"
  shows "entry_chain b v (es @ [e]) b'' v''"
  unfolding entry_chain_append using assms by fastforce

lemma entry_chain_sorted: "entry_chain b v es b' v' \<Longrightarrow> sorted (map enVersion es) \<and> (\<forall>e\<in>set es. v < enVersion e)"
  by (induction es arbitrary: b v) fastforce+

lemma chains_version: "chains_ok d \<Longrightarrow> a \<in> set (accountsT d) \<Longrightarrow> 0 \<le> accVersion a"
  unfolding chains_ok_def using entry_chain_mono by fastforce

lemma chains_balance:
  "chains_ok d \<Longrightarrow> a \<in> set (accountsT d) \<Longrightarrow>
   accBalance a = sum_list (map enAmount (account_entries d (accID a)))"
  unfolding chains_ok_def using entry_chain_balance by fastforce

section \<open>Accounts of an updated table\<close>

definition keeps_identity :: "('d account \<Rightarrow> 'd account) \<Rightarrow> bool" where
  "keeps_identity f \<longleftrightarrow> (\<forall>a. accID (f a) = accID a \<and> accCurrency (f a) = accCurrency a)"

lemma keeps_identity_set [simp]:
  "keeps_identity (set_balance b t)" "keeps_identity (set_encumbered n t)"
  "keeps_identity (set_both b n t)"
  by (simp_all add: keeps_identity_def)

lemma keeps_identityD: "keeps_identity f \<Longrightarrow> accID (f a) = accID a"
  by (simp add: keeps_identity_def)

lemma map_ids_update [simp]:
  "keeps_identity f \<Longrightarrow> map accID (update_rows accID i f as) = map accID as"
  by (simp add: keeps_identity_def)

lemma ids_update [simp]:
  "keeps_identity f \<Longrightarrow> accID ` set (update_rows accID i f as) = accID ` set as"
  by (metis list.set_map map_ids_update)

lemma currency_update:
  assumes "keeps_identity f"
  shows "map_option accCurrency (find_row accID j (update_rows accID i f as)) =
     map_option accCurrency (find_row accID j as)"
  using assms find_row_update [of accID f j i as]
  by (simp add: keeps_identity_def option.map_comp comp_def)

section \<open>Posting a transfer\<close>

text \<open>The database after a transfer \<open>t\<close> with its debit and credit entries, the account rows
  rewritten by \<open>f\<close> and \<open>g\<close>.\<close>

definition post ::
  "'d transfer \<Rightarrow> 'd entry \<Rightarrow> 'd entry \<Rightarrow> ('d account \<Rightarrow> 'd account) \<Rightarrow> ('d account \<Rightarrow> 'd account) \<Rightarrow>
   'd db \<Rightarrow> 'd db" where
  "post t e1 e2 f g d =
     d\<lparr>transfersT := transfersT d @ [t], entriesT := entriesT d @ [e1, e2],
       accountsT := update_rows accID (trTo t) g (update_rows accID (trFrom t) f (accountsT d))\<rparr>"

text \<open>What the two entries and the two rewrites have to agree on.\<close>

definition posts :: "'d::linordered_idom db \<Rightarrow> 'd transfer \<Rightarrow> 'd entry \<Rightarrow> 'd entry \<Rightarrow>
    ('d account \<Rightarrow> 'd account) \<Rightarrow> ('d account \<Rightarrow> 'd account) \<Rightarrow> 'd account \<Rightarrow> 'd account \<Rightarrow> bool" where
  "posts d t e1 e2 f g a b \<longleftrightarrow>
     find_row accID (trFrom t) (accountsT d) = Some a \<and>
     find_row accID (trTo t) (accountsT d) = Some b \<and>
     accCurrency a = accCurrency b \<and> 0 < trAmount t \<and> trFrom t \<noteq> trTo t \<and>
     trID t \<notin> trID ` set (transfersT d) \<and> \<not> reversal_taken (trReversed t) (transfersT d) \<and>
     enID e1 \<notin> enID ` set (entriesT d) \<and> enID e2 \<notin> insert (enID e1) (enID ` set (entriesT d)) \<and>
     enAccount e1 = trFrom t \<and> enAccount e2 = trTo t \<and>
     enTransfer e1 = trID t \<and> enTransfer e2 = trID t \<and>
     enAmount e1 = - trAmount t \<and> enAmount e2 = trAmount t \<and>
     enPrevious e1 = accBalance a \<and> enPrevious e2 = accBalance b \<and>
     enCurrent e1 = accBalance a - trAmount t \<and> enCurrent e2 = accBalance b + trAmount t \<and>
     enVersion e1 = accVersion a + 1 \<and> enVersion e2 = accVersion b + 1 \<and>
     keeps_identity f \<and> keeps_identity g \<and>
     accBalance (f a) = enCurrent e1 \<and> accBalance (g b) = enCurrent e2 \<and>
     accVersion (f a) = accVersion a + 1 \<and> accVersion (g b) = accVersion b + 1 \<and>
     account_check (f a) = None \<and> account_check (g b) = None"

lemma find_row_key: "find_row key k xs = Some r \<Longrightarrow> k \<in> key ` set xs"
  using find_row_None [of key k xs] by force

lemma posts_ids:
  assumes "posts d t e1 e2 f g a b"
  shows "trFrom t \<in> accID ` set (accountsT d)" "trTo t \<in> accID ` set (accountsT d)"
  using assms find_row_key [of accID] unfolding posts_def by blast+

lemma post_account:
  assumes "posts d t e1 e2 f g a b" and "keys_ok d" and "x \<in> set (accountsT (post t e1 e2 f g d))"
  shows "x = f a \<and> accID x = trFrom t \<or> x = g b \<and> accID x = trTo t \<or>
     x \<in> set (accountsT d) \<and> accID x \<noteq> trFrom t \<and> accID x \<noteq> trTo t"
proof -
  have kf: "accID (f y) = accID y" and kg: "accID (g y) = accID y" for y
    using assms(1) by (simp_all add: posts_def keeps_identity_def)
  have dist: "distinct (map accID (accountsT d))" using assms(2) by (simp add: keys_ok_def)
  have a: "a \<in> set (accountsT d)" "accID a = trFrom t" and b: "b \<in> set (accountsT d)" "accID b = trTo t"
    and ne: "trFrom t \<noteq> trTo t"
    using assms(1) find_row_Some [of accID] by (auto simp: posts_def)
  have only: "y = z" if "y \<in> set (accountsT d)" "z \<in> set (accountsT d)" "accID y = accID z" for y z
    using that dist by (auto simp: distinct_map dest: inj_onD)
  obtain y where y: "y \<in> set (accountsT d)"
    and x: "x = (if accID y = trFrom t then f y else if accID y = trTo t then g y else y)"
    using assms(3) ne kf by (auto simp: post_def set_update_rows split: if_splits)
  show ?thesis
  proof (cases "accID y = trFrom t")
    case True
    then have "y = a" using only y a by auto
    then show ?thesis using x True kf a by simp
  next
    case False
    show ?thesis
    proof (cases "accID y = trTo t")
      case True
      then have "y = b" using only y b by auto
      then show ?thesis using x True False kg b by simp
    next
      case no: False
      then show ?thesis using x False y by simp
    qed
  qed
qed

lemma post_currency:
  assumes "posts d t e1 e2 f g a b"
  shows "currency_of (post t e1 e2 f g d) i = currency_of d i"
  using assms by (simp add: currency_of_def post_def posts_def currency_update)

lemma post_keys: "posts d t e1 e2 f g a b \<Longrightarrow> keys_ok d \<Longrightarrow> keys_ok (post t e1 e2 f g d)"
  by (auto simp: posts_def keys_ok_def post_def)

lemma post_checks:
  "posts d t e1 e2 f g a b \<Longrightarrow> keys_ok d \<Longrightarrow> checks_ok d \<Longrightarrow> checks_ok (post t e1 e2 f g d)"
proof -
  assume p: "posts d t e1 e2 f g a b" and k: "keys_ok d" and c: "checks_ok d"
  have "account_check (f a) = None" "account_check (g b) = None"
    using p by (simp_all add: posts_def)
  then show ?thesis using c post_account [OF p k] unfolding checks_ok_def by blast
qed

lemma post_chains:
  assumes p: "posts d t e1 e2 f g a b" and k: "keys_ok d" and c: "chains_ok d"
  shows "chains_ok (post t e1 e2 f g d)"
  unfolding chains_ok_def
proof
  fix x
  assume x: "x \<in> set (accountsT (post t e1 e2 f g d))"
  have acc: "enAccount e1 = trFrom t" "enAccount e2 = trTo t" "trFrom t \<noteq> trTo t"
    using p by (simp_all add: posts_def)
  have entries: "account_entries (post t e1 e2 f g d) i = account_entries d i @
      (if i = trFrom t then [e1] else []) @ (if i = trTo t then [e2] else [])" for i
    using acc by (auto simp: account_entries_def post_def)
  have chain: "entry_chain 0 0 (account_entries d i) (accBalance y) (accVersion y)"
    if "find_row accID i (accountsT d) = Some y" for i y
    using c find_row_Some [OF that] by (auto simp: chains_ok_def)
  from post_account [OF p k x] show "entry_chain 0 0 (account_entries (post t e1 e2 f g d) (accID x))
      (accBalance x) (accVersion x)"
  proof (elim disjE conjE)
    assume "x = f a" "accID x = trFrom t"
    moreover have "entry_chain 0 0 (account_entries d (trFrom t) @ [e1]) (accBalance (f a)) (accVersion (f a))"
      by (rule entry_chain_extend [OF chain]) (use p in \<open>simp_all add: posts_def\<close>)
    ultimately show ?thesis using acc by (simp add: entries)
  next
    assume "x = g b" "accID x = trTo t"
    moreover have "entry_chain 0 0 (account_entries d (trTo t) @ [e2]) (accBalance (g b)) (accVersion (g b))"
      by (rule entry_chain_extend [OF chain]) (use p in \<open>simp_all add: posts_def\<close>)
    ultimately show ?thesis using acc by (simp add: entries)
  next
    assume "x \<in> set (accountsT d)" "accID x \<noteq> trFrom t" "accID x \<noteq> trTo t"
    then show ?thesis using c by (simp add: entries chains_ok_def)
  qed
qed

lemma post_transfers:
  assumes p: "posts d t e1 e2 f g a b" and ok: "transfers_ok d"
  shows "transfers_ok (post t e1 e2 f g d)"
proof -
  have new: "trID t \<notin> trID ` set (transfersT d)" and tr: "enTransfer e1 = trID t" "enTransfer e2 = trID t"
    using p by (simp_all add: posts_def)
  have none: "filter (\<lambda>e. enTransfer e = trID t) (entriesT d) = []"
    using ok new unfolding transfers_ok_def filter_empty_conv by metis
  have "double_entry (post t e1 e2 f g d) t"
    using p none post_currency [OF p]
    by (simp add: double_entry_def transfer_entries_def post_def posts_def currency_of_def)
  moreover have "double_entry (post t e1 e2 f g d) s" if s: "s \<in> set (transfersT d)" for s
  proof -
    have "trID s \<noteq> trID t" using new s by (metis imageI)
    then have "transfer_entries (post t e1 e2 f g d) (trID s) = transfer_entries d (trID s)"
      using tr by (simp add: transfer_entries_def post_def)
    then show ?thesis using ok s post_currency [OF p] by (simp add: transfers_ok_def double_entry_def)
  qed
  moreover have "accID ` set (accountsT (post t e1 e2 f g d)) = accID ` set (accountsT d)"
    using p by (simp add: post_def posts_def)
  moreover have "trFrom t \<in> accID ` set (accountsT d)" "trTo t \<in> accID ` set (accountsT d)"
    using posts_ids [OF p] by simp_all
  ultimately show ?thesis
    using ok p unfolding transfers_ok_def by (auto simp: post_def posts_def)
qed

lemma post_reversals:
  "posts d t e1 e2 f g a b \<Longrightarrow> reversals_ok d \<Longrightarrow> reversals_ok (post t e1 e2 f g d)"
  by (auto simp: posts_def reversals_ok_def post_def reversal_taken_def list_ex_iff split: option.splits)

lemmas post_parts = post_keys post_checks post_chains post_transfers post_reversals

section \<open>Outbox numbering\<close>

lemma next_sequence_numbered:
  assumes "map obSequence (filter (same_aggregate e) es) = map int [1..<Suc n]"
  shows "next_sequence e es = int n + 1"
proof (cases n)
  case 0
  then show ?thesis using assms by (simp add: next_sequence_def)
next
  case (Suc k)
  then obtain x xs where l: "map obSequence (filter (same_aggregate e) es) = x # xs"
    using arg_cong [OF assms, of length] by (metis length_Suc_conv length_map length_upt diff_Suc_1)
  have "set (x # xs) = int ` {1..n}"
    using assms unfolding l by (simp del: upt_Suc) (metis atLeastLessThanSuc_atLeastAtMost)
  moreover have "fold max xs x = Max (set (x # xs))" by (simp only: Max.set_eq_fold)
  moreover have "Max (int ` {1..n}) = int n" using Suc by (intro Max_eqI) (auto intro: image_eqI [of _ _ n])
  ultimately have "fold max xs x = int n" by simp
  then show ?thesis unfolding next_sequence_def l by simp
qed

lemma same_aggregate_filter:
  "same_aggregate e f \<Longrightarrow> filter (same_aggregate f) es = filter (same_aggregate e) es"
  by (rule filter_cong) (auto simp: same_aggregate_def)

lemma outbox_numbered:
  assumes "outbox_ok d"
  shows "\<exists>n. map obSequence (filter (same_aggregate e) (outboxT d)) = map int [1..<Suc n] \<and>
    n = length (filter (same_aggregate e) (outboxT d))"
proof (cases "filter (same_aggregate e) (outboxT d)")
  case Nil
  then show ?thesis by simp
next
  case (Cons f fs)
  then have f: "f \<in> set (outboxT d)" "same_aggregate e f" by (auto dest: filter_eq_ConsD)
  then show ?thesis
    using assms same_aggregate_filter [OF f(2), of "outboxT d"]
    by (auto simp: outbox_ok_def Let_def dest!: bspec)
qed

text \<open>The row an insert makes, and that its number is the next one of its aggregate.\<close>

lemma sql_CreateOutboxEvent_Inr:
  assumes "sql_CreateOutboxEvent e d = Inr (row, d')"
  shows "row = e\<lparr>obSequence := next_sequence e (outboxT d), obPublishedAt := None,
                  obAttempts := 0, obLastError := None, obDeadLetteredAt := None\<rparr>"
    and "obID e \<notin> obID ` set (outboxT d)" and "d' = d\<lparr>outboxT := outboxT d @ [row]\<rparr>"
  using assms by (auto simp: sql_CreateOutboxEvent_def Let_def has_row_iff split: if_splits)

lemma outbox_insert:
  assumes ok: "outbox_ok d" and run: "sql_CreateOutboxEvent e d = Inr (row, d')"
  shows "outbox_ok d'"
    and "obSequence row = int (length (filter (same_aggregate e) (outboxT d))) + 1"
proof -
  note row = sql_CreateOutboxEvent_Inr [OF run]
  obtain n where n: "map obSequence (filter (same_aggregate e) (outboxT d)) = map int [1..<Suc n]"
      "n = length (filter (same_aggregate e) (outboxT d))"
    using outbox_numbered [OF ok] by blast
  have num: "obSequence row = int n + 1" using next_sequence_numbered [OF n(1)] row(1) by simp
  show "obSequence row = int (length (filter (same_aggregate e) (outboxT d))) + 1"
    using num n(2) by simp
  have same: "same_aggregate f row \<longleftrightarrow> same_aggregate f e" for f
    by (simp add: row(1) same_aggregate_def)
  have sym: "same_aggregate e f" if "same_aggregate f e" for f
    using that by (simp add: same_aggregate_def)
  have "map obSequence (filter (same_aggregate f) (outboxT d @ [row])) =
      map int [1..<Suc (length (filter (same_aggregate f) (outboxT d @ [row])))]" for f
  proof (cases "same_aggregate f e")
    case True
    have "filter (same_aggregate f) (outboxT d) = filter (same_aggregate e) (outboxT d)"
      using same_aggregate_filter [OF sym [OF True]] by simp
    then show ?thesis using True num n by (simp add: same)
  next
    case False
    then show ?thesis using outbox_numbered [OF ok, of f] by (auto simp: same)
  qed
  then show "outbox_ok d'" by (simp add: outbox_ok_def row(3) Let_def)
qed

lemma outbox_insert_parts:
  assumes "sql_CreateOutboxEvent e d = Inr (row, d')"
  shows "keys_ok d \<Longrightarrow> keys_ok d'" "checks_ok d \<Longrightarrow> checks_ok d'" "chains_ok d \<Longrightarrow> chains_ok d'"
    "transfers_ok d \<Longrightarrow> transfers_ok d'" "reversals_ok d \<Longrightarrow> reversals_ok d'" "holds_ok d \<Longrightarrow> holds_ok d'"
  using sql_CreateOutboxEvent_Inr [OF assms]
  by (simp_all add: keys_ok_def checks_ok_def chains_ok_def transfers_ok_def reversals_ok_def
      holds_ok_def double_entry_def currency_of_def account_entries_def transfer_entries_def)

lemma post_outbox: "outbox_ok (post t e1 e2 f g d) \<longleftrightarrow> outbox_ok d"
  by (simp add: outbox_ok_def post_def)

section \<open>Holds and encumbrance\<close>

lemma active_holds_append:
  "active_holds (hs @ [h]) i =
     active_holds hs i @ (if hoAccount h = i \<and> hoStatus h = HoldStatusActive then [h] else [])"
  by (simp add: active_holds_def)

text \<open>The active amount after a hold changed its status away from active.\<close>

lemma active_sum_end:
  assumes dist: "distinct (map hoID hs)" and h: "h \<in> set hs" and act: "hoStatus h = HoldStatusActive"
    and st: "st \<noteq> HoldStatusActive"
  shows "sum_list (map hoAmount (active_holds (update_rows hoID (hoID h) (set_status st t) hs) i)) =
     sum_list (map hoAmount (active_holds hs i)) - (if hoAccount h = i then hoAmount h else (0::'d::linordered_idom))"
proof -
  have sum_filter: "sum_list (map hoAmount (active_holds xs i)) =
      sum_list (map (\<lambda>h. if hoAccount h = i \<and> hoStatus h = HoldStatusActive then hoAmount h else 0) xs)"
    for xs :: "'d hold list"
    by (simp add: active_holds_def sum_list_map_filter')
  show ?thesis
    unfolding sum_filter
    by (subst sum_update_rows [OF dist find_row_unique [OF dist h]]) (use act st in \<open>auto simp: set_status_def\<close>)
qed

lemma active_sum_nonneg:
  assumes "\<forall>h \<in> set hs. 0 < hoAmount h"
  shows "0 \<le> sum_list (map hoAmount (active_holds hs i) :: 'd::linordered_idom list)"
  using assms by (intro sum_list_nonneg) (auto simp: active_holds_def less_imp_le)

lemma active_sum_member:
  assumes "\<forall>h \<in> set hs. 0 < hoAmount h" and "h \<in> set hs" and "hoStatus h = HoldStatusActive"
  shows "hoAmount h \<le> sum_list (map hoAmount (active_holds hs (hoAccount h)) :: 'd::linordered_idom list)"
proof -
  have "hoAmount h \<in> set (map hoAmount (active_holds hs (hoAccount h)))"
    using assms(2,3) by (auto simp: active_holds_def)
  moreover have "0 \<le> x" if "x \<in> set (map hoAmount (active_holds hs (hoAccount h)))" for x
    using assms(1) that by (auto simp: active_holds_def less_imp_le)
  ultimately show ?thesis
    using sum_list_nonneg split_list
    by (metis (no_types, lifting) member_le_sum_list)
qed

text \<open>A table with one account rewritten, its balance and identity kept.\<close>

definition with_account :: "string \<Rightarrow> ('d account \<Rightarrow> 'd account) \<Rightarrow> 'd db \<Rightarrow> 'd db" where
  "with_account i f d = d\<lparr>accountsT := update_rows accID i f (accountsT d)\<rparr>"

lemma with_account_row:
  assumes "keys_ok d" and "find_row accID i (accountsT d) = Some a" and "\<And>x. accID (f x) = accID x"
    and "x \<in> set (accountsT (with_account i f d))"
  shows "x = f a \<or> x \<in> set (accountsT d) \<and> accID x \<noteq> i"
proof -
  obtain y where y: "y \<in> set (accountsT d)" and x: "x = (if accID y = i then f y else y)"
    using assms(4) by (auto simp: with_account_def set_update_rows)
  have "find_row accID (accID y) (accountsT d) = Some y"
    using find_row_unique assms(1) y by (auto simp: keys_ok_def)
  then show ?thesis using x y assms(2) by (cases "accID y = i") auto
qed

lemma with_account_parts:
  assumes f: "keeps_identity f" "accBalance (f a) = accBalance a" "accVersion (f a) = accVersion a + 1"
    and check: "account_check (f a) = None"
    and row: "find_row accID i (accountsT d) = Some a"
    and k: "keys_ok d"
  shows "keys_ok (with_account i f d)" "checks_ok d \<Longrightarrow> checks_ok (with_account i f d)"
    "chains_ok d \<Longrightarrow> chains_ok (with_account i f d)"
    "transfers_ok d \<Longrightarrow> transfers_ok (with_account i f d)"
    "reversals_ok d \<Longrightarrow> reversals_ok (with_account i f d)"
    "outbox_ok d \<Longrightarrow> outbox_ok (with_account i f d)"
proof -
  note rows = with_account_row [OF k row keeps_identityD [OF f(1)]]
  have a: "a \<in> set (accountsT d)" using find_row_Some [OF row] by simp
  show "keys_ok (with_account i f d)" using k f(1) by (simp add: keys_ok_def with_account_def)
  show "checks_ok (with_account i f d)" if "checks_ok d"
    using that check rows unfolding checks_ok_def by blast
  show "chains_ok (with_account i f d)" if c: "chains_ok d"
    unfolding chains_ok_def
  proof
    fix x assume "x \<in> set (accountsT (with_account i f d))"
    then consider "x = f a" | "x \<in> set (accountsT d)" using rows by blast
    then show "entry_chain 0 0 (account_entries (with_account i f d) (accID x)) (accBalance x) (accVersion x)"
      using c a f keeps_identityD [OF f(1)]
      by cases (auto simp: chains_ok_def account_entries_def with_account_def intro: entry_chain_later)
  qed
  have cur: "currency_of (with_account i f d) j = currency_of d j" for j
    using f(1) by (simp add: currency_of_def with_account_def currency_update)
  show "transfers_ok (with_account i f d)" if "transfers_ok d"
    using that f(1) cur
    by (simp add: transfers_ok_def double_entry_def transfer_entries_def) (simp add: with_account_def)
  show "reversals_ok (with_account i f d)" if "reversals_ok d"
    using that by (simp add: reversals_ok_def with_account_def)
  show "outbox_ok (with_account i f d)" if "outbox_ok d"
    using that by (simp add: outbox_ok_def with_account_def)
qed

end
