(* ===== verification/TransferLaws.thy ===== *)
theory TransferLaws
  imports TransferUC Ledger
begin

text \<open>
  What the transfer use case does to the ledger. A posted transfer is an instance of \<^const>\<open>post\<close>;
  so every committed batch keeps the invariant, whatever calls fail; a batch that fails changes
  no money table; a batch that succeeds has moved exactly the requested amounts.
\<close>

section \<open>The account map mirrors the locked rows\<close>

definition mirrors :: "'d account_map \<Rightarrow> 'd db \<Rightarrow> bool" where
  "mirrors m d \<longleftrightarrow>
     (\<forall>i a. m i = Some a \<longrightarrow>
        (\<exists>r. find_row accID i (accountsT d) = Some r \<and> a = r\<lparr>accUpdatedAt := accUpdatedAt a\<rparr>))"

lemma mirrorsD:
  assumes "mirrors m d" and "m i = Some a"
  obtains r where "find_row accID i (accountsT d) = Some r" "accID a = i" "accID r = i"
    "accBalance a = accBalance r" "accEncumbered a = accEncumbered r" "accVersion a = accVersion r"
    "accCurrency a = accCurrency r" "accAllowNegative a = accAllowNegative r"
    "accAllowPositive a = accAllowPositive r" "AvailableBalance a = AvailableBalance r"
proof -
  obtain r where r: "find_row accID i (accountsT d) = Some r" "a = r\<lparr>accUpdatedAt := accUpdatedAt a\<rparr>"
    using assms unfolding mirrors_def by blast
  moreover have "accID r = i" using find_row_Some [OF r(1)] by simp
  ultimately show thesis
    by (intro that [of r]; (simp add: AvailableBalance_def)?)
      (metis account.ext_inject account.surjective account.update_convs(10))+
qed

lemma buildAccountMap_find:
  "distinct (map accID as) \<Longrightarrow> buildAccountMap as i = find_row accID i as"
proof (induction as rule: rev_induct)
  case Nil
  then show ?case by (simp add: buildAccountMap_def find_row_def)
next
  case (snoc a as)
  then have "buildAccountMap (as @ [a]) i = (if i = accID a then Some a else find_row accID i as)"
    by (simp add: buildAccountMap_def)
  moreover have "find_row accID (accID a) as = None" using snoc.prems by (simp add: find_row_None)
  moreover have "find_row accID i [a] = (if accID a = i then Some a else None)" by (simp add: find_row_def)
  ultimately show ?case by (auto simp: find_row_append split: option.splits)
qed

lemma lockAccounts_Inr:
  assumes "lockAccounts E ids w = (Inr m, w')"
  shows "committed w' = committed w" "working w' = working w"
    "m = buildAccountMap (sort_key accID (filter (\<lambda>a. accID a \<in> set ids) (accountsT (working w))))"
    "length (filter (\<lambda>a. accID a \<in> set ids) (accountsT (working w))) = length ids"
  using assms
  by (auto simp: lockAccounts_def accountRepo_GetByIDsForUpdate_def sql_GetAccountsByIDsForUpdate_def
      run_simps split: if_splits)

lemma locked_map:
  assumes "keys_ok d" and "m = buildAccountMap (sort_key accID (filter (\<lambda>a. accID a \<in> set ids) (accountsT d)))"
  shows "m i = (if i \<in> set ids then find_row accID i (accountsT d) else None)"
proof -
  let ?as = "sort_key accID (filter (\<lambda>a. accID a \<in> set ids) (accountsT d))"
  have dd: "distinct (map accID (accountsT d))" using assms(1) by (simp add: keys_ok_def)
  have "inj_on accID (set ?as)" using dd by (auto simp: distinct_map inj_on_def)
  then have da: "distinct (map accID ?as)" using dd by (simp add: distinct_map)
  have "find_row accID i ?as = Some a \<longleftrightarrow>
      (if i \<in> set ids then find_row accID i (accountsT d) else None) = Some a" for a
    by (auto simp: find_row_iff [OF da] find_row_iff [OF dd])
  then show ?thesis
    by (metis (no_types, lifting) assms(2) buildAccountMap_find [OF da] option.exhaust)
qed

lemma lockAccounts_mirrors:
  assumes "lockAccounts E ids w = (Inr m, w')" and "keys_ok (working w)"
  shows "mirrors m (working w')"
  using locked_map [OF assms(2) lockAccounts_Inr(3) [OF assms(1)]] lockAccounts_Inr(2) [OF assms(1)]
  by (auto simp: mirrors_def split: if_splits)

section \<open>Posting\<close>

definition transfer_of :: "string \<Rightarrow> 'd CreateTransferInput \<Rightarrow> int \<Rightarrow> int \<Rightarrow> metadata \<Rightarrow> 'd transfer" where
  "transfer_of i input now eventAt metadata =
     \<lparr>trID = i, trFrom = ciFrom input, trTo = ciTo input, trAmount = ciAmount input,
      trCreatedAt = now, trEventAt = eventAt, trMetadata = metadata, trReversed = ciReversed input\<rparr>"

lemma newEntry_simps [simp]:
  "enID (newEntry i a t m b now) = i" "enAccount (newEntry i a t m b now) = accID a"
  "enTransfer (newEntry i a t m b now) = t" "enAmount (newEntry i a t m b now) = m"
  "enPrevious (newEntry i a t m b now) = accBalance a" "enCurrent (newEntry i a t m b now) = b"
  "enVersion (newEntry i a t m b now) = wrap64 (accVersion a + 1)"
  by (simp_all add: newEntry_def)

lemma newEvent_simps [simp]:
  "obID (newEvent i g ty ety p now) = i" "obAggregateID (newEvent i g ty ety p now) = g"
  "obAggregateType (newEvent i g ty ety p now) = ty" "obEventType (newEvent i g ty ety p now) = ety"
  "obPayload (newEvent i g ty ety p now) = p" "obEventVersion (newEvent i g ty ety p now) = 1"
  "obPublished (newEvent i g ty ety p now) = False" "obCreatedAt (newEvent i g ty ety p now) = now"
  by (simp_all add: newEvent_def)

lemma transferEvent_version [simp]: "obEventVersion (transferEvent i t now) = 1"
  by (simp add: transferEvent_def split: option.split)

lemma outboxRepo_Create_Inr:
  assumes "obEventVersion e = 1"
  shows "outboxRepo_Create E e w = (Inr x, w') \<longleftrightarrow>
     envFault E (callCount w) = None \<and>
     (\<exists>row d. sql_CreateOutboxEvent e (working w) = Inr (row, d) \<and>
        x = e\<lparr>obEventVersion := obEventVersion row, obSequence := obSequence row\<rparr> \<and>
        w' = w\<lparr>working := d, callCount := Suc (callCount w)\<rparr>)"
proof -
  have eq: "e\<lparr>obEventVersion := 1\<rparr> = e" using assms by (cases e) simp
  show ?thesis by (auto simp: outboxRepo_Create_def run_simps assms eq)
qed

lemma update_account_other:
  "find_row accID i (accountsT d) = Some a \<Longrightarrow> i \<noteq> j \<Longrightarrow> keeps_identity f \<Longrightarrow>
   find_row accID i (update_rows accID j f (accountsT d)) = Some a"
  by (simp add: find_row_update keeps_identity_def)

text \<open>The statements of a successful \<^const>\<open>postTransfer\<close>, chained on the transaction's copy.\<close>

lemma postTransfer_run:
  assumes run: "postTransfer E m fa ta input now eventAt md w = (Inr (t, m'), w')"
    and a: "find_row accID (ciFrom input) (accountsT (working w)) = Some a"
    and b: "find_row accID (ciTo input) (accountsT (working w)) = Some b"
    and ids: "accID fa = ciFrom input" "accID ta = ciTo input"
  defines "nf \<equiv> accBalance fa - ciAmount input" and "nt \<equiv> accBalance ta + ciAmount input"
  obtains e1 e2 ev row fid cid where
    "t = transfer_of (trID t) input now eventAt md"
    "Transfer_Validate t = None"
    "sql_CreateTransfer t (working w) = Inr ((), (working w)\<lparr>transfersT := transfersT (working w) @ [t]\<rparr>)"
    "e1 = newEntry fid fa (trID t) (- ciAmount input) nf now"
    "e2 = newEntry cid ta (trID t) (ciAmount input) nt now"
    "fid \<notin> enID ` set (entriesT (working w))" "cid \<notin> insert fid (enID ` set (entriesT (working w)))"
    "accVersion a < max_int64" "accVersion b < max_int64"
    "account_check (set_balance nf now a) = None" "account_check (set_balance nt now b) = None"
    "sql_CreateOutboxEvent (transferEvent ev t now)
       (post t e1 e2 (set_balance nf now) (set_balance nt now) (working w)) = Inr (row, working w')"
    "m' = m(ciFrom input \<mapsto> touch fa nf, ciTo input \<mapsto> touch ta nt)"
    "committed w' = committed w"
proof -
  have ne: "ciFrom input \<noteq> ciTo input"
    using run by (auto simp: postTransfer_def run_simps Let_def Transfer_Validate_None)
  have b': "find_row accID (ciTo input)
      (update_rows accID (ciFrom input) (set_balance nf now) (accountsT (working w))) = Some b"
    by (rule update_account_other [OF b]) (use ne in auto)
  define k where "k = idCount w"
  note steps = postTransfer_def run_simps Let_def transferRepo_Create_def entryRepo_Create_def
        accountRepo_UpdateBalance_def outboxRepo_Create_Inr sql_UpdateAccountBalance_def
        update_account_Inr ApplyDebit_def ApplyCredit_def
  let ?t = "transfer_of (envID E k) input now eventAt md"
  let ?e1 = "newEntry (envID E (Suc k)) fa (envID E k) (- ciAmount input) nf now"
  let ?e2 = "newEntry (envID E (Suc (Suc k))) ta (envID E k) (ciAmount input) nt now"
  have "t = ?t \<and> Transfer_Validate ?t = None \<and>
      sql_CreateTransfer ?t (working w) = Inr ((), (working w)\<lparr>transfersT := transfersT (working w) @ [?t]\<rparr>) \<and>
      envID E (Suc k) \<notin> enID ` set (entriesT (working w)) \<and>
      envID E (Suc (Suc k)) \<notin> insert (envID E (Suc k)) (enID ` set (entriesT (working w))) \<and>
      accVersion a < max_int64 \<and> accVersion b < max_int64 \<and>
      account_check (set_balance nf now a) = None \<and> account_check (set_balance nt now b) = None \<and>
      m' = m(ciFrom input \<mapsto> touch fa nf, ciTo input \<mapsto> touch ta nt) \<and> committed w' = committed w"
    using run a b b' ids ne unfolding k_def nf_def nt_def transfer_of_def by (auto simp: steps)
  moreover have "\<exists>row. sql_CreateOutboxEvent (transferEvent (envID E (Suc (Suc (Suc k)))) ?t now)
      (post ?t ?e1 ?e2 (set_balance nf now) (set_balance nt now) (working w)) = Inr (row, working w')"
    using run a b b' ids ne unfolding k_def nf_def nt_def transfer_of_def post_def
    by (auto simp: steps)
  ultimately show thesis
    by (elim exE conjE) (rule that [of ?e1 "envID E (Suc k)" ?e2 "envID E (Suc (Suc k))"]; (simp add: transfer_of_def)?)
qed

text \<open>One posted transfer: the accounts it ran on, its rows, and its event.\<close>

definition debited :: "'d::linordered_idom account \<Rightarrow> 'd transfer \<Rightarrow> 'd account \<Rightarrow> 'd account" where
  "debited a t = set_balance (accBalance a - trAmount t) (trCreatedAt t)"

definition credited :: "'d::linordered_idom account \<Rightarrow> 'd transfer \<Rightarrow> 'd account \<Rightarrow> 'd account" where
  "credited b t = set_balance (accBalance b + trAmount t) (trCreatedAt t)"

definition posted1 :: "'d::linordered_idom db \<Rightarrow> 'd transfer \<Rightarrow> 'd db \<Rightarrow> bool" where
  "posted1 d t d' \<longleftrightarrow>
     (\<exists>a b e1 e2 i row.
        posts d t e1 e2 (debited a t) (credited b t) a b \<and>
        ValidateDebit a (trAmount t) = None \<and> ValidateCredit b (trAmount t) = None \<and>
        (\<forall>r. trReversed t = Some r \<longrightarrow> r \<in> insert (trID t) (trID ` set (transfersT d))) \<and>
        sql_CreateOutboxEvent (transferEvent i t (trCreatedAt t))
          (post t e1 e2 (debited a t) (credited b t) d) = Inr (row, d'))"

fun posted :: "'d::linordered_idom db \<Rightarrow> 'd transfer list \<Rightarrow> 'd db \<Rightarrow> bool" where
  "posted d [] d' = (d' = d)"
| "posted d (t # ts) d' = (\<exists>d1. posted1 d t d1 \<and> posted d1 ts d')"

lemma touch_simps [simp]:
  "accID (touch a b) = accID a" "accBalance (touch a b) = b"
  "accVersion (touch a b) = wrap64 (accVersion a + 1)"
  by (simp_all add: touch_def)

lemma next_version: "0 \<le> accVersion a \<Longrightarrow> accVersion a < max_int64 \<Longrightarrow> wrap64 (accVersion a + 1) = accVersion a + 1"
  by (rule wrap64_id) auto

lemma touched_mirrors:
  assumes m: "mirrors m d" and row: "m i = Some x" "find_row accID i (accountsT d) = Some r"
    and v: "0 \<le> accVersion r" "accVersion r < max_int64"
    and d': "accountsT d' = update_rows accID i (set_balance nb now) (accountsT d)"
  shows "mirrors (m(i \<mapsto> touch x nb)) d'"
  unfolding mirrors_def
proof (intro allI impI)
  fix j y assume y: "(m(i \<mapsto> touch x nb)) j = Some y"
  have find: "find_row accID j (accountsT d') =
      (if j = i then map_option (set_balance nb now) (find_row accID j (accountsT d)) else find_row accID j (accountsT d))"
    unfolding d' by (rule find_row_update) simp
  show "\<exists>r. find_row accID j (accountsT d') = Some r \<and> y = r\<lparr>accUpdatedAt := accUpdatedAt y\<rparr>"
  proof (cases "j = i")
    case True
    have x: "x = r\<lparr>accUpdatedAt := accUpdatedAt x\<rparr>" using m row unfolding mirrors_def by fastforce
    have "y = touch x nb" using y True by simp
    also have "\<dots> = (set_balance nb now r)\<lparr>accUpdatedAt := accUpdatedAt (touch x nb)\<rparr>"
      using next_version [OF v] x by (cases x; cases r) (simp add: touch_def set_balance_def)
    finally have "y = (set_balance nb now r)\<lparr>accUpdatedAt := accUpdatedAt y\<rparr>" by simp
    then show ?thesis using find True row by auto
  next
    case False
    then show ?thesis using y find m by (auto simp: mirrors_def)
  qed
qed

lemma processTransfer_posted:
  assumes run: "processTransfer E m input now eventAt md w = (Inr (t, m'), w')"
    and m: "mirrors m (working w)" and k: "keys_ok (working w)" and c: "chains_ok (working w)"
  shows "posted1 (working w) t (working w')" "mirrors m' (working w')" "committed w' = committed w"
    "t = transfer_of (trID t) input now eventAt md"
    "\<exists>x. m (ciFrom input) = Some x \<and> m' (ciFrom input) \<noteq> None \<and> map_option accCurrency (m' (ciFrom input)) = Some (accCurrency x)"
proof -
  let ?d = "working w"
  obtain fa ta where ma: "m (ciFrom input) = Some fa" and mb: "m (ciTo input) = Some ta"
    and chk: "checkAccounts fa ta (ciAmount input) = None"
    and pt: "postTransfer E m fa ta input now eventAt md w = (Inr (t, m'), w')"
    using run by (auto simp: processTransfer_def run_simps split: option.splits)
  obtain a where a: "find_row accID (ciFrom input) (accountsT ?d) = Some a" "accID fa = ciFrom input"
      "accID a = ciFrom input" "accBalance fa = accBalance a" "accEncumbered fa = accEncumbered a"
      "accVersion fa = accVersion a" "accCurrency fa = accCurrency a" "accAllowNegative fa = accAllowNegative a"
      "AvailableBalance fa = AvailableBalance a"
    using mirrorsD [OF m ma] by blast
  obtain b where b: "find_row accID (ciTo input) (accountsT ?d) = Some b" "accID ta = ciTo input"
      "accID b = ciTo input" "accBalance ta = accBalance b"
      "accVersion ta = accVersion b" "accCurrency ta = accCurrency b" "accAllowPositive ta = accAllowPositive b"
    using mirrorsD [OF m mb] by blast
  obtain e1 e2 ev row fid cid where
    t: "t = transfer_of (trID t) input now eventAt md" "Transfer_Validate t = None" and
    ins: "sql_CreateTransfer t ?d = Inr ((), ?d\<lparr>transfersT := transfersT ?d @ [t]\<rparr>)" and
    e: "e1 = newEntry fid fa (trID t) (- ciAmount input) (accBalance fa - ciAmount input) now"
      "e2 = newEntry cid ta (trID t) (ciAmount input) (accBalance ta + ciAmount input) now" and
    fresh: "fid \<notin> enID ` set (entriesT ?d)" "cid \<notin> insert fid (enID ` set (entriesT ?d))" and
    v: "accVersion a < max_int64" "accVersion b < max_int64" and
    ac: "account_check (set_balance (accBalance fa - ciAmount input) now a) = None"
      "account_check (set_balance (accBalance ta + ciAmount input) now b) = None" and
    ob: "sql_CreateOutboxEvent (transferEvent ev t now)
       (post t e1 e2 (set_balance (accBalance fa - ciAmount input) now)
          (set_balance (accBalance ta + ciAmount input) now) ?d) = Inr (row, working w')" and
    m': "m' = m(ciFrom input \<mapsto> touch fa (accBalance fa - ciAmount input),
                ciTo input \<mapsto> touch ta (accBalance ta + ciAmount input))" and
    com: "committed w' = committed w"
    by (rule postTransfer_run [OF pt a(1) b(1) a(2) b(2)]) (rule that; assumption)
  have tf: "trFrom t = ciFrom input" "trTo t = ciTo input" "trAmount t = ciAmount input"
      "trCreatedAt t = now" "trReversed t = ciReversed input"
    by (subst t(1), simp add: transfer_of_def)+
  have ne: "ciFrom input \<noteq> ciTo input" and pos: "0 < ciAmount input"
    using t(2) tf by (simp_all add: Transfer_Validate_None)
  have va: "0 \<le> accVersion a" and vb: "0 \<le> accVersion b"
    using chains_version [OF c] find_row_Some [OF a(1)] find_row_Some [OF b(1)] by auto
  have f: "set_balance (accBalance fa - ciAmount input) now = debited a t"
    and g: "set_balance (accBalance ta + ciAmount input) now = credited b t"
    by (simp_all add: debited_def credited_def tf a b)
  have "ValidateDebit fa (ciAmount input) = None" "ValidateCredit ta (ciAmount input) = None"
    and cur: "accCurrency a = accCurrency b"
    using chk a b by (auto simp: checkAccounts_def split: if_splits option.splits)
  then have val: "ValidateDebit a (trAmount t) = None" "ValidateCredit b (trAmount t) = None"
    using a b tf by (simp_all add: ValidateDebit_None ValidateCredit_None)
  have p: "posts ?d t e1 e2 (debited a t) (credited b t) a b"
    using ins a b e fresh ne pos cur ac next_version [OF va v(1)] next_version [OF vb v(2)] unfolding f g
    by (simp add: posts_def tf sql_CreateTransfer_Inr) (simp add: debited_def credited_def tf)
  have rev: "\<forall>r. trReversed t = Some r \<longrightarrow> r \<in> insert (trID t) (trID ` set (transfersT ?d))"
    using ins by (simp add: sql_CreateTransfer_Inr)
  show "posted1 ?d t (working w')"
    unfolding posted1_def using p val rev ob tf unfolding f g by metis
  show "committed w' = committed w" by (rule com)
  show "t = transfer_of (trID t) input now eventAt md" by (rule t(1))
  have acc: "accountsT (working w') = update_rows accID (ciTo input) (credited b t)
       (update_rows accID (ciFrom input) (debited a t) (accountsT ?d))"
    using sql_CreateOutboxEvent_Inr(3) [OF ob] unfolding f g by (simp add: post_def tf)
  define d1 where "d1 = ?d\<lparr>accountsT := update_rows accID (ciFrom input) (debited a t) (accountsT ?d)\<rparr>"
  have m1: "mirrors (m(ciFrom input \<mapsto> touch fa (accBalance fa - ciAmount input))) d1"
    by (rule touched_mirrors [OF m ma a(1) va v(1), where now = now]) (simp add: d1_def f)
  have b1: "find_row accID (ciTo input) (accountsT d1) = Some b"
    unfolding d1_def using update_account_other [OF b(1)] ne by (simp add: debited_def)
  show "mirrors m' (working w')"
    unfolding m' by (rule touched_mirrors [OF m1 _ b1 vb v(2), where now = now]) (use mb ne acc g in \<open>simp_all add: d1_def\<close>)
  show "\<exists>x. m (ciFrom input) = Some x \<and> m' (ciFrom input) \<noteq> None \<and>
      map_option accCurrency (m' (ciFrom input)) = Some (accCurrency x)"
    using ma m' ne by (simp add: touch_def)
qed

section \<open>A posted batch keeps the invariant\<close>

lemma debited_simps [simp]:
  "accID (debited a t x) = accID x" "accCurrency (debited a t x) = accCurrency x"
  "accEncumbered (debited a t x) = accEncumbered x" "accBalance (debited a t x) = accBalance a - trAmount t"
  "accVersion (debited a t x) = accVersion x + 1"
  by (simp_all add: debited_def)

lemma credited_simps [simp]:
  "accID (credited a t x) = accID x" "accCurrency (credited a t x) = accCurrency x"
  "accEncumbered (credited a t x) = accEncumbered x" "accBalance (credited a t x) = accBalance a + trAmount t"
  "accVersion (credited a t x) = accVersion x + 1"
  by (simp_all add: credited_def)

lemma post_holds:
  assumes p: "posts d t e1 e2 f g a b" and k: "keys_ok d" and h: "holds_ok d"
    and "\<And>x. accEncumbered (f x) = accEncumbered x" "\<And>x. accEncumbered (g x) = accEncumbered x"
  shows "holds_ok (post t e1 e2 f g d)"
proof -
  have hs: "holdsT (post t e1 e2 f g d) = holdsT d" by (simp add: post_def)
  have ids: "accID ` set (accountsT (post t e1 e2 f g d)) = accID ` set (accountsT d)"
    using p by (simp add: post_def posts_def)
  have "\<exists>y \<in> set (accountsT d). accID x = accID y \<and> accEncumbered x = accEncumbered y"
    if mem: "x \<in> set (accountsT (post t e1 e2 f g d))" for x
  proof -
    obtain y where "y \<in> set (accountsT d)" "x = f y \<or> x = g y \<or> x = y \<or> x = g (f y)"
      using mem by (auto simp: post_def set_update_rows split: if_splits)
    moreover have "accID (f y) = accID y" "accID (g y) = accID y" for y
      using p by (simp_all add: posts_def keeps_identity_def)
    ultimately show ?thesis using assms(4,5) by metis
  qed
  then show ?thesis using h unfolding holds_ok_def hs ids by fastforce
qed

lemma posted1_inv: "posted1 d t d' \<Longrightarrow> ledger_inv d \<Longrightarrow> ledger_inv d'"
proof -
  assume "posted1 d t d'" and inv: "ledger_inv d"
  then obtain a b e1 e2 i row where p: "posts d t e1 e2 (debited a t) (credited b t) a b"
    and ob: "sql_CreateOutboxEvent (transferEvent i t (trCreatedAt t))
       (post t e1 e2 (debited a t) (credited b t) d) = Inr (row, d')"
    unfolding posted1_def by blast
  note parts = outbox_insert_parts [OF ob]
  have k: "keys_ok d" using inv by (simp add: ledger_inv_def)
  then show "ledger_inv d'"
    using inv post_parts [OF p] post_holds [OF p k] post_outbox [of t e1 e2 _ _ d]
      outbox_insert(1) [OF _ ob] parts unfolding ledger_inv_def by simp
qed

lemma posted_inv: "posted d ts d' \<Longrightarrow> ledger_inv d \<Longrightarrow> ledger_inv d'"
  by (induction ts arbitrary: d) (auto dest: posted1_inv)

lemma posted_append: "posted d (ts @ us) d' \<longleftrightarrow> (\<exists>d1. posted d ts d1 \<and> posted d1 us d')"
  by (induction ts arbitrary: d) auto

text \<open>What a posted batch leaves alone.\<close>

lemma posted1_frame:
  assumes "posted1 d t d'"
  shows "holdsT d' = holdsT d \<and> auditT d' = auditT d \<and> chainHash d' = chainHash d \<and>
     chainSeq d' = chainSeq d \<and> transfersT d' = transfersT d @ [t] \<and>
     map accID (accountsT d') = map accID (accountsT d)"
proof -
  obtain a b e1 e2 i row where "keeps_identity (debited a t)" "keeps_identity (credited b t)"
    "sql_CreateOutboxEvent (transferEvent i t (trCreatedAt t))
       (post t e1 e2 (debited a t) (credited b t) d) = Inr (row, d')"
    using assms unfolding posted1_def posts_def by blast
  then show ?thesis using sql_CreateOutboxEvent_Inr(3) [OF \<open>sql_CreateOutboxEvent _ _ = _\<close>]
    by (simp add: post_def)
qed

lemma posted_frame:
  "posted d ts d' \<Longrightarrow> holdsT d' = holdsT d \<and> auditT d' = auditT d \<and> chainHash d' = chainHash d \<and>
     chainSeq d' = chainSeq d \<and> transfersT d' = transfersT d @ ts \<and>
     map accID (accountsT d') = map accID (accountsT d)"
proof (induction ts arbitrary: d)
  case (Cons t ts)
  then obtain d1 where "posted1 d t d1" "posted d1 ts d'" by auto
  then show ?case using Cons.IH [of d1] posted1_frame [of d t d1] by simp
qed simp

section \<open>The exact effect on balances\<close>

definition balance_of :: "'d db \<Rightarrow> string \<Rightarrow> 'd option" where
  "balance_of d i = map_option accBalance (find_row accID i (accountsT d))"

definition encumbered_of :: "'d db \<Rightarrow> string \<Rightarrow> 'd option" where
  "encumbered_of d i = map_option accEncumbered (find_row accID i (accountsT d))"

text \<open>What one transfer, and a list of them, adds to an account.\<close>

definition moved :: "string \<Rightarrow> 'd::linordered_idom transfer \<Rightarrow> 'd" where
  "moved i t = (if trTo t = i then trAmount t else 0) - (if trFrom t = i then trAmount t else 0)"

lemma posts_find:
  assumes "posts d t e1 e2 f g a b"
  shows "find_row accID i (accountsT (post t e1 e2 f g d)) =
     (if i = trFrom t then Some (f a) else if i = trTo t then Some (g b)
      else find_row accID i (accountsT d))"
proof -
  have kf: "accID (f x) = accID x" and kg: "accID (g x) = accID x" for x
    using assms by (simp_all add: posts_def keeps_identity_def)
  show ?thesis
    using assms by (auto simp: post_def posts_def find_row_update kf kg)
qed

lemma posted1_account:
  assumes "posted1 d t d'"
  obtains a b where "find_row accID (trFrom t) (accountsT d) = Some a"
    "find_row accID (trTo t) (accountsT d) = Some b" "trFrom t \<noteq> trTo t" "0 < trAmount t"
    "ValidateDebit a (trAmount t) = None" "ValidateCredit b (trAmount t) = None"
    "accCurrency a = accCurrency b"
    "\<And>i. find_row accID i (accountsT d') =
       (if i = trFrom t then Some (debited a t a) else if i = trTo t then Some (credited b t b)
        else find_row accID i (accountsT d))"
proof -
  obtain a b e1 e2 i row where p: "posts d t e1 e2 (debited a t) (credited b t) a b"
    and v: "ValidateDebit a (trAmount t) = None" "ValidateCredit b (trAmount t) = None"
    and ob: "sql_CreateOutboxEvent (transferEvent i t (trCreatedAt t))
       (post t e1 e2 (debited a t) (credited b t) d) = Inr (row, d')"
    using assms unfolding posted1_def by blast
  have "accountsT d' = accountsT (post t e1 e2 (debited a t) (credited b t) d)"
    using sql_CreateOutboxEvent_Inr(3) [OF ob] by simp
  then show thesis
    using p v posts_find [OF p] by (intro that [of a b]) (simp_all add: posts_def)
qed

lemma posted1_balance:
  "posted1 d t d' \<Longrightarrow> balance_of d' i = map_option (\<lambda>b. b + moved i t) (balance_of d i)"
  by (erule posted1_account) (auto simp: balance_of_def moved_def option.map_comp comp_def option.map_ident)

lemma posted_balance:
  "posted d ts d' \<Longrightarrow> balance_of d' i = map_option (\<lambda>b. b + sum_list (map (moved i) ts)) (balance_of d i)"
proof (induction ts arbitrary: d)
  case (Cons t ts)
  then obtain d1 where "posted1 d t d1" "posted d1 ts d'" by auto
  then show ?case using Cons.IH [of d1] posted1_balance [of d t d1 i]
    by (simp add: option.map_comp comp_def add.assoc)
qed (simp add: option.map_ident)

lemma posted1_encumbered: "posted1 d t d' \<Longrightarrow> encumbered_of d' i = encumbered_of d i"
  by (erule posted1_account) (auto simp: encumbered_of_def)

lemma posted_encumbered: "posted d ts d' \<Longrightarrow> encumbered_of d' i = encumbered_of d i"
  by (induction ts arbitrary: d) (auto dest: posted1_encumbered [of _ _ _ i])

lemma same_ledger_observe:
  assumes "same_ledger d d'"
  shows "balance_of d' i = balance_of d i" "encumbered_of d' i = encumbered_of d i"
    "holdsT d' = holdsT d" "transfersT d' = transfersT d" "entriesT d' = entriesT d"
  using assms by (simp_all add: same_ledger_def balance_of_def encumbered_of_def)

section \<open>The batch, the transaction, the use case\<close>

definition asked :: "metadata \<Rightarrow> int \<Rightarrow> int \<Rightarrow> 'd CreateTransferInput \<Rightarrow> 'd transfer \<Rightarrow> bool" where
  "asked md now eventAt ti t \<longleftrightarrow>
     t = transfer_of (trID t) ti now eventAt (if ciMetadata ti \<noteq> None then ciMetadata ti else md)"

lemma transfer_of_simps [simp]:
  "trFrom (transfer_of i ti now ev md) = ciFrom ti" "trTo (transfer_of i ti now ev md) = ciTo ti"
  "trAmount (transfer_of i ti now ev md) = ciAmount ti" "trReversed (transfer_of i ti now ev md) = ciReversed ti"
  "trCreatedAt (transfer_of i ti now ev md) = now" "trEventAt (transfer_of i ti now ev md) = ev"
  "trMetadata (transfer_of i ti now ev md) = md" "trID (transfer_of i ti now ev md) = i"
  by (simp_all add: transfer_of_def)

lemma asked_fields:
  assumes "asked md now ev ti t"
  shows "trFrom t = ciFrom ti" "trTo t = ciTo ti" "trAmount t = ciAmount ti" "trReversed t = ciReversed ti"
  using assms unfolding asked_def by (metis transfer_of_simps)+

lemma processAll_posted:
  assumes "processAll E m tis now eventAt md w = (Inr r, w')"
    and "mirrors m (working w)" and "ledger_inv (working w)"
  shows "posted (working w) (map fst r) (working w')" "committed w' = committed w"
    "list_all2 (asked md now eventAt) tis (map fst r)"
proof -
  have "posted (working w) (map fst r) (working w') \<and> committed w' = committed w \<and>
      list_all2 (asked md now eventAt) tis (map fst r)"
    using assms
  proof (induction tis arbitrary: m w r)
    case Nil
    then show ?case by (auto simp: run_simps)
  next
    case (Cons ti tis)
    let ?md = "if ciMetadata ti \<noteq> None then ciMetadata ti else md"
    obtain t m' w1 c r1 where one: "processTransfer E m ti now eventAt ?md w = (Inr (t, m'), w1)"
      and rest: "processAll E m' tis now eventAt md w1 = (Inr r1, w')" and r: "r = (t, c) # r1"
      using Cons.prems(1) by (auto simp: run_simps Let_def)
    have k: "keys_ok (working w)" "chains_ok (working w)" using Cons.prems(3) by (simp_all add: ledger_inv_def)
    note p = processTransfer_posted [OF one Cons.prems(2) k]
    have "ledger_inv (working w1)" using posted1_inv [OF p(1) Cons.prems(3)] .
    then show ?case using Cons.IH [OF rest p(2)] p(1,3,4) r by (auto simp: asked_def)
  qed
  then show "posted (working w) (map fst r) (working w')" "committed w' = committed w"
    "list_all2 (asked md now eventAt) tis (map fst r)" by simp_all
qed

text \<open>Audit rows inside the transaction.\<close>

definition audit_appended :: "'d db \<Rightarrow> 'd db \<Rightarrow> bool" where
  "audit_appended d d' \<longleftrightarrow>
     (\<exists>rows. auditT d' = auditT d @ rows \<and> chainSeq d' = chainSeq d + int (length rows) \<and>
        (rows = [] \<or> chainSeq d' \<le> max_int64))"

lemma audit_appended_refl [simp]: "audit_appended d d"
  by (simp add: audit_appended_def)

lemma audit_appended_trans:
  assumes "audit_appended a b" and "audit_appended b c"
  shows "audit_appended a c"
proof -
  obtain xs ys where "auditT b = auditT a @ xs" "chainSeq b = chainSeq a + int (length xs)"
    "xs = [] \<or> chainSeq b \<le> max_int64" "auditT c = auditT b @ ys"
    "chainSeq c = chainSeq b + int (length ys)" "ys = [] \<or> chainSeq c \<le> max_int64"
    using assms unfolding audit_appended_def by blast
  then show ?thesis unfolding audit_appended_def by (intro exI [of _ "xs @ ys"]) auto
qed

lemma audit_appended_insert: "sql_CreateAuditLog H l d = Inr (u, d') \<Longrightarrow> audit_appended d d'"
  by (auto simp: audit_appended_def sql_CreateAuditLog_def Let_def split: if_splits)

definition audits_only :: "hasher \<Rightarrow> 'd db \<Rightarrow> 'd db \<Rightarrow> bool" where
  "audits_only H d d' \<longleftrightarrow> same_ledger d d' \<and> (audit_ok H d \<longrightarrow> audit_ok H d') \<and> audit_appended d d'"

lemma audits_only_refl [simp]: "audits_only H d d"
  by (simp add: audits_only_def)

lemma audits_only_trans: "audits_only H a b \<Longrightarrow> audits_only H b c \<Longrightarrow> audits_only H a c"
  unfolding audits_only_def using same_ledger_trans audit_appended_trans by blast

lemma auditRepo_CreateTx_only:
  "auditRepo_CreateTx E l w = (Inr u, w') \<Longrightarrow>
     audits_only (envHasher E) (working w) (working w') \<and> committed w' = committed w"
  by (auto simp: auditRepo_CreateTx_def run_simps audits_only_def dest: same_ledger_audit audit_ok_insert audit_appended_insert)

lemma auditRepo_Create_appended:
  "auditRepo_Create E l w = (r, w') \<Longrightarrow> audit_appended (committed w) (committed w')"
  by (cases r) (auto simp: auditRepo_Create_def poolStmt_Inr dest: poolStmt_Inl audit_appended_insert)

lemma auditRepo_Create_only:
  "auditRepo_Create E l w = (r, w') \<Longrightarrow> audits_only (envHasher E) (committed w) (committed w')"
  unfolding audits_only_def using auditRepo_Create_ledger auditRepo_Create_ok auditRepo_Create_appended by blast

lemma auditTransfer_only:
  "auditTransfer E ctx t w = (Inr u, w') \<Longrightarrow>
     audits_only (envHasher E) (working w) (working w') \<and> committed w' = committed w"
  by (auto simp: auditTransfer_def run_simps dest!: auditRepo_CreateTx_only)

lemma forM_Inr_induct:
  assumes "forM f xs w = (Inr ys, w')"
    and "\<And>w. P w w" and "\<And>u v w. P u v \<Longrightarrow> P v w \<Longrightarrow> P u w"
    and "\<And>x y w w'. x \<in> set xs \<Longrightarrow> f x w = (Inr y, w') \<Longrightarrow> P w w'"
  shows "P w w'"
  using assms(1,4)
proof (induction xs arbitrary: w ys)
  case Nil
  then show ?case using assms(2) by (simp add: run_simps)
next
  case (Cons x xs)
  then obtain y w1 zs where "f x w = (Inr y, w1)" "forM f xs w1 = (Inr zs, w')" by (auto simp: run_simps)
  then show ?case using Cons.IH Cons.prems(2) assms(3) by (metis list.set_intros)
qed

lemma auditTransfers_only:
  assumes "forM (auditTransfer E ctx) ts w = (Inr u, w')"
  shows "audits_only (envHasher E) (working w) (working w') \<and> committed w' = committed w"
  by (rule forM_Inr_induct [OF assms]) (auto dest: auditTransfer_only audits_only_trans)

text \<open>What a transaction that went through did to the database it started from.\<close>

definition batch_done :: "hasher \<Rightarrow> 'd::linordered_idom CreateBatchTransferInput \<Rightarrow> 'd transfer list \<Rightarrow>
    'd db \<Rightarrow> 'd db \<Rightarrow> bool" where
  "batch_done H input ts d d' \<longleftrightarrow>
     (\<exists>d1 now eventAt. posted d ts d1 \<and> audits_only H d1 d' \<and>
        list_all2 (asked (cbMetadata input) now eventAt) (cbTransfers input) ts \<and>
        (\<forall>t. cbEventAt input = Some t \<longrightarrow> eventAt = t))"

lemma transferBody_done:
  assumes run: "transferBody E ctx input ids w = (Inr (ts, cs), w')" and inv: "ledger_inv (working w)"
  shows "batch_done (envHasher E) input ts (working w) (working w')" "committed w' = committed w"
proof -
  obtain m w1 w2 r w3 where
    lock: "lockAccounts E ids w = (Inr m, w1)" and
    now: "Now E w1 = (Inr (envNow E (nowCount w1)), w2)" and
    all: "processAll E m (cbTransfers input) (envNow E (nowCount w1))
       (case cbEventAt input of Some t \<Rightarrow> t | None \<Rightarrow> envNow E (nowCount w1)) (cbMetadata input) w2 = (Inr r, w3)" and
    aud: "\<exists>u. (if envAudit E then forM (auditTransfer E ctx) (map fst r) else returnM []) w3 = (Inr u, w')" and
    ts: "ts = map fst r"
    using run by (auto simp: transferBody_def bindM_Inr Let_def Now_Inr)
  have w2: "working w2 = working w" "committed w2 = committed w"
    using lockAccounts_Inr [OF lock] now by (auto simp: Now_Inr)
  have k: "keys_ok (working w)" using inv by (simp add: ledger_inv_def)
  have m: "mirrors m (working w2)"
    using lockAccounts_mirrors [OF lock k] lockAccounts_Inr(2) [OF lock] w2 by simp
  note p = processAll_posted [OF all m] w2 inv
  have a: "audits_only (envHasher E) (working w3) (working w') \<and> committed w' = committed w3"
    using aud by (auto simp: run_simps dest: auditTransfers_only split: if_splits)
  show "committed w' = committed w" using a p w2 inv by simp
  show "batch_done (envHasher E) input ts (working w) (working w')"
    unfolding batch_done_def using p a w2 inv ts by (fastforce split: option.splits)
qed

lemma keeps_postTransfer [frame_intros]: "keeps committed (postTransfer E m fa ta input now eventAt md)"
  unfolding postTransfer_def Let_def by (intro frame_intros)

lemma keeps_processTransfer [frame_intros]: "keeps committed (processTransfer E m input now eventAt md)"
  unfolding processTransfer_def by (auto split: option.splits intro!: frame_intros)

lemma keeps_processAll [frame_intros]: "keeps committed (processAll E m tis now eventAt md)"
  by (induction tis arbitrary: m) (auto intro!: frame_intros simp: Let_def split: prod.splits)

lemma keeps_transferBody [frame_intros]: "keeps committed (transferBody E ctx input ids)"
  unfolding transferBody_def lockAccounts_def auditTransfer_def Let_def
  by (auto intro!: frame_intros)

interpretation transfer_tx: transaction E "transferBody E ctx input ids"
    "executeTransferTransaction E ctx input ids" for E ctx input ids
  by unfold_locales (auto intro: frame_intros simp: executeTransferTransaction_def)

lemma executeTransferTransaction_done:
  assumes run: "executeTransferTransaction E ctx input ids w = (Inr (ts, cs), w')"
    and inv: "ledger_inv (committed w)"
  shows "batch_done (envHasher E) input ts (committed w) (committed w')"
proof -
  obtain w1 w2 where "working w1 = committed w" "transferBody E ctx input ids w1 = (Inr (ts, cs), w2)"
    "committed w' = working w2"
    using transfer_tx.tx_succeeded [OF run] by blast
  then show ?thesis using transferBody_done(1) [of E ctx input ids w1 ts cs w2] inv by simp
qed

lemma batch_done_inv: "batch_done H input ts d d' \<Longrightarrow> ledger_inv d \<Longrightarrow> ledger_inv d'"
  unfolding batch_done_def audits_only_def using posted_inv ledger_inv_same by blast

text \<open>Operations that touch nothing but the audit table of the committed database, whatever they
  return: the failure rows.\<close>

definition only_audits :: "hasher \<Rightarrow> ('d, 'a) act \<Rightarrow> bool" where
  "only_audits H m \<longleftrightarrow> (\<forall>w. audits_only H (committed w) (committed (snd (m w))))"

lemma only_auditsD: "only_audits H m \<Longrightarrow> m w = (r, w') \<Longrightarrow> audits_only H (committed w) (committed w')"
  by (metis only_audits_def snd_conv)

lemma only_audits_keeps: "keeps committed m \<Longrightarrow> only_audits H m"
  by (simp add: keeps_def only_audits_def)

lemma only_audits_bind:
  assumes "only_audits H m" and "\<And>x. only_audits H (f x)"
  shows "only_audits H (bindM m f)"
  unfolding only_audits_def
proof
  fix w
  obtain r w1 where m: "m w = (r, w1)" by (cases "m w")
  note a = only_auditsD [OF assms(1) m]
  show "audits_only H (committed w) (committed (snd (bindM m f w)))"
  proof (cases r)
    case (Inl e)
    then show ?thesis using m a by (simp add: bindM_err_run)
  next
    case (Inr x)
    then have "bindM m f w = f x w1" using m by (simp add: bindM_cong_run)
    then show ?thesis using a assms(2) audits_only_trans unfolding only_audits_def by metis
  qed
qed

lemma only_audits_ignore: "only_audits H m \<Longrightarrow> only_audits H (ignoreM m)"
  by (simp add: only_audits_def ignoreM_def)

lemma only_audits_forM: "(\<And>x. only_audits H (f x)) \<Longrightarrow> only_audits H (forM f xs)"
  by (induction xs) (auto intro!: only_audits_bind only_audits_keeps [OF keeps_return])

lemma only_audits_Create: "only_audits (envHasher E) (auditRepo_Create E l)"
  unfolding only_audits_def by (metis auditRepo_Create_only prod.collapse)

lemmas only_audits_intros =
  only_audits_bind only_audits_ignore only_audits_forM only_audits_Create
  only_audits_keeps [OF keeps_Generate(1)] only_audits_keeps [OF keeps_Now(1)]
  only_audits_keeps [OF keeps_return] only_audits_keeps [OF keeps_check]

lemma only_audits_failed: "only_audits (envHasher E) (auditFailedTransfers E ctx input e)"
  unfolding auditFailedTransfers_def auditFailedTransfer_def by (auto intro!: only_audits_intros)

section \<open>CreateBatchTransfer\<close>

lemma CreateBatchTransfer_failed:
  assumes run: "CreateBatchTransfer E R ctx input w = (Inl e, w')"
  shows "audits_only (envHasher E) (committed w) (committed w')"
proof -
  let ?tx = "executeTransferTransaction E ctx input (sort (collectUniqueAccountIDs (cbTransfers input)))"
  have atomic: "committed v' = committed v" if "?tx v = (Inl e, v')" for v e v'
    using that by (rule transfer_tx.tx_failed)
  obtain w1 where w': "w' = snd (auditFailedTransfers E ctx input e w1)"
    and "checkBatch input = Some e \<and> w1 = w \<or> Retry R ?tx w = (Inl e, w1)"
    using run unfolding CreateBatchTransfer_def onErrorM_Inl
    by (auto simp: bindM_Inl checkM_Inl checkM_Inr Let_def)
  moreover have "committed w1 = committed w" if "Retry R ?tx w = (Inl e, w1)"
    by (rule any_retrier.retry_atomic_failed [where operation = ?tx, OF _ that]) (rule atomic)
  ultimately have "committed w1 = committed w" by blast
  then show ?thesis using only_audits_failed [of E ctx input e] unfolding only_audits_def w' by metis
qed

lemma CreateBatchTransfer_succeeded:
  assumes run: "CreateBatchTransfer E R ctx input w = (Inr ts, w')" and inv: "ledger_inv (committed w)"
  shows "batch_done (envHasher E) input ts (committed w) (committed w')" "checkBatch input = None"
proof -
  let ?tx = "executeTransferTransaction E ctx input (sort (collectUniqueAccountIDs (cbTransfers input)))"
  have atomic: "committed v' = committed v" if "?tx v = (Inl e, v')" for v e v'
    using that by (rule transfer_tx.tx_failed)
  obtain cs where chk: "checkBatch input = None" and re: "Retry R ?tx w = (Inr (ts, cs), w')"
    using run by (auto simp: CreateBatchTransfer_def run_simps Let_def split: prod.splits)
  show "checkBatch input = None" by (rule chk)
  obtain v where "committed v = committed w" "?tx v = (Inr (ts, cs), w')"
    by (rule any_retrier.retry_atomic_succeeded [where operation = ?tx and p = committed, OF _ re]) (rule atomic)
  then show "batch_done (envHasher E) input ts (committed w) (committed w')"
    using executeTransferTransaction_done inv by metis
qed

lemma CreateBatchTransfer_inv:
  assumes "CreateBatchTransfer E R ctx input w = (r, w')" and "ledger_inv (committed w)"
  shows "ledger_inv (committed w')"
proof (cases r)
  case (Inl e)
  then have "same_ledger (committed w) (committed w')"
    using CreateBatchTransfer_failed [of E R ctx input w e w'] assms(1) by (simp add: audits_only_def)
  then show ?thesis using ledger_inv_same assms(2) by blast
next
  case (Inr ts)
  then show ?thesis using CreateBatchTransfer_succeeded(1) batch_done_inv assms by blast
qed

text \<open>What a batch that went through leaves behind, as seen from outside.\<close>

lemma batch_done_effect:
  assumes "batch_done H input ts d d'"
  shows "transfersT d' = transfersT d @ ts" "holdsT d' = holdsT d"
    "balance_of d' i = map_option (\<lambda>b. b + sum_list (map (moved i) ts)) (balance_of d i)"
    "encumbered_of d' i = encumbered_of d i"
    "map (\<lambda>t. (trFrom t, trTo t, trAmount t, trReversed t)) ts =
       map (\<lambda>ti. (ciFrom ti, ciTo ti, ciAmount ti, ciReversed ti)) (cbTransfers input)"
proof -
  obtain d1 now eventAt where p: "posted d ts d1" and a: "same_ledger d1 d'"
    and l: "list_all2 (asked (cbMetadata input) now eventAt) (cbTransfers input) ts"
    using assms by (auto simp: batch_done_def audits_only_def)
  note same = same_ledger_observe [OF a]
  show "transfersT d' = transfersT d @ ts" "holdsT d' = holdsT d"
    using posted_frame [OF p] same by simp_all
  show "balance_of d' i = map_option (\<lambda>b. b + sum_list (map (moved i) ts)) (balance_of d i)"
    using posted_balance [OF p] same(1) by simp
  show "encumbered_of d' i = encumbered_of d i" using posted_encumbered [OF p] same(2) by simp
  show "map (\<lambda>t. (trFrom t, trTo t, trAmount t, trReversed t)) ts =
       map (\<lambda>ti. (ciFrom ti, ciTo ti, ciAmount ti, ciReversed ti)) (cbTransfers input)"
    using l by (induction rule: list_all2_induct) (simp_all add: asked_fields)
qed

end
