(* ===== verification/HoldLaws.thy ===== *)
theory HoldLaws
  imports HoldUC AccountUC TransferLaws
begin

text \<open>
  What the hold and account use cases do to the ledger: the exact effect of a successful hold,
  void and capture, that each keeps the ledger invariant, and that a failure changes no money
  table. Under the invariant the clamp of \<^verbatim>\<open>VoidHold\<close> never acts.
\<close>

section \<open>Effects\<close>

definition active_sum :: "'d::linordered_idom hold list \<Rightarrow> string \<Rightarrow> 'd" where
  "active_sum hs i = sum_list (map hoAmount (active_holds hs i))"

definition held :: "'d::linordered_idom db \<Rightarrow> 'd hold \<Rightarrow> 'd db \<Rightarrow> bool" where
  "held d h d' \<longleftrightarrow>
     (\<exists>a i row.
        find_row accID (hoAccount h) (accountsT d) = Some a \<and>
        hoStatus h = HoldStatusActive \<and> 0 < hoAmount h \<and> hoID h \<notin> hoID ` set (holdsT d) \<and>
        ValidateDebit a (hoAmount h) = None \<and>
        account_check (set_encumbered (accEncumbered a + hoAmount h) (hoCreatedAt h) a) = None \<and>
        sql_CreateOutboxEvent (holdEvent i h (accCurrency a) (hoCreatedAt h))
          (with_account (hoAccount h)
             (set_encumbered (accEncumbered a + hoAmount h) (hoCreatedAt h))
             (d\<lparr>holdsT := holdsT d @ [h]\<rparr>)) = Inr (row, d'))"

definition released :: "'d::linordered_idom db \<Rightarrow> 'd hold \<Rightarrow> int \<Rightarrow> 'd db \<Rightarrow> bool" where
  "released d h now d' \<longleftrightarrow>
     (\<exists>a i row n.
        h \<in> set (holdsT d) \<and> hoStatus h = HoldStatusActive \<and>
        find_row accID (hoAccount h) (accountsT d) = Some a \<and>
        n = (if accEncumbered a - hoAmount h < 0 then 0 else accEncumbered a - hoAmount h) \<and>
        account_check (set_encumbered n now a) = None \<and>
        sql_CreateOutboxEvent (voidEvent i h now)
          (with_account (hoAccount h) (set_encumbered n now)
             (d\<lparr>holdsT := update_rows hoID (hoID h) (set_status HoldStatusVoided now) (holdsT d)\<rparr>))
          = Inr (row, d'))"

definition captured :: "'d::linordered_idom db \<Rightarrow> 'd hold \<Rightarrow> 'd transfer \<Rightarrow> 'd db \<Rightarrow> bool" where
  "captured d h t d' \<longleftrightarrow>
     (\<exists>a b e1 e2 i row.
        h \<in> set (holdsT d) \<and> hoStatus h = HoldStatusActive \<and>
        trFrom t = hoAccount h \<and> trAmount t = hoAmount h \<and> trReversed t = None \<and>
        posts d t e1 e2
          (set_both (accBalance a - hoAmount h) (accEncumbered a - hoAmount h) (trCreatedAt t))
          (credited b t) a b \<and>
        ValidateCredit b (hoAmount h) = None \<and>
        sql_CreateOutboxEvent (captureEvent i h t (trTo t) (trCreatedAt t))
          ((post t e1 e2
             (set_both (accBalance a - hoAmount h) (accEncumbered a - hoAmount h) (trCreatedAt t))
             (credited b t) d)
           \<lparr>holdsT := update_rows hoID (hoID h) (set_status HoldStatusCaptured (trCreatedAt t)) (holdsT d)\<rparr>)
          = Inr (row, d'))"

section \<open>Each effect keeps the invariant\<close>

lemma holds_table_parts:
  "checks_ok (d\<lparr>holdsT := hs\<rparr>) \<longleftrightarrow> checks_ok d" "chains_ok (d\<lparr>holdsT := hs\<rparr>) \<longleftrightarrow> chains_ok d"
  "transfers_ok (d\<lparr>holdsT := hs\<rparr>) \<longleftrightarrow> transfers_ok d" "reversals_ok (d\<lparr>holdsT := hs\<rparr>) \<longleftrightarrow> reversals_ok d"
  "outbox_ok (d\<lparr>holdsT := hs\<rparr>) \<longleftrightarrow> outbox_ok d"
  "distinct (map hoID hs) \<Longrightarrow> keys_ok d \<Longrightarrow> keys_ok (d\<lparr>holdsT := hs\<rparr>)"
  by (simp_all add: checks_ok_def chains_ok_def transfers_ok_def reversals_ok_def outbox_ok_def
      keys_ok_def double_entry_def currency_of_def account_entries_def transfer_entries_def)

lemma holds_ok_sum:
  "holds_ok d \<Longrightarrow> a \<in> set (accountsT d) \<Longrightarrow> accEncumbered a = active_sum (holdsT d) (accID a)"
  by (simp add: holds_ok_def active_sum_def)

lemma with_account_holds:
  assumes "keys_ok d" and row: "find_row accID i (accountsT d) = Some a" and "keeps_identity f"
    and pos: "\<forall>h \<in> set hs. 0 < hoAmount h \<and> hoAccount h \<in> accID ` set (accountsT d)"
    and ok: "holds_ok d" and other: "\<And>j. j \<noteq> i \<Longrightarrow> active_sum hs j = active_sum (holdsT d) j"
    and new: "accEncumbered (f a) = active_sum hs i"
  shows "holds_ok (with_account i f (d\<lparr>holdsT := hs\<rparr>))"
proof -
  let ?d = "with_account i f (d\<lparr>holdsT := hs\<rparr>)"
  have "accEncumbered x = active_sum hs (accID x)" if x: "x \<in> set (accountsT ?d)" for x
  proof -
    have "x \<in> set (accountsT (with_account i f d))" using x by (simp add: with_account_def)
    then consider "x = f a" | "x \<in> set (accountsT d)" "accID x \<noteq> i"
      using with_account_row [OF assms(1) row keeps_identityD [OF assms(3)]] by blast
    then show ?thesis
    proof cases
      case 1
      then show ?thesis using new find_row_Some [OF row] keeps_identityD [OF assms(3)] by simp
    next
      case 2
      then show ?thesis using other holds_ok_sum [OF ok] by simp
    qed
  qed
  then show ?thesis using pos assms(3) by (simp add: holds_ok_def active_sum_def with_account_def)
qed

lemma held_inv: "held d h d' \<Longrightarrow> ledger_inv d \<Longrightarrow> ledger_inv d'"
proof -
  assume "held d h d'" and inv: "ledger_inv d"
  let ?f = "\<lambda>a. set_encumbered (accEncumbered a + hoAmount h) (hoCreatedAt h)"
  let ?hs = "holdsT d @ [h]"
  obtain a i row where a: "find_row accID (hoAccount h) (accountsT d) = Some a"
    and h: "hoStatus h = HoldStatusActive" "0 < hoAmount h" "hoID h \<notin> hoID ` set (holdsT d)"
    and chk: "account_check (?f a a) = None"
    and ob: "sql_CreateOutboxEvent (holdEvent i h (accCurrency a) (hoCreatedAt h))
          (with_account (hoAccount h) (?f a) (d\<lparr>holdsT := ?hs\<rparr>)) = Inr (row, d')"
    using \<open>held d h d'\<close> unfolding held_def by blast
  have k: "keys_ok d" and hok: "holds_ok d" using inv by (simp_all add: ledger_inv_def)
  have k': "keys_ok (d\<lparr>holdsT := ?hs\<rparr>)"
    by (rule holds_table_parts(6) [OF _ k]) (use k h in \<open>simp add: keys_ok_def\<close>)
  have a': "find_row accID (hoAccount h) (accountsT (d\<lparr>holdsT := ?hs\<rparr>)) = Some a" using a by simp
  have "active_sum ?hs j = active_sum (holdsT d) j + (if hoAccount h = j then hoAmount h else 0)" for j
    using h by (simp add: active_sum_def active_holds_append)
  moreover have "accEncumbered a = active_sum (holdsT d) (hoAccount h)"
    using holds_ok_sum [OF hok] find_row_Some [OF a] by auto
  moreover have "hoAccount h \<in> accID ` set (accountsT d)" by (rule find_row_key [OF a])
  ultimately have "holds_ok (with_account (hoAccount h) (?f a) (d\<lparr>holdsT := ?hs\<rparr>))"
    using hok h by (intro with_account_holds [OF k a]) (auto simp: holds_ok_def)
  moreover note with_account_parts [where f = "?f a", OF _ _ _ chk a' k']
  ultimately show "ledger_inv d'"
    using inv outbox_insert(1) [OF _ ob] outbox_insert_parts [OF ob]
    unfolding ledger_inv_def by (simp add: holds_table_parts(1-5))
qed

lemma set_status_simps [simp]:
  "hoID (set_status st t h) = hoID h" "hoAccount (set_status st t h) = hoAccount h"
  "hoAmount (set_status st t h) = hoAmount h" "hoStatus (set_status st t h) = st"
  by (simp_all add: set_status_def)

lemma ended_holds:
  fixes now :: int
  assumes k: "keys_ok d" and ok: "holds_ok d" and h: "h \<in> set (holdsT d)" "hoStatus h = HoldStatusActive"
    and st: "st \<noteq> HoldStatusActive"
  defines "hs \<equiv> update_rows hoID (hoID h) (set_status st now) (holdsT d)"
  shows "active_sum hs j = active_sum (holdsT d) j - (if hoAccount h = j then hoAmount h else 0)"
    and "\<forall>h \<in> set hs. 0 < hoAmount h \<and> hoAccount h \<in> accID ` set (accountsT d)"
    and "distinct (map hoID hs)" and "hoAmount h \<le> active_sum (holdsT d) (hoAccount h)"
proof -
  have dist: "distinct (map hoID (holdsT d))" using k by (simp add: keys_ok_def)
  show "active_sum hs j = active_sum (holdsT d) j - (if hoAccount h = j then hoAmount h else 0)"
    unfolding active_sum_def hs_def by (rule active_sum_end [OF dist h st])
  show "\<forall>h \<in> set hs. 0 < hoAmount h \<and> hoAccount h \<in> accID ` set (accountsT d)"
    using ok unfolding holds_ok_def hs_def set_update_rows Ball_def by auto
  show "distinct (map hoID hs)" using dist by (simp add: hs_def)
  show "hoAmount h \<le> active_sum (holdsT d) (hoAccount h)"
    unfolding active_sum_def using ok h by (intro active_sum_member) (auto simp: holds_ok_def)
qed

text \<open>The amount of an active hold is part of what its account has encumbered: \<^verbatim>\<open>VoidHold\<close> never
  clamps, and a capture never takes the encumbrance below zero.\<close>

lemma active_hold_covered:
  assumes inv: "ledger_inv d" and h: "h \<in> set (holdsT d)" "hoStatus h = HoldStatusActive"
    and a: "find_row accID (hoAccount h) (accountsT d) = Some a"
  shows "hoAmount h \<le> accEncumbered a" "0 < hoAmount h"
proof -
  have ok: "holds_ok d" and k: "keys_ok d" using inv by (simp_all add: ledger_inv_def)
  have "hoAmount h \<le> active_sum (holdsT d) (hoAccount h)"
    using ended_holds(4) [OF k ok h, of HoldStatusVoided] by simp
  then show "hoAmount h \<le> accEncumbered a" using holds_ok_sum [OF ok] find_row_Some [OF a] by auto
  show "0 < hoAmount h" using ok h by (auto simp: holds_ok_def)
qed

lemma released_inv: "released d h now d' \<Longrightarrow> ledger_inv d \<Longrightarrow> ledger_inv d'"
proof -
  assume "released d h now d'" and inv: "ledger_inv d"
  let ?hs = "update_rows hoID (hoID h) (set_status HoldStatusVoided now) (holdsT d)"
  obtain a i row n where h: "h \<in> set (holdsT d)" "hoStatus h = HoldStatusActive"
    and a: "find_row accID (hoAccount h) (accountsT d) = Some a"
    and n: "n = (if accEncumbered a - hoAmount h < 0 then 0 else accEncumbered a - hoAmount h)"
    and chk: "account_check (set_encumbered n now a) = None"
    and ob: "sql_CreateOutboxEvent (voidEvent i h now)
          (with_account (hoAccount h) (set_encumbered n now) (d\<lparr>holdsT := ?hs\<rparr>)) = Inr (row, d')"
    using \<open>released d h now d'\<close> unfolding released_def by blast
  have k: "keys_ok d" and hok: "holds_ok d" using inv by (simp_all add: ledger_inv_def)
  note e = ended_holds(1-3) [OF k hok h, where st = HoldStatusVoided and now = now, simplified]
  have n': "n = accEncumbered a - hoAmount h"
    using n active_hold_covered [OF inv h a] by simp
  have enc: "accEncumbered a = active_sum (holdsT d) (hoAccount h)"
    using holds_ok_sum [OF hok] find_row_Some [OF a] by auto
  have k': "keys_ok (d\<lparr>holdsT := ?hs\<rparr>)" by (rule holds_table_parts(6)) (use e(3) k in simp_all)
  have a': "find_row accID (hoAccount h) (accountsT (d\<lparr>holdsT := ?hs\<rparr>)) = Some a" using a by simp
  have "holds_ok (with_account (hoAccount h) (set_encumbered n now) (d\<lparr>holdsT := ?hs\<rparr>))"
    using e(1) enc n' by (intro with_account_holds [OF k a _ e(2) hok]) auto
  moreover note with_account_parts [where f = "set_encumbered n now", OF _ _ _ chk a' k']
  ultimately show "ledger_inv d'"
    using inv outbox_insert(1) [OF _ ob] outbox_insert_parts [OF ob]
    unfolding ledger_inv_def by (simp add: holds_table_parts(1-5))
qed

lemma set_both_encumbered [simp]: "accEncumbered (set_both b n t a) = n"
  by (simp add: set_both_def)

lemma captured_inv: "captured d h t d' \<Longrightarrow> ledger_inv d \<Longrightarrow> ledger_inv d'"
proof -
  assume cap: "captured d h t d'" and inv: "ledger_inv d"
  let ?hs = "update_rows hoID (hoID h) (set_status HoldStatusCaptured (trCreatedAt t)) (holdsT d)"
  let ?f = "\<lambda>a. set_both (accBalance a - hoAmount h) (accEncumbered a - hoAmount h) (trCreatedAt t)"
  obtain a b e1 e2 i row where h: "h \<in> set (holdsT d)" "hoStatus h = HoldStatusActive"
    and t: "trFrom t = hoAccount h" "trAmount t = hoAmount h"
    and p: "posts d t e1 e2 (?f a) (credited b t) a b"
    and ob: "sql_CreateOutboxEvent (captureEvent i h t (trTo t) (trCreatedAt t))
          ((post t e1 e2 (?f a) (credited b t) d)\<lparr>holdsT := ?hs\<rparr>) = Inr (row, d')"
    using cap unfolding captured_def by blast
  let ?p = "post t e1 e2 (?f a) (credited b t) d"
  have k: "keys_ok d" and hok: "holds_ok d" using inv by (simp_all add: ledger_inv_def)
  note e = ended_holds(1-3) [OF k hok h, where st = HoldStatusCaptured and now = "trCreatedAt t", simplified]
  note parts = post_parts [OF p]
  have rows: "find_row accID (trFrom t) (accountsT d) = Some a" "find_row accID (trTo t) (accountsT d) = Some b"
    and ne: "trFrom t \<noteq> trTo t"
    using p by (simp_all add: posts_def)
  have "accEncumbered x = active_sum ?hs (accID x)" if x: "x \<in> set (accountsT ?p)" for x
    using post_account [OF p k x]
  proof (elim disjE conjE)
    assume "x = ?f a a" "accID x = trFrom t"
    then show ?thesis using e(1) holds_ok_sum [OF hok] find_row_Some [OF rows(1)] t by auto
  next
    assume "x = credited b t b" "accID x = trTo t"
    then show ?thesis using e(1) holds_ok_sum [OF hok] find_row_Some [OF rows(2)] t ne by auto
  next
    assume "x \<in> set (accountsT d)" "accID x \<noteq> trFrom t"
    then show ?thesis using e(1) holds_ok_sum [OF hok] t by simp
  qed
  moreover have "accID ` set (accountsT ?p) = accID ` set (accountsT d)"
    using p by (simp add: post_def posts_def)
  ultimately have "holds_ok (?p\<lparr>holdsT := ?hs\<rparr>)"
    using e(2) by (simp add: holds_ok_def active_sum_def)
  moreover have "keys_ok (?p\<lparr>holdsT := ?hs\<rparr>)"
    by (rule holds_table_parts(6)) (use e(3) parts(1) [OF k] in simp_all)
  ultimately show "ledger_inv d'"
    using inv k parts outbox_insert(1) [OF _ ob] outbox_insert_parts [OF ob]
      post_outbox [of t e1 e2 "?f a" "credited b t" d]
    unfolding ledger_inv_def by (simp add: holds_table_parts(1-5))
qed

section \<open>The transactions have these effects\<close>

lemmas hold_steps =
  run_simps Let_def account_tx_defs holdRepo_Create_def holdRepo_GetByIDForUpdate_def
  holdRepo_UpdateStatus_def sql_GetAccountByIDForUpdate_def sql_GetHoldByIDForUpdate_def
  sql_UpdateAccountEncumbered_def sql_UpdateHoldStatus_def

lemma hold_events_version [simp]:
  "obEventVersion (holdEvent i h c now) = 1" "obEventVersion (voidEvent i h now) = 1"
  "obEventVersion (captureEvent i h t acc now) = 1"
  by (simp_all add: holdEvent_def voidEvent_def captureEvent_def)

lemma auditHoldTx_only:
  "auditHoldTx E ctx h w = (Inr u, w') \<Longrightarrow>
     audits_only (envHasher E) (working w) (working w') \<and> committed w' = committed w"
  by (auto simp: auditHoldTx_def run_simps split: if_splits dest!: auditRepo_CreateTx_only)

lemma update_account_found:
  "update_account i f d = Inr (u, d') \<Longrightarrow> find_row accID i (accountsT d) = Some a \<Longrightarrow>
   account_check (f a) = None \<and> d' = with_account i f d"
  by (simp add: update_account_Inr with_account_def)

text \<open>The account updates of the three transactions, as rewrites of the found row.\<close>

lemma UpdateEncumbered_Inr:
  assumes "accountRepo_UpdateEncumberedBalance E i n now w = (Inr u, w')"
    and "find_row accID i (accountsT (working w)) = Some a"
  shows "account_check (set_encumbered n now a) = None"
    "working w' = with_account i (set_encumbered n now) (working w)" "committed w' = committed w"
  using assms update_account_found [of i "set_encumbered n now" "working w"]
  by (auto simp: accountRepo_UpdateEncumberedBalance_def sql_UpdateAccountEncumbered_def run_simps)

lemma event_Inr:
  assumes "outboxRepo_Create E e w = (Inr x, w')" and "obEventVersion e = 1"
  obtains row where "sql_CreateOutboxEvent e (working w) = Inr (row, working w')" "committed w' = committed w"
  using assms by (auto simp: outboxRepo_Create_Inr)

lemma holdBody_held:
  assumes run: "holdBody E ctx acc amount w = (Inr h, w')"
  shows "\<exists>d1. held (working w) h d1 \<and> audits_only (envHasher E) d1 (working w')"
    and "committed w' = committed w" and "hoAccount h = acc" "hoAmount h = amount"
proof -
  let ?d = "working w"
  define now where "now = envNow E (nowCount w)"
  define w1 where "w1 = w\<lparr>callCount := Suc (callCount w), nowCount := Suc (nowCount w), idCount := Suc (idCount w)\<rparr>"
  have w1: "working w1 = ?d" "committed w1 = committed w" by (simp_all add: w1_def)
  obtain a w2 w3 x w4 where
    a: "find_row accID acc (accountsT ?d) = Some a" and v: "ValidateDebit a amount = None" and
    h: "h = newHold (envID E (idCount w)) acc amount now" and
    cr: "holdRepo_Create E h w1 = (Inr (), w2)" and
    up: "accountRepo_UpdateEncumberedBalance E acc (accEncumbered a + amount) now w2 = (Inr (), w3)" and
    ob: "outboxRepo_Create E (holdEvent (envID E (idCount w3)) h (accCurrency a) now)
       (w3\<lparr>idCount := Suc (idCount w3)\<rparr>) = (Inr x, w4)" and
    au: "auditHoldTx E ctx h w4 = (Inr (), w')"
    using run unfolding now_def w1_def
    by (auto simp: holdBody_def bindM_Inr checkM_Inr returnM_Inr Let_def accountRepo_GetByIDForUpdate_def
        sql_GetAccountByIDForUpdate_def translateM_Inr txStmt_Inr one_row_Inr Now_Inr Generate_Inr)
  have hh: "hoAccount h = acc" "hoAmount h = amount" "hoStatus h = HoldStatusActive" "hoCreatedAt h = now"
    by (simp_all add: h newHold_def)
  show "hoAccount h = acc" "hoAmount h = amount" by (rule hh)+
  have ins: "0 < hoAmount h" "hoID h \<notin> hoID ` set (holdsT ?d)"
      "working w2 = ?d\<lparr>holdsT := holdsT ?d @ [h]\<rparr>" "committed w2 = committed w"
    using cr w1 by (auto simp: holdRepo_Create_def run_simps)
  have a2: "find_row accID acc (accountsT (working w2)) = Some a" using a ins by simp
  note u = UpdateEncumbered_Inr [OF up a2]
  obtain row where row: "sql_CreateOutboxEvent (holdEvent (envID E (idCount w3)) h (accCurrency a) now)
      (working w3) = Inr (row, working w4)" and c4: "committed w4 = committed w3"
    using event_Inr [OF ob] by auto
  have "held ?d h (working w4)"
    unfolding held_def using a v ins u row hh by auto
  then show "\<exists>d1. held ?d h d1 \<and> audits_only (envHasher E) d1 (working w')"
    using auditHoldTx_only [OF au] by blast
  show "committed w' = committed w" using auditHoldTx_only [OF au] c4 u ins by simp
qed

lemma activeHold_Inr:
  assumes "activeHold E hid w = (Inr h, w')"
  shows "find_row hoID hid (holdsT (working w)) = Some h" "hoStatus h = HoldStatusActive"
    "working w' = working w" "committed w' = committed w"
  using assms by (auto simp: activeHold_def holdRepo_GetByIDForUpdate_def sql_GetHoldByIDForUpdate_def
      run_simps split: if_splits)

lemma voidBody_released:
  assumes run: "voidBody E hid w = (Inr u, w')"
  shows "\<exists>h now. find_row hoID hid (holdsT (working w)) = Some h \<and> released (working w) h now (working w')"
    and "committed w' = committed w"
proof -
  let ?d = "working w"
  obtain h w0 where act: "activeHold E hid w = (Inr h, w0)" and
    rest: "bindM (accountRepo_GetByIDForUpdate E (hoAccount h)) (\<lambda>account.
     bindM (Now E) (\<lambda>now.
     bindM (holdRepo_UpdateStatus E hid HoldStatusVoided now) (\<lambda>_.
     let newEncumbered = accEncumbered account - hoAmount h;
         newEncumbered = (if newEncumbered < 0 then 0 else newEncumbered) in
     bindM (accountRepo_UpdateEncumberedBalance E (hoAccount h) newEncumbered now) (\<lambda>_.
     bindM (Generate E) (\<lambda>oid.
     bindM (outboxRepo_Create E (voidEvent oid h now)) (\<lambda>_.
     returnM ())))))) w0 = (Inr (), w')"
    using run by (auto simp: voidBody_def bindM_Inr)
  note h = activeHold_Inr [OF act]
  define now where "now = envNow E (nowCount w0)"
  obtain a w1 w2 x where
    a0: "find_row accID (hoAccount h) (accountsT (working w0)) = Some a" and
    us: "holdRepo_UpdateStatus E hid HoldStatusVoided now
       (w0\<lparr>callCount := Suc (callCount w0), nowCount := Suc (nowCount w0)\<rparr>) = (Inr (), w1)" and
    up: "accountRepo_UpdateEncumberedBalance E (hoAccount h)
       (if accEncumbered a - hoAmount h < 0 then 0 else accEncumbered a - hoAmount h) now w1 = (Inr (), w2)" and
    ob: "outboxRepo_Create E (voidEvent (envID E (idCount w2)) h now) (w2\<lparr>idCount := Suc (idCount w2)\<rparr>) = (Inr x, w')"
    using rest unfolding now_def
    by (auto simp: bindM_Inr returnM_Inr Let_def accountRepo_GetByIDForUpdate_def
        sql_GetAccountByIDForUpdate_def translateM_Inr txStmt_Inr one_row_Inr Now_Inr Generate_Inr
        simp del: if_split)
  have a: "find_row accID (hoAccount h) (accountsT ?d) = Some a" using a0 h(3) by simp
  define n where "n = (if accEncumbered a - hoAmount h < 0 then 0 else accEncumbered a - hoAmount h)"
  have w1: "working w1 = ?d\<lparr>holdsT := update_rows hoID hid (set_status HoldStatusVoided now) (holdsT ?d)\<rparr>"
      "committed w1 = committed w"
    using us h(3,4) by (auto simp: holdRepo_UpdateStatus_def sql_UpdateHoldStatus_def run_simps)
  have a1: "find_row accID (hoAccount h) (accountsT (working w1)) = Some a" using a w1 by simp
  note up' = UpdateEncumbered_Inr [OF up a1, folded n_def]
  obtain row where row: "sql_CreateOutboxEvent (voidEvent (envID E (idCount w2)) h now) (working w2) = Inr (row, working w')"
    and c: "committed w' = committed w2"
    using event_Inr [OF ob] by auto
  have mem: "h \<in> set (holdsT ?d)" "hoID h = hid" using find_row_Some [OF h(1)] by auto
  have "released ?d h now (working w')"
    unfolding released_def using mem h(2) a n_def up' row w1 by metis
  then show "\<exists>h now. find_row hoID hid (holdsT ?d) = Some h \<and> released ?d h now (working w')"
    using h(1) by blast
  show "committed w' = committed w" using c up' w1 by simp
qed

lemma captureChecks_Inr:
  assumes run: "captureChecks E hid to w = (Inr (h, a, b), w')" and k: "keys_ok (working w)"
  shows "find_row hoID hid (holdsT (working w)) = Some h" "hoStatus h = HoldStatusActive"
    "find_row accID (hoAccount h) (accountsT (working w)) = Some a"
    "find_row accID to (accountsT (working w)) = Some b"
    "accCurrency a = accCurrency b" "ValidateCredit b (hoAmount h) = None"
    "working w' = working w" "committed w' = committed w"
proof -
  obtain h0 w1 where act0: "activeHold E hid w = (Inr h0, w1)" and
    rest: "(case (buildAccountMap (sort_key accID (filter (\<lambda>x. accID x \<in> set [hoAccount h0, to]) (accountsT (working w1)))) (hoAccount h0),
       buildAccountMap (sort_key accID (filter (\<lambda>x. accID x \<in> set [hoAccount h0, to]) (accountsT (working w1)))) to) of
       (Some fromAccount, Some toAccount) \<Rightarrow>
         bindM (checkM (if accCurrency fromAccount \<noteq> accCurrency toAccount
                        then Some ErrCurrencyMismatch else None)) (\<lambda>_.
         bindM (checkM (ValidateCredit toAccount (hoAmount h0))) (\<lambda>_.
         returnM (h0, fromAccount, toAccount)))
     | _ \<Rightarrow> raiseM ErrAccountNotFound) (w1\<lparr>callCount := Suc (callCount w1)\<rparr>) = (Inr (h, a, b), w')"
    using run
    by (auto simp: captureChecks_def bindM_Inr [of "activeHold E hid"] bindM_Inr [of "txStmt E st" for st] Let_def
        query_Inr txStmt_Inr accountRepo_GetByIDsForUpdate_def sql_GetAccountsByIDsForUpdate_def)
  have m0: "h0 = h"
    and ab: "buildAccountMap (sort_key accID (filter (\<lambda>x. accID x \<in> set [hoAccount h0, to]) (accountsT (working w1)))) (hoAccount h0) = Some a"
      "buildAccountMap (sort_key accID (filter (\<lambda>x. accID x \<in> set [hoAccount h0, to]) (accountsT (working w1)))) to = Some b"
    and chk: "accCurrency a = accCurrency b" "ValidateCredit b (hoAmount h) = None"
    and w': "working w' = working w1" "committed w' = committed w1"
    using rest by (auto simp: run_simps split: option.splits if_splits)
  have act: "activeHold E hid w = (Inr h, w1)" using act0 m0 by simp
  note h = activeHold_Inr [OF act]
  show "find_row hoID hid (holdsT (working w)) = Some h" "hoStatus h = HoldStatusActive"
    by (rule h)+
  show "accCurrency a = accCurrency b" "ValidateCredit b (hoAmount h) = None" by (rule chk)+
  show "working w' = working w" "committed w' = committed w" using w' h by simp_all
  show "find_row accID (hoAccount h) (accountsT (working w)) = Some a"
    "find_row accID to (accountsT (working w)) = Some b"
    using ab h(3) m0 locked_map [OF k refl, of "[hoAccount h, to]"] by simp_all
qed

lemma captureWrites_captured:
  assumes run: "captureWrites E h a b to w = (Inr t, w')"
    and h: "find_row hoID hid (holdsT (working w)) = Some h" "hoStatus h = HoldStatusActive"
    and a: "find_row accID (hoAccount h) (accountsT (working w)) = Some a"
    and b: "find_row accID to (accountsT (working w)) = Some b"
    and ok: "accCurrency a = accCurrency b" "ValidateCredit b (hoAmount h) = None"
    and c: "chains_ok (working w)"
  shows "captured (working w) h t (working w')" "committed w' = committed w" "trTo t = to"
proof -
  let ?d = "working w"
  define now where "now = envNow E (nowCount w)"
  define k where "k = idCount w"
  note steps = captureWrites_def run_simps Let_def transferRepo_Create_def entryRepo_Create_def
        accountRepo_UpdateBalance_def accountRepo_UpdateBalanceAndEncumbered_def outboxRepo_Create_Inr
        sql_UpdateAccountBalance_def sql_UpdateAccountBalanceAndEncumbered_def holdRepo_UpdateStatus_def
        sql_UpdateHoldStatus_def update_account_Inr ApplyCredit_def captureTransfer_def
  let ?t = "captureTransfer (envID E k) h to now"
  let ?f = "set_both (accBalance a - hoAmount h) (accEncumbered a - hoAmount h) now"
  let ?g = "set_balance (accBalance b + hoAmount h) now"
  let ?e1 = "newEntry (envID E (Suc k)) a (envID E k) (- hoAmount h) (accBalance a - hoAmount h) now"
  let ?e2 = "newEntry (envID E (Suc (Suc k))) b (envID E k) (hoAmount h) (accBalance b + hoAmount h) now"
  let ?i = "envID E (Suc (Suc (Suc k)))"
  have ids: "accID a = hoAccount h" "accID b = to" "a \<in> set (accountsT ?d)" "b \<in> set (accountsT ?d)"
    using find_row_Some [OF a] find_row_Some [OF b] by auto
  have ne: "hoAccount h \<noteq> to" and pos: "0 < hoAmount h"
    using run by (auto simp: captureWrites_def run_simps Let_def transferRepo_Create_def captureTransfer_def)
  have b': "find_row accID to (update_rows accID (hoAccount h) ?f (accountsT ?d)) = Some b"
    by (rule update_account_other [OF b]) (use ne in auto)
  have facts: "t = ?t \<and> envID E k \<notin> trID ` set (transfersT ?d) \<and>
      envID E (Suc k) \<notin> enID ` set (entriesT ?d) \<and>
      envID E (Suc (Suc k)) \<notin> insert (envID E (Suc k)) (enID ` set (entriesT ?d)) \<and>
      accVersion a < max_int64 \<and> accVersion b < max_int64 \<and>
      account_check (?f a) = None \<and> account_check (?g b) = None \<and> committed w' = committed w"
    using run a b b' ids ne unfolding k_def now_def by (auto simp: steps)
  have ob: "\<exists>row. sql_CreateOutboxEvent (captureEvent ?i h ?t to now)
      ((post ?t ?e1 ?e2 ?f ?g ?d)\<lparr>holdsT := update_rows hoID (hoID h) (set_status HoldStatusCaptured now) (holdsT ?d)\<rparr>)
      = Inr (row, working w')"
    using run a b b' ids ne unfolding k_def now_def post_def by (auto simp: steps)
  have t: "trFrom t = hoAccount h" "trTo t = to" "trAmount t = hoAmount h" "trCreatedAt t = now"
      "trReversed t = None" "trID t = envID E k"
    using facts by (simp_all add: captureTransfer_def)
  have v: "0 \<le> accVersion a" "0 \<le> accVersion b" using chains_version [OF c] ids by auto
  have g: "credited b t = ?g" by (simp add: credited_def t)
  have "posts ?d t ?e1 ?e2 ?f ?g a b"
    using facts a b ne pos ok v ids t next_version [of a] next_version [of b]
    by (simp add: posts_def reversal_taken_def)
  then show "captured ?d h t (working w')"
    unfolding captured_def using facts ob t find_row_Some [OF h(1)] h(2) ok(2) g by metis
  show "committed w' = committed w" using facts by simp
  show "trTo t = to" by (rule t)
qed

lemma captureBody_captured:
  assumes run: "captureBody E hid to w = (Inr t, w')" and inv: "ledger_inv (working w)"
  shows "\<exists>h. find_row hoID hid (holdsT (working w)) = Some h \<and> captured (working w) h t (working w') \<and> trTo t = to"
    and "committed w' = committed w"
proof -
  obtain h a b w1 where c: "captureChecks E hid to w = (Inr (h, a, b), w1)"
    and wr: "captureWrites E h a b to w1 = (Inr t, w')"
    using run by (auto simp: captureBody_def bindM_Inr)
  have k: "keys_ok (working w)" "chains_ok (working w)" using inv by (simp_all add: ledger_inv_def)
  note f = captureChecks_Inr [OF c k(1)]
  note g = captureWrites_captured [OF wr, of hid, unfolded f(7), OF f(1-6) k(2)]
  show "\<exists>h. find_row hoID hid (holdsT (working w)) = Some h \<and> captured (working w) h t (working w') \<and> trTo t = to"
    using f(1) g by blast
  show "committed w' = committed w" using g f by simp
qed

section \<open>The use cases\<close>

lemma only_audits_hold_rows:
  "only_audits (envHasher E) (auditFailedHold E ctx action state e)"
  "only_audits (envHasher E) (auditHold E ctx action hid after)"
  "only_audits (envHasher E) (auditFailedAccount E ctx input e)"
  unfolding auditFailedHold_def auditHold_def auditFailedAccount_def
  by (auto intro!: only_audits_intros)

lemma auditHold_never_fails: "auditHold E ctx action hid after w \<noteq> (Inl e, w')"
  by (auto simp: auditHold_def bindM_Inl ignoreM_def Generate_def Now_def split: if_splits)

lemma keeps_hold_bodies [frame_intros]:
  "keeps committed (activeHold E hid)" "keeps committed (auditHoldTx E ctx h)"
  "keeps committed (holdBody E ctx acc amount)" "keeps committed (voidBody E hid)"
  "keeps committed (captureChecks E hid to)" "keeps committed (captureWrites E h a b to)"
  "keeps committed (captureBody E hid to)" "keeps committed (accountBody E ctx input now)"
  unfolding holdBody_def auditHoldTx_def voidBody_def activeHold_def captureBody_def captureChecks_def
    captureWrites_def accountBody_def Let_def
  by (auto intro!: frame_intros split: option.splits prod.splits)

interpretation hold_tx: transaction E "holdBody E ctx acc amount" "holdTransaction E ctx acc amount"
  for E ctx acc amount
  by unfold_locales (auto intro: frame_intros simp: holdTransaction_def)

interpretation void_tx: transaction E "voidBody E hid" "voidTransaction E hid" for E hid
  by unfold_locales (auto intro: frame_intros simp: voidTransaction_def)

interpretation capture_tx: transaction E "captureBody E hid to" "captureTransaction E hid to" for E hid to
  by unfold_locales (auto intro: frame_intros simp: captureTransaction_def)

interpretation account_tx: transaction E "accountBody E ctx input now" "accountTransaction E ctx input now"
  for E ctx input now
  by unfold_locales (auto intro: frame_intros simp: accountTransaction_def)

text \<open>A deferred failure audit adds audit rows only: if the body leaves the money tables alone when it
  fails, so does the whole operation.\<close>

lemma onErrorM_failed:
  assumes run: "onErrorM h m w = (Inl e, w')" and "\<And>e. only_audits H (h e)"
    and "\<And>e v. m w = (Inl e, v) \<Longrightarrow> committed v = committed w"
  shows "audits_only H (committed w) (committed w')"
proof -
  obtain v where "m w = (Inl e, v)" "w' = snd (h e v)" using run by (auto simp: onErrorM_Inl)
  then show ?thesis using assms(2,3) unfolding only_audits_def by metis
qed

lemma HoldFunds_failed:
  assumes "HoldFunds E ctx acc amount w = (Inl e, w')"
  shows "audits_only (envHasher E) (committed w) (committed w')"
  using assms unfolding HoldFunds_def
  by (rule onErrorM_failed) (auto simp: only_audits_hold_rows bindM_Inl checkM_Inl checkM_Inr dest: hold_tx.tx_failed)

lemma VoidHold_failed:
  assumes "VoidHold E ctx hid w = (Inl e, w')"
  shows "audits_only (envHasher E) (committed w) (committed w')"
  using assms unfolding VoidHold_def
  by (rule onErrorM_failed) (auto simp: only_audits_hold_rows bindM_Inl auditHold_never_fails dest: void_tx.tx_failed)

lemma CaptureHold_failed:
  assumes "CaptureHold E ctx hid to w = (Inl e, w')"
  shows "audits_only (envHasher E) (committed w) (committed w')"
  using assms unfolding CaptureHold_def
  by (rule onErrorM_failed)
    (auto simp: only_audits_hold_rows bindM_Inl auditHold_never_fails dest: capture_tx.tx_failed)

lemma CreateAccount_failed:
  assumes "CreateAccount E ctx input w = (Inl e, w')"
  shows "audits_only (envHasher E) (committed w) (committed w')"
  using assms unfolding CreateAccount_def
  by (rule onErrorM_failed)
    (auto simp: only_audits_hold_rows bindM_Inl checkM_Inl checkM_Inr Now_def dest!: account_tx.tx_failed)

lemma HoldFunds_succeeded:
  assumes "HoldFunds E ctx acc amount w = (Inr h, w')"
  shows "\<exists>d1. held (committed w) h d1 \<and> audits_only (envHasher E) d1 (committed w')"
    "hoAccount h = acc" "hoAmount h = amount"
proof -
  have run: "holdTransaction E ctx acc amount w = (Inr h, w')"
    using assms by (auto simp: HoldFunds_def run_simps split: if_splits)
  obtain w1 w2 where w: "working w1 = committed w" "holdBody E ctx acc amount w1 = (Inr h, w2)"
    "committed w' = working w2"
    using hold_tx.tx_succeeded [OF run] by blast
  show "\<exists>d1. held (committed w) h d1 \<and> audits_only (envHasher E) d1 (committed w')"
    "hoAccount h = acc" "hoAmount h = amount"
    using holdBody_held [OF w(2)] w(1,3) by simp_all
qed

lemma VoidHold_succeeded:
  assumes "VoidHold E ctx hid w = (Inr u, w')"
  shows "\<exists>h now d1. find_row hoID hid (holdsT (committed w)) = Some h \<and>
    released (committed w) h now d1 \<and> audits_only (envHasher E) d1 (committed w')"
proof -
  obtain w0 where run: "voidTransaction E hid w = (Inr (), w0)"
    and au: "auditHold E ctx AuditActionHoldVoid hid NoState w0 = (Inr u, w')"
    using assms by (auto simp: VoidHold_def run_simps)
  obtain w1 w2 where w: "working w1 = committed w" "voidBody E hid w1 = (Inr (), w2)"
    "committed w0 = working w2"
    using void_tx.tx_succeeded [OF run] by blast
  show ?thesis
    using voidBody_released(1) [OF w(2)] w(1,3) only_auditsD [OF only_audits_hold_rows(2) au] by auto
qed

lemma CaptureHold_succeeded:
  assumes "CaptureHold E ctx hid to w = (Inr t, w')" and inv: "ledger_inv (committed w)"
  shows "\<exists>h d1. find_row hoID hid (holdsT (committed w)) = Some h \<and>
    captured (committed w) h t d1 \<and> audits_only (envHasher E) d1 (committed w')" "trTo t = to"
proof -
  obtain w0 where run: "captureTransaction E hid to w = (Inr t, w0)"
    and au: "\<exists>u. auditHold E ctx AuditActionHoldCapture hid (StTransfer t) w0 = (Inr u, w')"
    using assms(1) by (auto simp: CaptureHold_def run_simps)
  obtain w1 w2 where w: "working w1 = committed w" "captureBody E hid to w1 = (Inr t, w2)"
    "committed w0 = working w2"
    using capture_tx.tx_succeeded [OF run] by blast
  have inv1: "ledger_inv (working w1)" using inv w(1) by simp
  show "\<exists>h d1. find_row hoID hid (holdsT (committed w)) = Some h \<and>
    captured (committed w) h t d1 \<and> audits_only (envHasher E) d1 (committed w')" "trTo t = to"
    using captureBody_captured(1) [OF w(2) inv1] w(1,3) au only_auditsD [OF only_audits_hold_rows(2)]
    by fastforce+
qed

definition opened :: "'d::linordered_idom db \<Rightarrow> 'd account \<Rightarrow> 'd db \<Rightarrow> bool" where
  "opened d a d' \<longleftrightarrow>
     accID a \<notin> accID ` set (accountsT d) \<and> accBalance a = 0 \<and> accEncumbered a = 0 \<and>
     accVersion a = 0 \<and> d' = d\<lparr>accountsT := accountsT d @ [a]\<rparr>"

lemma CreateAccount_succeeded:
  assumes "CreateAccount E ctx input w = (Inr a, w')"
  shows "\<exists>d1. opened (committed w) a d1 \<and> audits_only (envHasher E) d1 (committed w')"
    "accName a = aiName input" "accCurrency a = aiCurrency input"
    "ValidateAccountName (aiName input) = None" "ValidateCurrency (aiCurrency input) = None"
proof -
  obtain now w0 where run: "accountTransaction E ctx input now w0 = (Inr a, w')" "committed w0 = committed w"
    and v: "ValidateAccountName (aiName input) = None" "ValidateCurrency (aiCurrency input) = None"
    using assms by (auto simp: CreateAccount_def run_simps)
  obtain w1 w2 where w: "working w1 = committed w" "accountBody E ctx input now w1 = (Inr a, w2)"
    "committed w' = working w2"
    using account_tx.tx_succeeded [OF run(1)] run(2) by metis
  have a: "\<exists>i. a = newAccount i input now" using w(2) by (auto simp: accountBody_def run_simps Let_def)
  show "ValidateAccountName (aiName input) = None" "ValidateCurrency (aiCurrency input) = None" by (rule v)+
  show "accName a = aiName input" "accCurrency a = aiCurrency input" using a by (auto simp: newAccount_def)
  obtain w3 where cr: "accountRepo_CreateTx E a (w1\<lparr>idCount := Suc (idCount w1)\<rparr>) = (Inr (), w3)"
    and au: "working w2 = working w3 \<or> audits_only (envHasher E) (working w3) (working w2)"
    using w(2) by (auto simp: accountBody_def bindM_Inr returnM_Inr Let_def Generate_Inr Now_Inr
        dest!: auditRepo_CreateTx_only split: if_splits)
  have "a\<lparr>accEncumbered := 0\<rparr> = a" using a by (auto simp: newAccount_def)
  then have "opened (committed w) a (working w3)"
    using cr w(1) a by (auto simp: opened_def accountRepo_CreateTx_def run_simps newAccount_def)
  then show "\<exists>d1. opened (committed w) a d1 \<and> audits_only (envHasher E) d1 (committed w')"
    using au w(3) by auto
qed

section \<open>Exact effects of holds\<close>

lemma held_effect:
  assumes "held d h d'"
  shows "holdsT d' = holdsT d @ [h]" "balance_of d' i = balance_of d i"
    "encumbered_of d' i = map_option (\<lambda>n. n + (if hoAccount h = i then hoAmount h else 0)) (encumbered_of d i)"
    "transfersT d' = transfersT d" "entriesT d' = entriesT d"
    "\<exists>a. find_row accID (hoAccount h) (accountsT d) = Some a \<and> ValidateDebit a (hoAmount h) = None"
proof -
  let ?f = "\<lambda>a. set_encumbered (accEncumbered a + hoAmount h) (hoCreatedAt h)"
  obtain a j row where a: "find_row accID (hoAccount h) (accountsT d) = Some a"
    and v: "ValidateDebit a (hoAmount h) = None"
    and ob: "sql_CreateOutboxEvent (holdEvent j h (accCurrency a) (hoCreatedAt h))
          (with_account (hoAccount h) (?f a) (d\<lparr>holdsT := holdsT d @ [h]\<rparr>)) = Inr (row, d')"
    using assms unfolding held_def by blast
  note d' = sql_CreateOutboxEvent_Inr(3) [OF ob]
  show "holdsT d' = holdsT d @ [h]" "transfersT d' = transfersT d" "entriesT d' = entriesT d"
    by (simp_all add: d' with_account_def)
  show "balance_of d' i = balance_of d i"
    using a by (auto simp: d' with_account_def balance_of_def find_row_update)
  show "encumbered_of d' i = map_option (\<lambda>n. n + (if hoAccount h = i then hoAmount h else 0)) (encumbered_of d i)"
    using a by (auto simp: d' with_account_def encumbered_of_def find_row_update option.map_comp comp_def option.map_ident)
  show "\<exists>a. find_row accID (hoAccount h) (accountsT d) = Some a \<and> ValidateDebit a (hoAmount h) = None"
    using a v by blast
qed

lemma released_effect:
  assumes rel: "released d h now d'" and inv: "ledger_inv d"
  shows "holdsT d' = update_rows hoID (hoID h) (set_status HoldStatusVoided now) (holdsT d)"
    "balance_of d' i = balance_of d i"
    "encumbered_of d' i = map_option (\<lambda>n. n - (if hoAccount h = i then hoAmount h else 0)) (encumbered_of d i)"
    "transfersT d' = transfersT d" "entriesT d' = entriesT d"
proof -
  obtain a j row n where h: "h \<in> set (holdsT d)" "hoStatus h = HoldStatusActive"
    and a: "find_row accID (hoAccount h) (accountsT d) = Some a"
    and n: "n = (if accEncumbered a - hoAmount h < 0 then 0 else accEncumbered a - hoAmount h)"
    and ob: "sql_CreateOutboxEvent (voidEvent j h now)
          (with_account (hoAccount h) (set_encumbered n now)
             (d\<lparr>holdsT := update_rows hoID (hoID h) (set_status HoldStatusVoided now) (holdsT d)\<rparr>)) = Inr (row, d')"
    using rel unfolding released_def by blast
  note d' = sql_CreateOutboxEvent_Inr(3) [OF ob]
  have n': "n = accEncumbered a - hoAmount h" using n active_hold_covered [OF inv h a] by simp
  show "holdsT d' = update_rows hoID (hoID h) (set_status HoldStatusVoided now) (holdsT d)"
    "transfersT d' = transfersT d" "entriesT d' = entriesT d"
    by (simp_all add: d' with_account_def)
  show "balance_of d' i = balance_of d i"
    using a by (auto simp: d' with_account_def balance_of_def find_row_update)
  show "encumbered_of d' i = map_option (\<lambda>n. n - (if hoAccount h = i then hoAmount h else 0)) (encumbered_of d i)"
    using a n' by (auto simp: d' with_account_def encumbered_of_def find_row_update option.map_comp comp_def option.map_ident)
qed

lemma captured_effect:
  assumes cap: "captured d h t d'" and inv: "ledger_inv d"
  shows "holdsT d' = update_rows hoID (hoID h) (set_status HoldStatusCaptured (trCreatedAt t)) (holdsT d)"
    "balance_of d' i = map_option (\<lambda>b. b + moved i t) (balance_of d i)"
    "encumbered_of d' i = map_option (\<lambda>n. n - (if hoAccount h = i then hoAmount h else 0)) (encumbered_of d i)"
    "transfersT d' = transfersT d @ [t]" "trFrom t = hoAccount h" "trAmount t = hoAmount h" "trFrom t \<noteq> trTo t"
proof -
  let ?hs = "update_rows hoID (hoID h) (set_status HoldStatusCaptured (trCreatedAt t)) (holdsT d)"
  let ?f = "\<lambda>a. set_both (accBalance a - hoAmount h) (accEncumbered a - hoAmount h) (trCreatedAt t)"
  obtain a b e1 e2 j row where t: "trFrom t = hoAccount h" "trAmount t = hoAmount h"
    and p: "posts d t e1 e2 (?f a) (credited b t) a b"
    and ob: "sql_CreateOutboxEvent (captureEvent j h t (trTo t) (trCreatedAt t))
          ((post t e1 e2 (?f a) (credited b t) d)\<lparr>holdsT := ?hs\<rparr>) = Inr (row, d')"
    using cap unfolding captured_def by blast
  note d' = sql_CreateOutboxEvent_Inr(3) [OF ob]
  have ne: "trFrom t \<noteq> trTo t" and rows: "find_row accID (trFrom t) (accountsT d) = Some a"
      "find_row accID (trTo t) (accountsT d) = Some b"
    using p by (simp_all add: posts_def)
  show "trFrom t = hoAccount h" "trAmount t = hoAmount h" "trFrom t \<noteq> trTo t" by (rule t ne)+
  show "holdsT d' = ?hs" "transfersT d' = transfersT d @ [t]" by (simp_all add: d' post_def)
  have find: "find_row accID i (accountsT d') = (if i = trFrom t then Some (?f a a)
     else if i = trTo t then Some (credited b t b) else find_row accID i (accountsT d))"
    using posts_find [OF p, of i] by (simp add: d')
  show "balance_of d' i = map_option (\<lambda>b. b + moved i t) (balance_of d i)"
    using find rows ne t by (auto simp: balance_of_def moved_def option.map_comp comp_def option.map_ident)
  show "encumbered_of d' i = map_option (\<lambda>n. n - (if hoAccount h = i then hoAmount h else 0)) (encumbered_of d i)"
    using find rows ne t by (auto simp: encumbered_of_def option.map_comp comp_def option.map_ident)
qed

section \<open>Reversals\<close>

lemma posted_reversed_fresh:
  "posted d ts d' \<Longrightarrow> t \<in> set ts \<Longrightarrow> trReversed t = Some i \<Longrightarrow>
     \<not> (\<exists>s \<in> set (transfersT d). trReversed s = Some i)"
proof (induction ts arbitrary: d)
  case (Cons u ts)
  then obtain d1 where d1: "posted1 d u d1" "posted d1 ts d'" by auto
  show ?case
  proof (cases "t = u")
    case True
    then show ?thesis using d1(1) Cons.prems(3)
      by (auto simp: posted1_def posts_def reversal_taken_def list_ex_iff)
  next
    case False
    then show ?thesis using Cons.IH [OF d1(2)] Cons.prems(2,3) posted1_frame [OF d1(1)] by auto
  qed
qed simp

end
