(* ===== verification/ReconciliationLaws.thy ===== *)
theory ReconciliationLaws
  imports Reconciliation HoldLaws
begin

text \<open>
  Reconciliation against the ledger invariant: in a consistent ledger balances equal entry sums,
  every currency sums to zero, and the checks say so; what the entry-chain check accepts; and that a
  hold breaks the chain it checks.
\<close>

section \<open>Sums over a consistent ledger\<close>

lemma currency_entries_sum:
  assumes inv: "ledger_inv d"
  shows "sum_list (map accBalance (filter (\<lambda>a. accCurrency a = c) (accountsT d))) =
     sum_list (map enAmount (filter (\<lambda>e. currency_of d (enAccount e) = Some c) (entriesT d)))"
proof -
  let ?as = "filter (\<lambda>a. accCurrency a = c) (accountsT d)"
  let ?es = "filter (\<lambda>e. currency_of d (enAccount e) = Some c) (entriesT d)"
  have k: "keys_ok d" and ch: "chains_ok d" and tr: "transfers_ok d" using inv by (simp_all add: ledger_inv_def)
  have dist: "distinct (map accID (accountsT d))" using k by (simp add: keys_ok_def)
  have cur: "currency_of d (accID a) = Some (accCurrency a)" if "a \<in> set (accountsT d)" for a
    using find_row_unique [OF dist that] by (simp add: currency_of_def)
  have "\<forall>e \<in> set ?es. enAccount e \<in> set (map accID ?as)"
    using tr cur unfolding transfers_ok_def by fastforce
  moreover have "distinct (map accID ?as)" by (rule distinct_map_filter [OF dist])
  ultimately have "sum_list (map enAmount ?es) =
      sum_list (map (\<lambda>i. sum_list (map enAmount (filter (\<lambda>e. enAccount e = i) ?es))) (map accID ?as))"
    using sum_groups by metis
  also have "\<dots> = sum_list (map (\<lambda>a. sum_list (map enAmount (filter (\<lambda>e. enAccount e = accID a) ?es))) ?as)"
    by (simp add: comp_def)
  also have "\<dots> = sum_list (map accBalance ?as)"
  proof (rule arg_cong [where f = sum_list], rule map_cong [OF refl])
    fix a assume a: "a \<in> set ?as"
    then have "filter (\<lambda>e. enAccount e = accID a) ?es = account_entries d (accID a)"
      using cur by (auto simp: account_entries_def intro!: filter_cong)
    then show "sum_list (map enAmount (filter (\<lambda>e. enAccount e = accID a) ?es)) = accBalance a"
      using chains_balance [OF ch] a by simp
  qed
  finally show ?thesis by simp
qed

lemma transfer_entries_cancel:
  assumes "double_entry d t"
  shows "sum_list (map enAmount (filter (\<lambda>e. currency_of d (enAccount e) = Some c) (transfer_entries d (trID t)))) = 0"
proof -
  obtain e1 e2 where es: "transfer_entries d (trID t) = [e1, e2]"
    and e: "enAccount e1 = trFrom t" "enAmount e1 = - trAmount t" "enAccount e2 = trTo t" "enAmount e2 = trAmount t"
    using assms by (auto simp: double_entry_def map_eq_Cons_conv)
  show ?thesis using assms e by (auto simp: es double_entry_def)
qed

lemma currency_entries_zero:
  assumes inv: "ledger_inv d"
  shows "sum_list (map enAmount (filter (\<lambda>e. currency_of d (enAccount e) = Some c) (entriesT d))) = 0"
proof -
  let ?es = "filter (\<lambda>e. currency_of d (enAccount e) = Some c) (entriesT d)"
  have k: "keys_ok d" and tr: "transfers_ok d" using inv by (simp_all add: ledger_inv_def)
  have "distinct (map trID (transfersT d))" using k by (simp add: keys_ok_def)
  moreover have "\<forall>e \<in> set ?es. enTransfer e \<in> set (map trID (transfersT d))"
    using tr by (auto simp: transfers_ok_def)
  ultimately have "sum_list (map enAmount ?es) = sum_list (map (\<lambda>i. sum_list (map enAmount
      (filter (\<lambda>e. enTransfer e = i) ?es))) (map trID (transfersT d)))"
    using sum_groups by metis
  also have "\<dots> = sum_list (map (\<lambda>t. sum_list (map enAmount (filter (\<lambda>e. enTransfer e = trID t) ?es))) (transfersT d))"
    by (simp add: comp_def)
  also have "\<dots> = sum_list (map (\<lambda>t. 0) (transfersT d))"
  proof (rule arg_cong [where f = sum_list], rule map_cong [OF refl])
    fix t assume "t \<in> set (transfersT d)"
    then have "double_entry d t" using tr by (simp add: transfers_ok_def)
    moreover have "filter (\<lambda>e. enTransfer e = trID t) ?es =
        filter (\<lambda>e. currency_of d (enAccount e) = Some c) (transfer_entries d (trID t))"
      by (simp add: transfer_entries_def conj_commute)
    ultimately show "sum_list (map enAmount (filter (\<lambda>e. enTransfer e = trID t) ?es)) = 0"
      using transfer_entries_cancel by metis
  qed
  finally show ?thesis by simp
qed

lemma currency_balances_zero:
  "ledger_inv d \<Longrightarrow> sum_list (map accBalance (filter (\<lambda>a. accCurrency a = c) (accountsT d))) = 0"
  using currency_entries_sum currency_entries_zero by metis

lemma total_balance_zero:
  assumes "ledger_inv d"
  shows "sum_list (map accBalance (accountsT d)) = 0"
proof -
  let ?cs = "remdups (map accCurrency (accountsT d))"
  have "sum_list (map accBalance (accountsT d)) =
      sum_list (map (\<lambda>c. sum_list (map accBalance (filter (\<lambda>a. accCurrency a = c) (accountsT d)))) ?cs)"
    by (rule sum_groups [symmetric]) auto
  then show ?thesis using currency_balances_zero [OF assms] by simp
qed

lemma total_entries_zero:
  assumes inv: "ledger_inv d"
  shows "sum_list (map enAmount (entriesT d)) = 0"
proof -
  have k: "keys_ok d" and ch: "chains_ok d" and tr: "transfers_ok d" using inv by (simp_all add: ledger_inv_def)
  have "\<forall>e \<in> set (entriesT d). enAccount e \<in> set (map accID (accountsT d))"
    using tr by (simp add: transfers_ok_def)
  moreover have "distinct (map accID (accountsT d))" using k by (simp add: keys_ok_def)
  ultimately have "sum_list (map enAmount (entriesT d)) = sum_list (map (\<lambda>i. sum_list (map enAmount
      (filter (\<lambda>e. enAccount e = i) (entriesT d)))) (map accID (accountsT d)))"
    using sum_groups by metis
  also have "\<dots> = sum_list (map accBalance (accountsT d))"
    using chains_balance [OF ch] by (simp add: account_entries_def comp_def cong: map_cong)
  finally show ?thesis using total_balance_zero [OF inv] by simp
qed

section \<open>The entry chain\<close>

lemma chainBreaks_later:
  "0 < i \<Longrightarrow> chainBreaks i b v es = [] \<longleftrightarrow>
     (\<forall>k < length es. enPrevious (es ! k) = (b # map enCurrent es) ! k \<and>
        enVersion (es ! k) = wrap64 ((v # map enVersion es) ! k + 1))"
proof (induction es arbitrary: i b v)
  case Nil
  then show ?case by simp
next
  case (Cons e es)
  have "chainBreaks i b v (e # es) = [] \<longleftrightarrow>
      enPrevious e = b \<and> enVersion e = wrap64 (v + 1) \<and> chainBreaks (Suc i) (enCurrent e) (enVersion e) es = []"
    using Cons.prems by auto
  then show ?case using Cons.IH [of "Suc i" "enCurrent e" "enVersion e"]
    by (simp add: All_less_Suc2)
qed

lemma nth_Cons_map: "k \<le> length xs \<Longrightarrow> (f x # map f xs) ! k = f ((x # xs) ! k)"
  using nth_map [of k "x # xs" f] by simp

text \<open>The check as a condition on the ordered entries: versions 1, 2, 3, \<open>\<dots>\<close> and linked balances.\<close>

definition contiguous :: "'d entry list \<Rightarrow> bool" where
  "contiguous es \<longleftrightarrow>
     (\<forall>k < length es. enVersion (es ! k) = int k + 1) \<and>
     (\<forall>k. Suc k < length es \<longrightarrow> enPrevious (es ! Suc k) = enCurrent (es ! k))"

lemma chainBreaks_contiguous:
  assumes "int (length es) \<le> max_int64"
  shows "chainBreaks 0 b v es = [] \<longleftrightarrow> contiguous es"
proof (cases es)
  case Nil
  then show ?thesis by (simp add: contiguous_def)
next
  case (Cons e rest)
  have wrap: "wrap64 (int k + 1) = int k + 1" if "k < length es" for k
    by (rule wrap64_id) (use that assms in auto)
  have "chainBreaks 0 b v es = [] \<longleftrightarrow> enVersion e = 1 \<and>
      (\<forall>k < length rest. enPrevious (es ! Suc k) = enCurrent (es ! k) \<and>
        enVersion (es ! Suc k) = wrap64 (enVersion (es ! k) + 1))"
    using chainBreaks_later [of 1 "enCurrent e" "enVersion e" rest]
    by (auto simp: Cons nth_Cons_map)
  also have "\<dots> \<longleftrightarrow> contiguous es"
  proof
    assume h: "enVersion e = 1 \<and> (\<forall>k < length rest. enPrevious (es ! Suc k) = enCurrent (es ! k) \<and>
        enVersion (es ! Suc k) = wrap64 (enVersion (es ! k) + 1))"
    have "k < length es \<longrightarrow> enVersion (es ! k) = int k + 1" for k
    proof (induction k)
      case 0
      then show ?case using h Cons by simp
    next
      case (Suc k)
      then show ?case using h wrap [of "Suc k"] Cons by (auto simp: algebra_simps)
    qed
    then show "contiguous es" using h Cons by (simp add: contiguous_def)
  next
    assume c: "contiguous es"
    then have "enVersion e = 1" unfolding contiguous_def using Cons by fastforce
    moreover have "enVersion (es ! Suc k) = wrap64 (enVersion (es ! k) + 1)" if "k < length rest" for k
    proof -
      have "enVersion (es ! k) = int k + 1" "enVersion (es ! Suc k) = int (Suc k) + 1"
        using c [unfolded contiguous_def, THEN conjunct1, rule_format, of k]
          c [unfolded contiguous_def, THEN conjunct1, rule_format, of "Suc k"] that Cons by simp_all
      then show ?thesis using wrap [of "Suc k"] that Cons by simp
    qed
    ultimately show "enVersion e = 1 \<and> (\<forall>k < length rest. enPrevious (es ! Suc k) = enCurrent (es ! k) \<and>
        enVersion (es ! Suc k) = wrap64 (enVersion (es ! k) + 1))"
      using c Cons by (simp add: contiguous_def)
  qed
  finally show ?thesis .
qed

section \<open>Versions without gaps\<close>

text \<open>Every version of every account has its entry: true as long as no hold was made.\<close>

definition tight :: "'d db \<Rightarrow> bool" where
  "tight d \<longleftrightarrow>
     (\<forall>a \<in> set (accountsT d). accVersion a = int (length (account_entries d (accID a))))"

lemma entry_chain_length: "entry_chain b v es b' v' \<Longrightarrow> v + int (length es) \<le> v'"
  by (induction es arbitrary: b v) fastforce+

lemma entry_chain_exact:
  "entry_chain b v es b' v' \<Longrightarrow> v' = v + int (length es) \<Longrightarrow> k < length es \<Longrightarrow>
   enVersion (es ! k) = v + int k + 1 \<and> enPrevious (es ! k) = (b # map enCurrent es) ! k"
proof (induction es arbitrary: b v k)
  case Nil
  then show ?case by simp
next
  case (Cons e es)
  have rest: "entry_chain (enCurrent e) (enVersion e) es b' v'" and e: "enPrevious e = b" "v < enVersion e"
    using Cons.prems unfolding entry_chain.simps by blast+
  have "enVersion e = v + 1" using entry_chain_length [OF rest] Cons.prems(2) e by simp
  then show ?case using Cons.IH [OF rest, of "k - 1"] Cons.prems(2,3) e by (cases k) auto
qed

lemma tight_contiguous:
  assumes "chains_ok d" and "tight d" and "a \<in> set (accountsT d)"
  shows "contiguous (account_entries d (accID a))"
proof -
  let ?es = "account_entries d (accID a)"
  have "entry_chain 0 0 ?es (accBalance a) (accVersion a)" "accVersion a = 0 + int (length ?es)"
    using assms by (simp_all add: chains_ok_def tight_def)
  note ex = entry_chain_exact [OF this]
  show ?thesis
    unfolding contiguous_def using ex by (auto simp: nth_Cons_map)
qed

lemma entries_sorted:
  assumes "chains_ok d" and "a \<in> set (accountsT d)"
  shows "sort_key enVersion (account_entries d (accID a)) = account_entries d (accID a)"
proof -
  have "sorted (map enVersion (account_entries d (accID a)))"
    using assms entry_chain_sorted unfolding chains_ok_def by blast
  then show ?thesis by (rule sort_key_id_if_sorted)
qed

lemma post_entries:
  assumes "posts d t e1 e2 f g a b"
  shows "account_entries (post t e1 e2 f g d) i = account_entries d i @
      (if i = trFrom t then [e1] else []) @ (if i = trTo t then [e2] else [])"
  using assms by (auto simp: account_entries_def post_def posts_def)

lemma posted1_tight:
  assumes "posted1 d t d'" and "keys_ok d" and "tight d"
  shows "tight d'"
proof -
  obtain a b e1 e2 i row where p: "posts d t e1 e2 (debited a t) (credited b t) a b"
    and ob: "sql_CreateOutboxEvent (transferEvent i t (trCreatedAt t))
       (post t e1 e2 (debited a t) (credited b t) d) = Inr (row, d')"
    using assms(1) unfolding posted1_def by blast
  let ?p = "post t e1 e2 (debited a t) (credited b t) d"
  have ab: "a \<in> set (accountsT d)" "accID a = trFrom t" "b \<in> set (accountsT d)" "accID b = trTo t" "trFrom t \<noteq> trTo t"
    using p find_row_Some [of accID] unfolding posts_def by blast+
  have "accVersion x = int (length (account_entries ?p (accID x)))" if x: "x \<in> set (accountsT ?p)" for x
    using post_account [OF p assms(2) x] assms(3) ab by (auto simp: post_entries [OF p] tight_def)
  then show ?thesis using sql_CreateOutboxEvent_Inr(3) [OF ob] by (simp add: tight_def account_entries_def)
qed

lemma posted_tight: "posted d ts d' \<Longrightarrow> ledger_inv d \<Longrightarrow> tight d \<Longrightarrow> tight d'"
proof (induction ts arbitrary: d)
  case (Cons t ts)
  then obtain d1 where d1: "posted1 d t d1" "posted d1 ts d'" by auto
  then have "ledger_inv d1" "tight d1"
    using posted1_inv posted1_tight Cons.prems(2,3) by (auto simp: ledger_inv_def)
  then show ?case using Cons.IH d1(2) by blast
qed simp

lemma tight_same: "same_ledger d d' \<Longrightarrow> tight d \<Longrightarrow> tight d'"
  by (simp add: tight_def same_ledger_def account_entries_def)

lemma batch_tight: "batch_done H input ts d d' \<Longrightarrow> ledger_inv d \<Longrightarrow> tight d \<Longrightarrow> tight d'"
  unfolding batch_done_def audits_only_def using posted_tight tight_same by blast

lemma no_entries:
  assumes "transfers_ok d" and "i \<notin> accID ` set (accountsT d)"
  shows "account_entries d i = []"
  using assms by (auto simp: account_entries_def transfers_ok_def filter_empty_conv)

lemma opened_tight: "opened d a d' \<Longrightarrow> transfers_ok d \<Longrightarrow> tight d \<Longrightarrow> tight d'"
  using no_entries [of d "accID a"] by (auto simp: opened_def tight_def) (simp_all add: account_entries_def)

section \<open>What the checks return\<close>

lemma VerifyEntryChain_Inr:
  assumes "VerifyEntryChain E acc w = (Inr r, w')"
  shows "crBreaks r = chainBreaks 0 0 0 (sort_key enVersion (account_entries (committed w) acc))"
    "crValid r \<longleftrightarrow> crBreaks r = []" "committed w' = committed w"
  using assms
  by (auto simp: VerifyEntryChain_def entryRepo_GetAllByAccountOrdered_def sql_GetEntriesByAccountOrdered_def
      run_simps Let_def account_entries_def)

lemma VerifyEntryChain_valid:
  assumes run: "VerifyEntryChain E acc w = (Inr r, w')"
    and inv: "ledger_inv (committed w)" and acc: "acc \<in> accID ` set (accountsT (committed w))"
    and len: "int (length (entriesT (committed w))) \<le> max_int64"
  shows "crValid r \<longleftrightarrow> contiguous (account_entries (committed w) acc)"
proof -
  let ?es = "account_entries (committed w) acc"
  have "length ?es \<le> length (entriesT (committed w))" by (simp add: account_entries_def)
  moreover have "sort_key enVersion ?es = ?es"
    using inv acc entries_sorted by (auto simp: ledger_inv_def)
  ultimately show ?thesis
    using VerifyEntryChain_Inr [OF run] chainBreaks_contiguous [of ?es 0 0] len by simp
qed

text \<open>A hold moves the version on without an entry; the next entry then leaves a gap.\<close>

definition gap :: "'d db \<Rightarrow> string \<Rightarrow> bool" where
  "gap d i \<longleftrightarrow>
     (\<exists>a. find_row accID i (accountsT d) = Some a \<and> 0 < accVersion a \<and>
        (\<forall>e \<in> set (account_entries d i). enVersion e < accVersion a))"

lemma held_gap:
  assumes "held d h d'" and inv: "ledger_inv d"
  shows "gap d' (hoAccount h)"
proof -
  let ?f = "\<lambda>a. set_encumbered (accEncumbered a + hoAmount h) (hoCreatedAt h)"
  obtain a i row where a: "find_row accID (hoAccount h) (accountsT d) = Some a"
    and ob: "sql_CreateOutboxEvent (holdEvent i h (accCurrency a) (hoCreatedAt h))
          (with_account (hoAccount h) (?f a) (d\<lparr>holdsT := holdsT d @ [h]\<rparr>)) = Inr (row, d')"
    using assms(1) unfolding held_def by blast
  have ch: "chains_ok d" using inv by (simp add: ledger_inv_def)
  have chain: "entry_chain 0 0 (account_entries d (hoAccount h)) (accBalance a) (accVersion a)"
    using ch find_row_Some [OF a] by (auto simp: chains_ok_def)
  have le: "\<forall>e \<in> set es. enVersion e \<le> v'" if "entry_chain b v es b' v'" for b v es b' v'
    using that by (induction es arbitrary: b v) (auto dest: entry_chain_mono)
  have "find_row accID (hoAccount h) (accountsT d') = Some (?f a a)"
    using sql_CreateOutboxEvent_Inr(3) [OF ob] a by (simp add: with_account_def find_row_update)
  moreover have "account_entries d' j = account_entries d j" for j
    using sql_CreateOutboxEvent_Inr(3) [OF ob] by (simp add: account_entries_def with_account_def)
  ultimately show ?thesis
    using le [OF chain] entry_chain_mono [OF chain] unfolding gap_def by fastforce
qed

lemma gap_same: "same_ledger d d' \<Longrightarrow> gap d i \<Longrightarrow> gap d' i"
  by (simp add: gap_def same_ledger_def account_entries_def)

lemma gap_posted:
  fixes d :: "'d::linordered_idom db"
  assumes g: "gap d i" and p: "posted1 d t d'" and i: "i = trFrom t \<or> i = trTo t"
  shows "\<not> contiguous (account_entries d' i)"
proof -
  obtain a b e1 e2 j row where ps: "posts d t e1 e2 (debited a t) (credited b t) a b"
    and ob: "sql_CreateOutboxEvent (transferEvent j t (trCreatedAt t))
       (post t e1 e2 (debited a t) (credited b t) d) = Inr (row, d')"
    using p unfolding posted1_def by blast
  have es: "account_entries d' i = account_entries (post t e1 e2 (debited a t) (credited b t) d) i"
    using sql_CreateOutboxEvent_Inr(3) [OF ob] by (simp add: account_entries_def)
  have ps': "find_row accID (trFrom t) (accountsT d) = Some a" "find_row accID (trTo t) (accountsT d) = Some b"
      "trFrom t \<noteq> trTo t" "enVersion e1 = accVersion a + 1" "enVersion e2 = accVersion b + 1"
    using ps by (simp_all add: posts_def)
  obtain x :: "'d account" and e where x: "0 < accVersion x" "\<forall>e \<in> set (account_entries d i). enVersion e < accVersion x"
    and e: "account_entries d' i = account_entries d i @ [e]" "enVersion e = accVersion x + 1"
    using i
  proof
    assume i: "i = trFrom t"
    show thesis
      by (rule that [of a e1]) (use i g ps' es post_entries [OF ps, of i] in \<open>auto simp: gap_def\<close>)
  next
    assume i: "i = trTo t"
    show thesis
      by (rule that [of b e2]) (use i g ps' es post_entries [OF ps, of i] in \<open>auto simp: gap_def\<close>)
  qed
  show ?thesis
  proof
    assume c: "contiguous (account_entries d' i)"
    let ?n = "length (account_entries d i)"
    have at: "enVersion ((account_entries d i @ [e]) ! k) = int k + 1" if "k \<le> ?n" for k
      using c that unfolding contiguous_def e(1) by simp
    have n: "enVersion e = int ?n + 1" using at [of ?n] by simp
    show False
    proof (cases ?n)
      case 0
      then show False using n e(2) x(1) by simp
    next
      case (Suc m)
      then have "enVersion (account_entries d i ! m) = int m + 1" using at [of m] by (simp add: nth_append)
      moreover have "account_entries d i ! m \<in> set (account_entries d i)" using Suc by simp
      ultimately show False using x(2) n e(2) Suc by fastforce
    qed
  qed
qed

end
