(* ===== verification/Publisher.thy ===== *)
theory Publisher
  imports Ledger
begin

text \<open>
  The event publisher (\<^verbatim>\<open>src/internal/infrastructure/eventpublisher/publisher.go\<close>): one pass over
  the pending outbox rows. The interface \<^verbatim>\<open>Publisher\<close> is the parameter \<open>publish\<close>: what delivering
  the event returns at the time it is tried (the number of database calls made so far, which
  grows from one delivery to the next).
\<close>

record publisher_config =
  epBatchSize :: int
  epMaxAttempts :: int

definition DefaultMaxAttempts :: int where "DefaultMaxAttempts = 5"

text \<open>The defaults \<^verbatim>\<open>NewEventPublisher\<close> puts in.\<close>

definition NewEventPublisher :: "publisher_config \<Rightarrow> publisher_config" where
  "NewEventPublisher cfg =
     \<lparr>epBatchSize = (if epBatchSize cfg = 0 then 100 else epBatchSize cfg),
      epMaxAttempts = (if epMaxAttempts cfg = 0 then DefaultMaxAttempts else epMaxAttempts cfg)\<rparr>"

type_synonym 'd publish = "nat \<Rightarrow> 'd outbox_event \<Rightarrow> err option"

text \<open>Both failures inside are logged and dropped.\<close>

definition recordFailure :: "env \<Rightarrow> publisher_config \<Rightarrow> 'd outbox_event \<Rightarrow> err \<Rightarrow> ('d, unit) act" where
  "recordFailure E cfg event publishErr =
     ignoreM
       (bindM (outboxRepo_RecordFailure E (obID event) publishErr) (\<lambda>attempts.
        if attempts < epMaxAttempts cfg then returnM ()
        else bindM (Now E) (\<lambda>at. outboxRepo_MarkDeadLettered E (obID event) at)))"

definition handleEvent ::
  "env \<Rightarrow> 'd publish \<Rightarrow> publisher_config \<Rightarrow> 'd outbox_event \<Rightarrow> ('d, unit) act" where
  "handleEvent E publish cfg event = (\<lambda>w.
     case publish (callCount w) event of
       Some e \<Rightarrow> recordFailure E cfg event e w
     | None \<Rightarrow> ignoreM (bindM (Now E) (\<lambda>at. outboxRepo_MarkPublished E (obID event) at)) w)"

definition processEvents :: "env \<Rightarrow> 'd publish \<Rightarrow> publisher_config \<Rightarrow> ('d, unit) act" where
  "processEvents E publish cfg =
     bindM (outboxRepo_GetUnpublished E (epBatchSize cfg)) (\<lambda>events.
     bindM (forM (handleEvent E publish cfg) events) (\<lambda>_. returnM ()))"

text \<open>The worker: a pass at the start and one per tick, until the context ends. Errors of a pass are
  logged.\<close>

fun Start :: "nat \<Rightarrow> env \<Rightarrow> 'd publish \<Rightarrow> publisher_config \<Rightarrow> ('d, unit) act" where
  "Start 0 E publish cfg = ignoreM (processEvents E publish cfg)"
| "Start (Suc ticks) E publish cfg =
     bindM (ignoreM (processEvents E publish cfg)) (\<lambda>_. Start ticks E publish cfg)"

section \<open>What handling may do to a row\<close>

text \<open>The row of an event after a delivery attempt: marked published only if the publisher took
  it, given up only after enough refusals, otherwise as it was or with one more attempt.\<close>

inductive attempted :: "'d publish \<Rightarrow> publisher_config \<Rightarrow> 'd outbox_event \<Rightarrow> 'd outbox_event \<Rightarrow> bool"
  for publish cfg where
  Kept: "attempted publish cfg e e"
| Delivered: "publish k e = None \<Longrightarrow>
    attempted publish cfg e (e\<lparr>obPublished := True, obPublishedAt := Some t\<rparr>)"
| Refused: "publish k e = Some x \<Longrightarrow>
    attempted publish cfg e (e\<lparr>obAttempts := obAttempts e + 1, obLastError := Some x\<rparr>)"
| GaveUp: "publish k e = Some x \<Longrightarrow> epMaxAttempts cfg \<le> obAttempts e + 1 \<Longrightarrow>
    attempted publish cfg e
      (e\<lparr>obAttempts := obAttempts e + 1, obLastError := Some x, obDeadLetteredAt := Some t\<rparr>)"

text \<open>One event handled: its row was attempted, the others are as they were.\<close>

definition on_event :: "'d publish \<Rightarrow> publisher_config \<Rightarrow> string set \<Rightarrow> 'd outbox_event \<Rightarrow> 'd outbox_event \<Rightarrow> bool" where
  "on_event publish cfg ids e e' \<longleftrightarrow> (if obID e \<in> ids then attempted publish cfg e e' else e' = e)"

text \<open>Only the outbox table changes, row by row, in place.\<close>

definition outbox_steps :: "('d outbox_event \<Rightarrow> 'd outbox_event \<Rightarrow> bool) \<Rightarrow> 'd db \<Rightarrow> 'd db \<Rightarrow> bool" where
  "outbox_steps R d d' \<longleftrightarrow>
     (\<exists>es. list_all2 R (outboxT d) es \<and> d' = d\<lparr>outboxT := es\<rparr>)"

lemma update_rows_all2:
  assumes "\<And>r. R r r" and "\<And>r. r \<in> set rs \<Longrightarrow> key r = k \<Longrightarrow> R r (f r)"
  shows "list_all2 R rs (update_rows key k f rs)"
  using assms(2) by (induction rs) (auto simp: update_rows_def assms(1))

lemma outbox_steps_refl: "(\<And>e. R e e) \<Longrightarrow> outbox_steps R d d"
  unfolding outbox_steps_def by (rule exI [of _ "outboxT d"]) (simp add: list_all2_same)

lemma outbox_steps_mono: "outbox_steps R d d' \<Longrightarrow> (\<And>e f. R e f \<Longrightarrow> S e f) \<Longrightarrow> outbox_steps S d d'"
  unfolding outbox_steps_def using list_all2_mono by blast

lemma outbox_steps_trans:
  assumes "outbox_steps R d d1" and "outbox_steps S d1 d2" and "\<And>e f g. R e f \<Longrightarrow> S f g \<Longrightarrow> T e g"
  shows "outbox_steps T d d2"
proof -
  obtain es fs where "list_all2 R (outboxT d) es" "d1 = d\<lparr>outboxT := es\<rparr>"
    "list_all2 S es fs" "d2 = d\<lparr>outboxT := fs\<rparr>"
    using assms(1,2) by (auto simp: outbox_steps_def)
  moreover from this have "list_all2 T (outboxT d) fs"
    using list_all2_trans [of R S T] assms(3) by blast
  ultimately show ?thesis unfolding outbox_steps_def by (intro exI [of _ fs]) simp
qed

text \<open>A row rewritten by its key: the relation need only hold of the one row with that key.\<close>

lemma outbox_update_steps:
  assumes dist: "distinct (map obID (outboxT d))" and ev: "ev \<in> set (outboxT d)"
    and att: "attempted publish cfg ev (f ev)"
  shows "outbox_steps (on_event publish cfg {obID ev}) d (d\<lparr>outboxT := update_rows obID (obID ev) f (outboxT d)\<rparr>)"
proof -
  have "r = ev" if "r \<in> set (outboxT d)" "obID r = obID ev" for r
    using dist ev that by (auto simp: distinct_map dest: inj_onD)
  then have "list_all2 (on_event publish cfg {obID ev}) (outboxT d) (update_rows obID (obID ev) f (outboxT d))"
    using att by (intro update_rows_all2) (auto simp: on_event_def intro: attempted.Kept)
  then show ?thesis unfolding outbox_steps_def by blast
qed

lemma on_event_refl: "on_event publish cfg ids e e"
  by (simp add: on_event_def attempted.Kept)

lemma attempted_id: "attempted publish cfg e e' \<Longrightarrow> obID e' = obID e"
  by (induction rule: attempted.induct) auto

lemma on_event_id: "on_event publish cfg ids e e' \<Longrightarrow> obID e' = obID e"
  by (auto simp: on_event_def attempted_id split: if_splits)

lemma MarkPublished_run:
  "outboxRepo_MarkPublished E i t w = (r, w') \<Longrightarrow>
     committed w' = committed w \<or>
     committed w' = (committed w)\<lparr>outboxT := update_rows obID i
       (\<lambda>e. e\<lparr>obPublished := True, obPublishedAt := Some t\<rparr>) (outboxT (committed w))\<rparr>"
  by (auto simp: outboxRepo_MarkPublished_def poolStmt_def dbCall_def sql_MarkEventPublished_def Let_def
      split: option.splits)

lemma MarkDeadLettered_run:
  "outboxRepo_MarkDeadLettered E i t w = (r, w') \<Longrightarrow>
     committed w' = committed w \<or>
     committed w' = (committed w)\<lparr>outboxT := update_rows obID i
       (\<lambda>e. e\<lparr>obDeadLetteredAt := Some t\<rparr>) (outboxT (committed w))\<rparr>"
  by (auto simp: outboxRepo_MarkDeadLettered_def poolStmt_def dbCall_def sql_MarkOutboxDeadLettered_def Let_def
      split: option.splits)

lemma RecordFailure_Inr:
  "outboxRepo_RecordFailure E i e w = (Inr n, w') \<Longrightarrow>
     \<exists>row. find_row obID i (outboxT (committed w)) = Some row \<and> n = obAttempts row + 1 \<and>
       committed w' = (committed w)\<lparr>outboxT := update_rows obID i
         (\<lambda>r. r\<lparr>obAttempts := obAttempts r + 1, obLastError := Some e\<rparr>) (outboxT (committed w))\<rparr>"
  by (auto simp: outboxRepo_RecordFailure_def poolStmt_Inr sql_RecordOutboxFailure_def
      split: option.splits if_splits)

lemma RecordFailure_Inl:
  "outboxRepo_RecordFailure E i e w = (Inl x, w') \<Longrightarrow> committed w' = committed w"
  unfolding outboxRepo_RecordFailure_def by (rule poolStmt_Inl)

lemma update_rows_twice:
  "(\<And>r. key (f r) = key r) \<Longrightarrow> update_rows key k g (update_rows key k f rs) = update_rows key k (\<lambda>r. g (f r)) rs"
  by (simp add: update_rows_compose comp_def)

lemma recordFailure_attempted:
  assumes dist: "distinct (map obID (outboxT (committed w)))" and ev: "ev \<in> set (outboxT (committed w))"
    and pub: "publish k ev = Some x"
  shows "outbox_steps (on_event publish cfg {obID ev}) (committed w) (committed (snd (recordFailure E cfg ev x w)))"
proof -
  let ?d = "committed w"
  let ?rec = "\<lambda>r. r\<lparr>obAttempts := obAttempts r + 1, obLastError := Some x\<rparr>"
  obtain r w1 where rf: "outboxRepo_RecordFailure E (obID ev) x w = (r, w1)" by fastforce
  show ?thesis
  proof (cases r)
    case (Inl e)
    then have "committed w1 = ?d" using rf RecordFailure_Inl by metis
    then show ?thesis using rf Inl
      by (simp add: recordFailure_def ignoreM_def bindM_err_run outbox_steps_refl on_event_refl)
  next
    case (Inr n)
    then have n: "n = obAttempts ev + 1"
      and w1: "committed w1 = ?d\<lparr>outboxT := update_rows obID (obID ev) ?rec (outboxT ?d)\<rparr>"
      using RecordFailure_Inr rf find_row_unique [OF dist ev] by fastforce+
    have refused: "outbox_steps (on_event publish cfg {obID ev}) ?d (committed w1)"
      unfolding w1 by (rule outbox_update_steps [OF dist ev]) (rule attempted.Refused, rule pub)
    show ?thesis
    proof (cases "n < epMaxAttempts cfg")
      case True
      then show ?thesis using rf Inr refused
        by (simp add: recordFailure_def ignoreM_def bindM_cong_run)
    next
      case False
      obtain r2 w2 where md: "outboxRepo_MarkDeadLettered E (obID ev) (envNow E (nowCount w1))
          (w1\<lparr>nowCount := Suc (nowCount w1)\<rparr>) = (r2, w2)" by fastforce
      have run: "snd (recordFailure E cfg ev x w) = w2"
        using rf Inr False md by (simp add: recordFailure_def ignoreM_def bindM_cong_run Now_def bindM_def)
      from MarkDeadLettered_run [OF md] show ?thesis
      proof
        assume "committed w2 = committed (w1\<lparr>nowCount := Suc (nowCount w1)\<rparr>)"
        then show ?thesis using refused run by simp
      next
        assume "committed w2 = (committed (w1\<lparr>nowCount := Suc (nowCount w1)\<rparr>))\<lparr>outboxT :=
          update_rows obID (obID ev) (\<lambda>e. e\<lparr>obDeadLetteredAt := Some (envNow E (nowCount w1))\<rparr>)
            (outboxT (committed (w1\<lparr>nowCount := Suc (nowCount w1)\<rparr>)))\<rparr>"
        then have w2: "committed w2 = ?d\<lparr>outboxT := update_rows obID (obID ev)
            (\<lambda>r. (?rec r)\<lparr>obDeadLetteredAt := Some (envNow E (nowCount w1))\<rparr>) (outboxT ?d)\<rparr>"
          by (simp add: w1 update_rows_twice)
        have "attempted publish cfg ev ((?rec ev)\<lparr>obDeadLetteredAt := Some (envNow E (nowCount w1))\<rparr>)"
          using attempted.GaveUp [of publish k ev x cfg "envNow E (nowCount w1)"] pub n False by simp
        then show ?thesis unfolding run w2 by (rule outbox_update_steps [OF dist ev])
      qed
    qed
  qed
qed

lemma handleEvent_attempted:
  assumes dist: "distinct (map obID (outboxT (committed w)))" and ev: "ev \<in> set (outboxT (committed w))"
  shows "outbox_steps (on_event publish cfg {obID ev}) (committed w) (committed (snd (handleEvent E publish cfg ev w)))"
proof (cases "publish (callCount w) ev")
  case None
  obtain r w2 where mp: "outboxRepo_MarkPublished E (obID ev) (envNow E (nowCount w))
      (w\<lparr>nowCount := Suc (nowCount w)\<rparr>) = (r, w2)" by fastforce
  have run: "snd (handleEvent E publish cfg ev w) = w2"
    using mp None by (simp add: handleEvent_def ignoreM_def bindM_def Now_def)
  from MarkPublished_run [OF mp] show ?thesis
  proof
    assume "committed w2 = committed (w\<lparr>nowCount := Suc (nowCount w)\<rparr>)"
    then show ?thesis using run by (simp add: outbox_steps_refl on_event_refl)
  next
    assume "committed w2 = (committed (w\<lparr>nowCount := Suc (nowCount w)\<rparr>))\<lparr>outboxT := update_rows obID (obID ev)
       (\<lambda>e. e\<lparr>obPublished := True, obPublishedAt := Some (envNow E (nowCount w))\<rparr>)
       (outboxT (committed (w\<lparr>nowCount := Suc (nowCount w)\<rparr>)))\<rparr>"
    then have w2: "committed w2 = (committed w)\<lparr>outboxT := update_rows obID (obID ev)
       (\<lambda>e. e\<lparr>obPublished := True, obPublishedAt := Some (envNow E (nowCount w))\<rparr>) (outboxT (committed w))\<rparr>"
      by simp
    show ?thesis unfolding run w2
      by (rule outbox_update_steps [OF dist ev]) (rule attempted.Delivered, rule None)
  qed
next
  case (Some x)
  then show ?thesis using recordFailure_attempted [where publish = publish, OF dist ev Some]
    by (simp add: handleEvent_def)
qed

lemma handleEvent_never_fails: "\<exists>w'. handleEvent E publish cfg ev w = (Inr (), w')"
  by (auto simp: handleEvent_def recordFailure_def ignoreM_def split: option.splits)

section \<open>A pass\<close>

lemma outbox_steps_keys:
  assumes "outbox_steps (on_event publish cfg ids) d d'"
  shows "map obID (outboxT d') = map obID (outboxT d)"
proof -
  obtain es where "list_all2 (on_event publish cfg ids) (outboxT d) es" "d' = d\<lparr>outboxT := es\<rparr>"
    using assms by (auto simp: outbox_steps_def)
  moreover have "list_all2 R xs ys \<Longrightarrow> (\<And>x y. R x y \<Longrightarrow> obID y = obID x) \<Longrightarrow> map obID ys = map obID xs"
    for R and xs ys :: "'b outbox_event list"
    by (induction rule: list_all2_induct) auto
  ultimately show ?thesis using on_event_id by fastforce
qed

lemma outbox_steps_untouched:
  assumes "outbox_steps (on_event publish cfg ids) d d'" and "e \<in> set (outboxT d)" and "obID e \<notin> ids"
  shows "e \<in> set (outboxT d')"
proof -
  obtain es where es: "list_all2 (on_event publish cfg ids) (outboxT d) es" "d' = d\<lparr>outboxT := es\<rparr>"
    using assms(1) by (auto simp: outbox_steps_def)
  obtain k where k: "k < length (outboxT d)" "outboxT d ! k = e" using assms(2) by (auto simp: in_set_conv_nth)
  then have "on_event publish cfg ids e (es ! k)" "k < length es"
    using es(1) by (auto simp: list_all2_conv_all_nth)
  then have "es ! k = e" "k < length es" using assms(3) by (auto simp: on_event_def)
  then show ?thesis using es(2) by (auto simp: in_set_conv_nth)
qed

lemma handleAll_attempted:
  assumes "distinct (map obID (outboxT (committed w)))" and "set evs \<subseteq> set (outboxT (committed w))"
    and "distinct (map obID evs)"
  shows "outbox_steps (on_event publish cfg (obID ` set evs)) (committed w)
     (committed (snd (forM (handleEvent E publish cfg) evs w)))"
  using assms
proof (induction evs arbitrary: w)
  case Nil
  then show ?case by (simp add: outbox_steps_refl on_event_refl)
next
  case (Cons ev evs)
  obtain w1 where run: "handleEvent E publish cfg ev w = (Inr (), w1)" using handleEvent_never_fails by blast
  have one: "outbox_steps (on_event publish cfg {obID ev}) (committed w) (committed w1)"
    using handleEvent_attempted [OF Cons.prems(1), of ev publish cfg E] Cons.prems(2) run by simp
  have d1: "distinct (map obID (outboxT (committed w1)))"
    using outbox_steps_keys [OF one] Cons.prems(1) by simp
  have s1: "set evs \<subseteq> set (outboxT (committed w1))"
  proof
    fix e assume e: "e \<in> set evs"
    then have "obID e \<noteq> obID ev" using Cons.prems(3) by (metis distinct.simps(2) image_eqI list.set_map list.simps(9))
    then show "e \<in> set (outboxT (committed w1))"
      using outbox_steps_untouched [OF one] Cons.prems(2) e by auto
  qed
  have rest: "outbox_steps (on_event publish cfg (obID ` set evs)) (committed w1)
     (committed (snd (forM (handleEvent E publish cfg) evs w1)))"
    using Cons.IH [OF d1 s1] Cons.prems(3) by simp
  have snd: "snd (forM (handleEvent E publish cfg) (ev # evs) w) = snd (forM (handleEvent E publish cfg) evs w1)"
    using run by (simp add: bindM_def split: prod.splits sum.splits)
  show ?case unfolding snd
  proof (rule outbox_steps_trans [OF one rest])
    fix e f g
    assume "on_event publish cfg {obID ev} e f" "on_event publish cfg (obID ` set evs) f g"
    moreover have "obID ev \<notin> obID ` set evs" using Cons.prems(3) by simp
    ultimately show "on_event publish cfg (obID ` set (ev # evs)) e g"
      using on_event_id by (auto simp: on_event_def attempted_id split: if_splits)
  qed
qed

text \<open>A pass touches pending rows only, each at most once.\<close>

definition pass_row :: "'d publish \<Rightarrow> publisher_config \<Rightarrow> 'd outbox_event \<Rightarrow> 'd outbox_event \<Rightarrow> bool" where
  "pass_row publish cfg e e' \<longleftrightarrow> (if pending e then attempted publish cfg e e' else e' = e)"

lemma GetUnpublished_Inr:
  assumes "outboxRepo_GetUnpublished E lim w = (Inr evs, w')"
  shows "set evs \<subseteq> {e \<in> set (outboxT (committed w)). pending e}" "committed w' = committed w"
    "distinct (map obID (outboxT (committed w))) \<Longrightarrow> distinct (map obID evs)"
proof -
  have evs: "evs = take (nat (toInt32 lim)) (sort_key obCreatedAt (filter pending (outboxT (committed w))))"
    and w': "committed w' = committed w"
    using assms by (auto simp: outboxRepo_GetUnpublished_def poolStmt_Inr sql_GetUnpublishedEvents_def
        rows_Inr pg_limit_def limit_offset_def split: if_splits)
  show "set evs \<subseteq> {e \<in> set (outboxT (committed w)). pending e}"
    using evs by (auto dest: in_set_takeD)
  show "committed w' = committed w" by (rule w')
  assume dist: "distinct (map obID (outboxT (committed w)))"
  then have "distinct (map obID (sort_key obCreatedAt (filter pending (outboxT (committed w)))))"
    by (auto simp: distinct_map inj_on_def)
  then show "distinct (map obID evs)"
    unfolding evs by (simp add: take_map [symmetric] distinct_take)
qed

lemma processEvents_pass:
  assumes run: "processEvents E publish cfg w = (r, w')"
    and dist: "distinct (map obID (outboxT (committed w)))"
  shows "outbox_steps (pass_row publish cfg) (committed w) (committed w')"
proof -
  obtain r1 w1 where get: "outboxRepo_GetUnpublished E (epBatchSize cfg) w = (r1, w1)" by fastforce
  show ?thesis
  proof (cases r1)
    case (Inl e)
    then have "committed w1 = committed w"
      using get unfolding outboxRepo_GetUnpublished_def by (metis poolStmt_Inl)
    then show ?thesis using run get Inl
      by (auto simp: processEvents_def bindM_err_run intro!: outbox_steps_refl simp: pass_row_def attempted.Kept)
  next
    case (Inr evs)
    note g = GetUnpublished_Inr [OF get [unfolded Inr]]
    have "w' = snd (forM (handleEvent E publish cfg) evs w1)"
      using run get Inr by (auto simp: processEvents_def bindM_def split: prod.splits sum.splits)
    moreover have "outbox_steps (on_event publish cfg (obID ` set evs)) (committed w1)
        (committed (snd (forM (handleEvent E publish cfg) evs w1)))"
      by (rule handleAll_attempted) (use g dist in auto)
    ultimately obtain es where es: "list_all2 (on_event publish cfg (obID ` set evs)) (outboxT (committed w)) es"
        "committed w' = (committed w)\<lparr>outboxT := es\<rparr>"
      using g(2) by (auto simp: outbox_steps_def)
    have "pending e" if e: "e \<in> set (outboxT (committed w))" "obID e \<in> obID ` set evs" for e
    proof -
      obtain f where "f \<in> set evs" "obID f = obID e" using e(2) by auto
      then have "f = e" "pending f" using g(1) dist e(1) by (auto simp: distinct_map dest: inj_onD)
      then show ?thesis by simp
    qed
    then have "list_all2 (pass_row publish cfg) (outboxT (committed w)) es"
      using es(1) by (auto simp: list_all2_conv_all_nth pass_row_def on_event_def attempted.Kept split: if_splits)
    then show ?thesis using es(2) unfolding outbox_steps_def by blast
  qed
qed

section \<open>Delivery\<close>

text \<open>No database call fails, and the publisher takes every event.\<close>

lemma handleEvent_delivers:
  assumes ok: "\<And>n. envFault E n = None" and take: "\<And>n e. publish n e = None"
  shows "\<exists>w'. handleEvent E publish cfg ev w = (Inr (), w') \<and>
    outboxT (committed w') = update_rows obID (obID ev)
       (\<lambda>e. e\<lparr>obPublished := True, obPublishedAt := Some (envNow E (nowCount w))\<rparr>) (outboxT (committed w))"
  by (simp add: handleEvent_def take ignoreM_def bindM_def Now_def outboxRepo_MarkPublished_def poolStmt_def
      dbCall_def ok sql_MarkEventPublished_def Let_def)

lemma pending_after:
  assumes "distinct (map obID es)" and "ev \<in> set es" and "pending ev"
  shows "Suc (length (filter pending (update_rows obID (obID ev)
     (\<lambda>e. e\<lparr>obPublished := True, obPublishedAt := Some t\<rparr>) es))) = length (filter pending es)"
proof -
  obtain xs ys where es: "es = xs @ ev # ys" using assms(2) by (auto dest: split_list)
  have "obID ev \<notin> obID ` set xs" "obID ev \<notin> obID ` set ys" using assms(1) es by auto
  note others = this [THEN update_rows_other]
  have "update_rows obID (obID ev) f es = xs @ f ev # ys" for f
    using others(1) [of f] others(2) [of f] by (simp add: es update_rows_def)
  then show ?thesis using assms(3) by (simp add: es pending_def)
qed

lemma handleAll_delivers:
  assumes ok: "\<And>n. envFault E n = None" and take: "\<And>n e. publish n e = None"
    and "distinct (map obID (outboxT (committed w)))" and "distinct (map obID evs)"
    and "set evs \<subseteq> {e \<in> set (outboxT (committed w)). pending e}"
  shows "length (filter pending (outboxT (committed (snd (forM (handleEvent E publish cfg) evs w))))) + length evs =
      length (filter pending (outboxT (committed w)))"
  using assms(3-5)
proof (induction evs arbitrary: w)
  case Nil
  then show ?case by simp
next
  case (Cons ev evs)
  let ?f = "\<lambda>e. e\<lparr>obPublished := True, obPublishedAt := Some (envNow E (nowCount w))\<rparr>"
  obtain w1 where run: "handleEvent E publish cfg ev w = (Inr (), w1)"
    and o1: "outboxT (committed w1) = update_rows obID (obID ev) ?f (outboxT (committed w))"
    using handleEvent_delivers [where publish = publish, OF ok take] by blast
  have ev: "ev \<in> set (outboxT (committed w))" "pending ev" using Cons.prems(3) by auto
  have "e \<in> set (update_rows obID (obID ev) ?f (outboxT (committed w)))" if "e \<in> set evs" for e
  proof -
    have "obID e \<noteq> obID ev" using that Cons.prems(2) by (metis distinct.simps(2) image_eqI list.set_map list.simps(9))
    then show ?thesis using that Cons.prems(3) unfolding set_update_rows by (auto intro!: bexI [of _ e])
  qed
  then have "set evs \<subseteq> {e \<in> set (outboxT (committed w1)). pending e}" using Cons.prems(3) o1 by auto
  moreover have "distinct (map obID (outboxT (committed w1)))" using Cons.prems(1) o1 by simp
  moreover have "snd (forM (handleEvent E publish cfg) (ev # evs) w) = snd (forM (handleEvent E publish cfg) evs w1)"
    using run by (simp add: bindM_def split: prod.splits sum.splits)
  ultimately show ?case
    using Cons.IH [of w1] pending_after [OF Cons.prems(1) ev, of "envNow E (nowCount w)"] Cons.prems(2) o1 by simp
qed

lemma pass_delivers:
  assumes ok: "\<And>n. envFault E n = None" and take: "\<And>n e. publish n e = None"
    and dist: "distinct (map obID (outboxT (committed w)))" and b: "0 \<le> epBatchSize cfg" "epBatchSize cfg \<le> max_int32"
  shows "length (filter pending (outboxT (committed (snd (processEvents E publish cfg w))))) =
     length (filter pending (outboxT (committed w))) - nat (epBatchSize cfg)"
proof -
  let ?d = "committed w"
  let ?evs = "take (nat (epBatchSize cfg)) (sort_key obCreatedAt (filter pending (outboxT ?d)))"
  let ?w1 = "w\<lparr>callCount := Suc (callCount w)\<rparr>"
  have get: "outboxRepo_GetUnpublished E (epBatchSize cfg) w = (Inr ?evs, ?w1)"
    using b by (simp add: outboxRepo_GetUnpublished_def poolStmt_def dbCall_def Let_def ok sql_GetUnpublishedEvents_def
        rows_def pg_limit_def limit_offset_def toInt32_def min_int32_def)
  have "snd (processEvents E publish cfg w) = snd (forM (handleEvent E publish cfg) ?evs ?w1)"
    using get by (simp add: processEvents_def bindM_def split: prod.splits sum.splits)
  moreover have "distinct (map obID ?evs)" by (rule GetUnpublished_Inr(3) [OF get dist])
  moreover have "set ?evs \<subseteq> {e \<in> set (outboxT (committed ?w1)). pending e}" using GetUnpublished_Inr(1) [OF get] by simp
  ultimately have "length (filter pending (outboxT (committed (snd (processEvents E publish cfg w))))) + length ?evs =
      length (filter pending (outboxT ?d))"
    using handleAll_delivers [where w = ?w1 and evs = ?evs and E = E and publish = publish and cfg = cfg, OF ok take] dist
    by simp
  moreover have "length ?evs = min (length (filter pending (outboxT ?d))) (nat (epBatchSize cfg))" by simp
  ultimately show ?thesis by linarith
qed

end
