(* ===== verification/System.thy ===== *)
theory System
  imports ReconciliationLaws Publisher "HOL-Library.Sublist"
begin

text \<open>
  The whole service as a step relation: every operation that changes the database, in any order, with
  any inputs, any clock and identifiers, and any pattern of failures. Transactions are steps of their
  own: what the row locks of the code guarantee of concurrent ones. Reachable states satisfy
  the ledger invariant and keep the audit chain intact.
\<close>

section \<open>Opening an account\<close>

lemma no_holds:
  assumes "holds_ok d" and "i \<notin> accID ` set (accountsT d)"
  shows "active_holds (holdsT d) i = []"
  using assms by (auto simp: active_holds_def holds_ok_def filter_empty_conv)

lemma opened_inv:
  assumes op: "opened d a d'" and inv: "ledger_inv d"
  shows "ledger_inv d'"
proof -
  have new: "accID a \<notin> accID ` set (accountsT d)" and a: "accBalance a = 0" "accEncumbered a = 0" "accVersion a = 0"
    and d': "d' = d\<lparr>accountsT := accountsT d @ [a]\<rparr>"
    using op by (simp_all add: opened_def)
  have parts: "keys_ok d" "checks_ok d" "chains_ok d" "transfers_ok d" "reversals_ok d" "holds_ok d" "outbox_ok d"
    using inv by (simp_all add: ledger_inv_def)
  have es: "account_entries d' i = account_entries d i" for i by (simp add: d' account_entries_def)
  have "keys_ok d'" using parts(1) new by (simp add: keys_ok_def d')
  moreover have "checks_ok d'" using parts(2) a by (simp add: checks_ok_def d' account_check_def)
  moreover have "chains_ok d'"
    using parts(3) no_entries [OF parts(4) new] a es by (simp add: chains_ok_def) (simp add: d')
  moreover have "currency_of d' i = Some c" if "currency_of d i = Some c" for i c
    using that by (auto simp: currency_of_def d' find_row_append split: option.splits)
  then have "double_entry d' t" if "double_entry d t" for t
    using that by (auto simp: double_entry_def transfer_entries_def d')
  then have "transfers_ok d'" using parts(4) by (auto simp: transfers_ok_def d')
  moreover have "reversals_ok d'" using parts(5) by (simp add: reversals_ok_def d')
  moreover have "holds_ok d'"
    using parts(6) no_holds [OF parts(6) new] a by (auto simp: holds_ok_def d')
  moreover have "outbox_ok d'" using parts(7) by (simp add: outbox_ok_def d')
  ultimately show ?thesis by (simp add: ledger_inv_def)
qed

section \<open>The publisher\<close>

lemma outbox_ok_cong:
  assumes same: "map (\<lambda>e. (obAggregateType e, obAggregateID e, obSequence e)) es =
      map (\<lambda>e. (obAggregateType e, obAggregateID e, obSequence e)) (outboxT d)"
    and ok: "outbox_ok d"
  shows "outbox_ok (d\<lparr>outboxT := es\<rparr>)"
proof -
  let ?f = "\<lambda>e. (obAggregateType e, obAggregateID e, obSequence e)"
  have seqs: "map obSequence (filter (same_aggregate e) xs) =
      map (\<lambda>(t, i, s). s) (filter (\<lambda>(t, i, s). t = obAggregateType e \<and> i = obAggregateID e) (map ?f xs))"
    for e and xs :: "'a outbox_event list"
    by (simp add: filter_map comp_def same_aggregate_def cong: filter_cong)
  have "map obSequence (filter (same_aggregate e) es) = map obSequence (filter (same_aggregate e) (outboxT d))" for e
    unfolding seqs same ..
  moreover have "map obSequence (filter (same_aggregate e) (outboxT d)) =
      map int [1..<Suc (length (filter (same_aggregate e) (outboxT d)))]" for e
    using outbox_numbered [OF ok] by blast
  ultimately have num: "map obSequence (filter (same_aggregate e) es) =
      map int [1..<Suc (length (filter (same_aggregate e) (outboxT d)))]" for e by simp
  have "length (filter (same_aggregate e) es) = length (filter (same_aggregate e) (outboxT d))" for e
    using arg_cong [OF num, of length] by (simp del: upt_Suc)
  then show ?thesis using num by (simp add: outbox_ok_def Let_def del: upt_Suc)
qed

lemma pass_inv:
  assumes st: "outbox_steps (pass_row publish cfg) d d'" and inv: "ledger_inv d"
  shows "ledger_inv d'"
proof -
  obtain es where es: "list_all2 (pass_row publish cfg) (outboxT d) es" and d': "d' = d\<lparr>outboxT := es\<rparr>"
    using st by (auto simp: outbox_steps_def)
  have "attempted publish cfg e e' \<Longrightarrow> obAggregateType e' = obAggregateType e \<and>
      obAggregateID e' = obAggregateID e \<and> obSequence e' = obSequence e" for e e'
    by (induction rule: attempted.induct) auto
  then have same: "map (\<lambda>e. (obAggregateType e, obAggregateID e, obSequence e)) es =
      map (\<lambda>e. (obAggregateType e, obAggregateID e, obSequence e)) (outboxT d)"
    using es unfolding list_all2_conv_all_nth pass_row_def by (intro nth_equalityI; simp; metis)
  have "map obID es = map obID (outboxT d)"
    using es attempted_id [of publish cfg] unfolding list_all2_conv_all_nth pass_row_def
    by - (rule nth_equalityI; simp; metis)
  then have "keys_ok d'" using inv by (simp add: ledger_inv_def keys_ok_def d')
  moreover have "outbox_ok d'" unfolding d' by (rule outbox_ok_cong [OF same]) (use inv in \<open>simp add: ledger_inv_def\<close>)
  ultimately show ?thesis using inv
    by (simp add: ledger_inv_def d' checks_ok_def chains_ok_def transfers_ok_def reversals_ok_def holds_ok_def
        double_entry_def currency_of_def account_entries_def transfer_entries_def)
qed

section \<open>What every operation keeps\<close>

definition sys_inv :: "hasher \<Rightarrow> 'd::linordered_idom db \<Rightarrow> bool" where
  "sys_inv H d \<longleftrightarrow> ledger_inv d \<and> audit_ok H d"

definition same_audit :: "'d db \<Rightarrow> 'd db \<Rightarrow> bool" where
  "same_audit d d' \<longleftrightarrow> auditT d' = auditT d \<and> chainHash d' = chainHash d \<and> chainSeq d' = chainSeq d"

lemma audit_ok_same: "same_audit d d' \<Longrightarrow> audit_ok H d \<Longrightarrow> audit_ok H d'"
  by (simp add: same_audit_def audit_ok_def)

lemma effects_same_audit:
  "posted d ts d' \<Longrightarrow> same_audit d d'" "held d h d' \<Longrightarrow> same_audit d d'"
  "released d h now d' \<Longrightarrow> same_audit d d'" "captured d h t d' \<Longrightarrow> same_audit d d'"
  "opened d a d' \<Longrightarrow> same_audit d d'" "outbox_steps R d d' \<Longrightarrow> same_audit d d'"
  by (auto simp: same_audit_def held_def released_def captured_def opened_def outbox_steps_def
      with_account_def post_def dest: posted_frame dest!: sql_CreateOutboxEvent_Inr(3))

text \<open>An effect on the money tables followed by audit rows keeps the invariant.\<close>

lemma effect_inv:
  assumes "ledger_inv d1" and "same_audit d d1" and "audits_only H d1 d'" and "sys_inv H d"
  shows "sys_inv H d'"
  using assms ledger_inv_same audit_ok_same unfolding sys_inv_def audits_only_def by blast

lemma audits_inv: "audits_only H d d' \<Longrightarrow> sys_inv H d \<Longrightarrow> sys_inv H d'"
  using ledger_inv_same unfolding sys_inv_def audits_only_def by blast

lemma sys_ledger: "sys_inv H d \<Longrightarrow> ledger_inv d"
  by (simp add: sys_inv_def)

lemma CreateBatchTransfer_sys:
  assumes run: "CreateBatchTransfer E R ctx input w = (r, w')" and inv: "sys_inv (envHasher E) (committed w)"
  shows "sys_inv (envHasher E) (committed w')"
proof (cases r)
  case (Inl e)
  then show ?thesis using CreateBatchTransfer_failed run audits_inv inv by blast
next
  case (Inr ts)
  then obtain d1 where "posted (committed w) ts d1" "audits_only (envHasher E) d1 (committed w')"
    using CreateBatchTransfer_succeeded(1) run sys_ledger [OF inv] unfolding batch_done_def by blast
  then show ?thesis using effect_inv posted_inv effects_same_audit(1) sys_ledger [OF inv] inv by blast
qed

lemma CreateTransfer_batch:
  assumes "CreateTransfer E R ctx input w = (r, w')"
  obtains r' where "CreateBatchTransfer E R ctx
      \<lparr>cbEventAt = ciEventAt input, cbMetadata = ciMetadata input, cbTransfers = [input]\<rparr> w = (r', w')"
    "r = (case r' of Inl e \<Rightarrow> Inl e | Inr ts \<Rightarrow> Inr (hd ts))"
  using assms by (auto simp: CreateTransfer_def bindM_def split: prod.splits sum.splits)

lemma poolStmt_query:
  "poolStmt E (query f) w = (r, w') \<Longrightarrow> committed w' = committed w"
  "poolStmt E (\<lambda>d. one_row (g d) d) w = (r, w') \<Longrightarrow> committed w' = committed w"
  "poolStmt E (\<lambda>d. rows (h d) d) w = (r, w') \<Longrightarrow> committed w' = committed w"
  by (cases r; auto simp: poolStmt_Inr query_Inr one_row_Inr rows_Inr dest: poolStmt_Inl)+

lemma transferRepo_GetByID_reads:
  "transferRepo_GetByID E i w = (r, w') \<Longrightarrow> committed w' = committed w"
  by (cases r) (auto simp: transferRepo_GetByID_def translateM_Inr translateM_Inl poolStmt_Inr
      sql_GetTransferByID_def one_row_Inr dest: poolStmt_Inl)

definition reversal_input :: "'d transfer \<Rightarrow> int \<Rightarrow> metadata \<Rightarrow> 'd CreateBatchTransferInput" where
  "reversal_input original now md =
     \<lparr>cbEventAt = Some now, cbMetadata = None,
      cbTransfers = [\<lparr>ciEventAt = None, ciMetadata = reversalMetadata md (trID original),
        ciFrom = trTo original, ciTo = trFrom original, ciAmount = trAmount original,
        ciReversed = Some (trID original)\<rparr>]\<rparr>"

lemma ReverseTransfer_batch:
  assumes "ReverseTransfer E R ctx i md w = (r, w')"
  shows "(\<exists>e. r = Inl e \<and> committed w' = committed w) \<or>
     (\<exists>original now v r'. find_row trID i (transfersT (committed w)) = Some original \<and>
        committed v = committed w \<and>
        CreateBatchTransfer E R ctx (reversal_input original now md) v = (r', w') \<and>
        r = (case r' of Inl e \<Rightarrow> Inl e | Inr ts \<Rightarrow> Inr (hd ts)))"
proof -
  obtain r1 w1 where get: "transferRepo_GetByID E i w = (r1, w1)" by fastforce
  show ?thesis
  proof (cases r1)
    case (Inl e)
    then have "r = Inl e" "w' = w1" using assms get by (auto simp: ReverseTransfer_def bindM_err_run)
    then show ?thesis using transferRepo_GetByID_reads [OF get] by simp
  next
    case (Inr original)
    then have row: "find_row trID i (transfersT (committed w)) = Some original"
      using get by (auto simp: transferRepo_GetByID_def translateM_Inr poolStmt_Inr sql_GetTransferByID_def one_row_Inr)
    let ?v = "w1\<lparr>nowCount := Suc (nowCount w1)\<rparr>"
    obtain r' v' where bt: "CreateBatchTransfer E R ctx (reversal_input original (envNow E (nowCount w1)) md) ?v = (r', v')"
      by fastforce
    have "v' = w'" "r = (case r' of Inl e \<Rightarrow> Inl e | Inr ts \<Rightarrow> Inr (hd ts))"
      using assms get Inr bt
      by (auto simp: ReverseTransfer_def bindM_def Now_def reversal_input_def split: sum.splits)
    then show ?thesis using row transferRepo_GetByID_reads [OF get] bt
      by (intro disjI2 exI [of _ original] exI [of _ "envNow E (nowCount w1)"] exI [of _ ?v] exI [of _ r']) simp
  qed
qed

lemma ReverseTransfer_sys:
  assumes "ReverseTransfer E R ctx i md w = (r, w')" and "sys_inv (envHasher E) (committed w)"
  shows "sys_inv (envHasher E) (committed w')"
  using ReverseTransfer_batch [OF assms(1)] CreateBatchTransfer_sys assms(2) by metis

lemma HoldFunds_sys:
  assumes run: "HoldFunds E ctx acc amount w = (r, w')" and inv: "sys_inv (envHasher E) (committed w)"
  shows "sys_inv (envHasher E) (committed w')"
proof (cases r)
  case (Inl e)
  then show ?thesis using HoldFunds_failed run audits_inv inv by blast
next
  case (Inr h)
  then show ?thesis
    using HoldFunds_succeeded(1) run effect_inv held_inv effects_same_audit(2) sys_ledger [OF inv] inv by blast
qed

lemma VoidHold_sys:
  assumes run: "VoidHold E ctx hid w = (r, w')" and inv: "sys_inv (envHasher E) (committed w)"
  shows "sys_inv (envHasher E) (committed w')"
proof (cases r)
  case (Inl e)
  then show ?thesis using VoidHold_failed run audits_inv inv by blast
next
  case (Inr u)
  then show ?thesis
    using VoidHold_succeeded run effect_inv released_inv effects_same_audit(3) sys_ledger [OF inv] inv by blast
qed

lemma CaptureHold_sys:
  assumes run: "CaptureHold E ctx hid to w = (r, w')" and inv: "sys_inv (envHasher E) (committed w)"
  shows "sys_inv (envHasher E) (committed w')"
proof (cases r)
  case (Inl e)
  then show ?thesis using CaptureHold_failed run audits_inv inv by blast
next
  case (Inr t)
  then show ?thesis
    using CaptureHold_succeeded(1) run effect_inv captured_inv effects_same_audit(4) sys_ledger [OF inv] inv by blast
qed

lemma CreateAccount_sys:
  assumes run: "CreateAccount E ctx input w = (r, w')" and inv: "sys_inv (envHasher E) (committed w)"
  shows "sys_inv (envHasher E) (committed w')"
proof (cases r)
  case (Inl e)
  then show ?thesis using CreateAccount_failed run audits_inv inv by blast
next
  case (Inr a)
  then show ?thesis
    using CreateAccount_succeeded(1) run effect_inv opened_inv effects_same_audit(5) sys_ledger [OF inv] inv by blast
qed

lemma processEvents_sys:
  assumes run: "processEvents E publish cfg w = (r, w')" and inv: "sys_inv H (committed w)"
  shows "sys_inv H (committed w')"
proof -
  have "outbox_steps (pass_row publish cfg) (committed w) (committed w')"
    using processEvents_pass [OF run] sys_ledger [OF inv] by (simp add: ledger_inv_def keys_ok_def)
  then show ?thesis
    using pass_inv effects_same_audit(6) audit_ok_same inv unfolding sys_inv_def by blast
qed

section \<open>Steps and reachable states\<close>

text \<open>A step: an operation of the service with the outside world it happens to meet.\<close>

inductive step :: "hasher \<Rightarrow> 'd::linordered_idom world \<Rightarrow> 'd world \<Rightarrow> bool" for H where
  step_account: "envHasher E = H \<Longrightarrow> CreateAccount E ctx ai w = (r, w') \<Longrightarrow> step H w w'"
| step_batch: "envHasher E = H \<Longrightarrow> CreateBatchTransfer E R ctx bi w = (r, w') \<Longrightarrow> step H w w'"
| step_reverse: "envHasher E = H \<Longrightarrow> ReverseTransfer E R ctx i md w = (r, w') \<Longrightarrow> step H w w'"
| step_hold: "envHasher E = H \<Longrightarrow> HoldFunds E ctx acc amount w = (r, w') \<Longrightarrow> step H w w'"
| step_void: "envHasher E = H \<Longrightarrow> VoidHold E ctx hid w = (ru, w') \<Longrightarrow> step H w w'"
| step_capture: "envHasher E = H \<Longrightarrow> CaptureHold E ctx hid to w = (r, w') \<Longrightarrow> step H w w'"
| step_publish: "processEvents E publish cfg w = (ru, w') \<Longrightarrow> step H w w'"

text \<open>The contract of a step relation with an invariant.\<close>

locale step_invariant =
  fixes init :: "'s \<Rightarrow> bool" and steps :: "'s \<Rightarrow> 's \<Rightarrow> bool" and I :: "'s \<Rightarrow> bool"
  assumes init_ok: "init s \<Longrightarrow> I s" and step_ok: "steps s s' \<Longrightarrow> I s \<Longrightarrow> I s'"
begin

lemma reachable_ok:
  assumes "init s" and "steps\<^sup>*\<^sup>* s s'"
  shows "I s'"
  using assms(2,1) by (induction rule: rtranclp_induct) (auto intro: init_ok step_ok)

end

definition initial :: "'d world \<Rightarrow> bool" where
  "initial w \<longleftrightarrow> committed w = empty_db"

definition reachable :: "hasher \<Rightarrow> 'd::linordered_idom world \<Rightarrow> bool" where
  "reachable H w \<longleftrightarrow> (\<exists>w0. initial w0 \<and> (step H)\<^sup>*\<^sup>* w0 w)"

lemma step_sys: "step H w w' \<Longrightarrow> sys_inv H (committed w) \<Longrightarrow> sys_inv H (committed w')"
  by (induction rule: step.induct)
    (auto dest: CreateAccount_sys CreateBatchTransfer_sys ReverseTransfer_sys HoldFunds_sys VoidHold_sys
      CaptureHold_sys processEvents_sys)

interpretation ledger_system: step_invariant initial "step H" "\<lambda>w. sys_inv H (committed w)" for H
proof
  show "initial s \<Longrightarrow> sys_inv H (committed s)" for s
    by (simp add: initial_def sys_inv_def ledger_inv_empty audit_ok_empty)
qed (rule step_sys)

lemma reachable_sys: "reachable H w \<Longrightarrow> sys_inv H (committed w)"
  unfolding reachable_def using ledger_system.reachable_ok by blast

section \<open>What a step can do\<close>

inductive effect :: "'d::linordered_idom db \<Rightarrow> 'd db \<Rightarrow> bool" where
  no_effect: "effect d d"
| by_transfers: "posted d ts d' \<Longrightarrow> effect d d'"
| by_hold: "held d h d' \<Longrightarrow> effect d d'"
| by_void: "released d h now d' \<Longrightarrow> effect d d'"
| by_capture: "captured d h t d' \<Longrightarrow> effect d d'"
| by_account: "opened d a d' \<Longrightarrow> effect d d'"
| by_publisher: "outbox_steps (pass_row publish cfg) d d' \<Longrightarrow> effect d d'"

inductive_cases effectE: "effect d d'"

text \<open>Every step is one such effect and then audit rows.\<close>

lemma batch_effect:
  assumes run: "CreateBatchTransfer E R ctx bi w = (r, w')" and inv: "ledger_inv (committed w)"
  shows "\<exists>d. effect (committed w) d \<and> audits_only (envHasher E) d (committed w')"
proof (cases r)
  case (Inl e)
  then show ?thesis using CreateBatchTransfer_failed run no_effect by blast
next
  case (Inr ts)
  then show ?thesis
    using CreateBatchTransfer_succeeded(1) run inv by_transfers unfolding batch_done_def by blast
qed

lemma step_effect:
  assumes st: "step H w w'" and inv: "sys_inv H (committed w)"
  shows "\<exists>d. effect (committed w) d \<and> audits_only H d (committed w')"
  using st
proof cases
  case (step_account E ctx ai r)
  then show ?thesis
    using CreateAccount_failed CreateAccount_succeeded(1) no_effect by_account by (cases r) blast+
next
  case (step_batch E R ctx bi r)
  then show ?thesis using batch_effect sys_ledger [OF inv] by blast
next
  case (step_reverse E R ctx i md r)
  then show ?thesis
    using ReverseTransfer_batch [OF step_reverse(2)] batch_effect sys_ledger [OF inv] no_effect
      audits_only_refl by metis
next
  case (step_hold E ctx acc amount r)
  then show ?thesis
    using HoldFunds_failed HoldFunds_succeeded(1) no_effect by_hold by (cases r) blast+
next
  case (step_void E ctx hid ru)
  then show ?thesis using VoidHold_failed VoidHold_succeeded no_effect by_void by (cases ru) blast+
next
  case (step_capture E ctx hid to r)
  show ?thesis
  proof (cases r)
    case (Inl e)
    then show ?thesis using step_capture CaptureHold_failed no_effect by blast
  next
    case (Inr t)
    then have "CaptureHold E ctx hid to w = (Inr t, w')" using step_capture by simp
    then show ?thesis
      using CaptureHold_succeeded(1) [OF _ sys_ledger [OF inv]] step_capture(1) by_capture by blast
  qed
next
  case (step_publish E publish cfg ru)
  then have "outbox_steps (pass_row publish cfg) (committed w) (committed w')"
    using processEvents_pass sys_ledger [OF inv] by (auto simp: ledger_inv_def keys_ok_def)
  then show ?thesis using by_publisher audits_only_refl by blast
qed

lemma posted1_appends:
  assumes "posted1 d t d'"
  shows "\<exists>e1 e2. entriesT d' = entriesT d @ [e1, e2]"
proof -
  obtain a b e1 e2 i row where
    "sql_CreateOutboxEvent (transferEvent i t (trCreatedAt t))
       (post t e1 e2 (debited a t) (credited b t) d) = Inr (row, d')"
    using assms unfolding posted1_def by blast
  then show ?thesis using sql_CreateOutboxEvent_Inr(3) by (fastforce simp: post_def)
qed

lemma posted_appends: "posted d ts d' \<Longrightarrow> \<exists>es. entriesT d' = entriesT d @ es"
proof (induction ts arbitrary: d)
  case (Cons t ts)
  then obtain d1 where "posted1 d t d1" "posted d1 ts d'" by auto
  then show ?case using posted1_appends Cons.IH by (metis append.assoc)
qed simp

text \<open>Transfers and entries are only ever appended.\<close>

lemma effect_appends:
  "effect d d' \<Longrightarrow> \<exists>ts es. transfersT d' = transfersT d @ ts \<and> entriesT d' = entriesT d @ es"
proof (erule effectE)
  fix ts assume p: "posted d ts d'"
  then show ?thesis using posted_frame [OF p] posted_appends [OF p] by blast
next
  fix h t assume "captured d h t d'"
  then show ?thesis unfolding captured_def
    by (auto dest!: sql_CreateOutboxEvent_Inr(3) simp: post_def)
qed (auto simp: held_def released_def opened_def outbox_steps_def with_account_def
      dest!: sql_CreateOutboxEvent_Inr(3))

lemma effect_audited: "audits_only H d d' \<Longrightarrow> same_ledger d d'"
  by (simp add: audits_only_def)

text \<open>No operation on the ledger touches the users.\<close>

lemma posted1_users: "posted1 d t d' \<Longrightarrow> usersT d' = usersT d"
  unfolding posted1_def by (auto simp: post_def dest!: sql_CreateOutboxEvent_Inr(3))

lemma posted_users: "posted d ts d' \<Longrightarrow> usersT d' = usersT d"
  by (induction ts arbitrary: d) (auto dest: posted1_users)

lemma effect_users: "effect d d' \<Longrightarrow> usersT d' = usersT d"
  by (erule effectE)
    (auto simp: posted_users held_def released_def captured_def opened_def outbox_steps_def with_account_def post_def
      dest!: sql_CreateOutboxEvent_Inr(3))

text \<open>A hold that ended stays as it is; an active hold ends at most by void or capture.\<close>

lemma ended_kept:
  assumes "keys_ok d" and "x \<in> set (holdsT d)" and "h \<in> set (holdsT d)"
    and "hoStatus h = HoldStatusActive" and "hoStatus x \<noteq> HoldStatusActive"
  shows "x \<in> set (update_rows hoID (hoID h) f (holdsT d))"
proof -
  have "hoID x \<noteq> hoID h"
    using assms by (auto simp: keys_ok_def distinct_map dest: inj_onD)
  then show ?thesis using assms(2) unfolding set_update_rows by metis
qed

lemma effect_holds:
  assumes eff: "effect d d'" and k: "keys_ok d" and x: "x \<in> set (holdsT d)" "hoStatus x \<noteq> HoldStatusActive"
  shows "x \<in> set (holdsT d')"
  using eff
proof (rule effectE)
  fix ts assume p: "posted d ts d'"
  then show ?thesis using posted_frame [OF p] x(1) by simp
next
  fix h now assume "released d h now d'"
  then show ?thesis unfolding released_def
    using ended_kept [OF k x(1) _ _ x(2)] by (auto dest!: sql_CreateOutboxEvent_Inr(3) simp: with_account_def)
next
  fix h t assume "captured d h t d'"
  then show ?thesis unfolding captured_def
    using ended_kept [OF k x(1) _ _ x(2)] by (auto dest!: sql_CreateOutboxEvent_Inr(3) simp: post_def)
qed (use x in \<open>auto simp: held_def opened_def outbox_steps_def with_account_def
      dest!: sql_CreateOutboxEvent_Inr(3)\<close>)

section \<open>The past is kept\<close>

lemma steps_reachable: "(step H)\<^sup>*\<^sup>* w w' \<Longrightarrow> reachable H w \<Longrightarrow> reachable H w'"
  unfolding reachable_def by (meson rtranclp_trans)

text \<open>The record of the past in one state is part of the record in the other.\<close>

definition past_kept :: "'d::linordered_idom db \<Rightarrow> 'd db \<Rightarrow> bool" where
  "past_kept d d' \<longleftrightarrow>
     prefix (transfersT d) (transfersT d') \<and> prefix (entriesT d) (entriesT d') \<and> prefix (auditT d) (auditT d') \<and>
     (\<forall>h \<in> set (holdsT d). hoStatus h \<noteq> HoldStatusActive \<longrightarrow> h \<in> set (holdsT d'))"

lemma past_kept_refl: "past_kept d d"
  by (simp add: past_kept_def)

lemma past_kept_trans: "past_kept a b \<Longrightarrow> past_kept b c \<Longrightarrow> past_kept a c"
  unfolding past_kept_def by (meson prefix_order.trans)

lemma effect_same_audit: "effect d d' \<Longrightarrow> ledger_inv d \<Longrightarrow> same_audit d d'"
  by (elim effectE) (auto simp: same_audit_def dest: effects_same_audit)

lemma effect_past_kept: "effect d d' \<Longrightarrow> ledger_inv d \<Longrightarrow> past_kept d d'"
  using effect_appends effect_holds effect_same_audit
  unfolding past_kept_def by (metis prefix_def ledger_inv_def same_audit_def prefix_order.refl)

lemma audits_past_kept:
  assumes "past_kept d d1" and "audits_only H d1 d'"
  shows "past_kept d d'"
proof -
  have "prefix (auditT d1) (auditT d')"
    using assms(2) by (auto simp: audits_only_def audit_appended_def)
  then show ?thesis
    using assms same_ledger_observe [OF effect_audited [OF assms(2)]]
    unfolding past_kept_def by (auto intro: prefix_order.trans)
qed

text \<open>A step relation with an invariant and a relation every step keeps: so do the runs.\<close>

locale step_history = step_invariant +
  fixes K :: "'s \<Rightarrow> 's \<Rightarrow> bool"
  assumes same_kept: "K s s" and kept_trans: "K s u \<Longrightarrow> K u v \<Longrightarrow> K s v"
    and step_kept: "steps s s' \<Longrightarrow> I s \<Longrightarrow> K s s'"
begin

lemma run_kept:
  assumes "steps\<^sup>*\<^sup>* s s'" and "I s"
  shows "I s' \<and> K s s'"
  using assms by (induction rule: rtranclp_induct) (auto intro: step_ok same_kept kept_trans step_kept)

end

lemma step_past_kept:
  assumes "step H w w'" and "sys_inv H (committed w)"
  shows "past_kept (committed w) (committed w')"
  using step_effect [OF assms] effect_past_kept audits_past_kept sys_ledger [OF assms(2)] by blast

interpretation ledger_history: step_history initial "step H" "\<lambda>w. sys_inv H (committed w)"
    "\<lambda>w w'. past_kept (committed w) (committed w')" for H
  by unfold_locales (auto intro: past_kept_refl past_kept_trans step_past_kept)

lemma steps_past_kept:
  "(step H)\<^sup>*\<^sup>* w w' \<Longrightarrow> reachable H w \<Longrightarrow> past_kept (committed w) (committed w')"
  using ledger_history.run_kept reachable_sys by blast

end
