(* ===== verification/Demo.thy ===== *)
theory Demo
  imports System
begin

text \<open>
  A small concrete run, with \<^typ>\<open>int\<close> amounts: two accounts, a transfer, a hold. The theorems
  about the service are applied to it.
\<close>

definition demoHasher :: hasher where
  "demoHasher = \<lparr>sha256hex = (\<lambda>s. rev (take 8 (rev s))), epochText = (\<lambda>t. itoa (nat t)), extErrText = (\<lambda>e. ''error'')\<rparr>"

text \<open>The world numbers identifiers and instants; no call fails.\<close>

definition demoEnv :: env where
  "demoEnv = \<lparr>envID = (\<lambda>n. ''id'' @ itoa n), envNow = (\<lambda>n. int n), envFault = (\<lambda>n. None),
     envHasher = demoHasher, envAudit = True\<rparr>"

definition demoAccount :: "bool \<Rightarrow> CreateAccountInput" where
  "demoAccount neg = \<lparr>aiName = ''acct'', aiCurrency = ''USD'', aiAllowNegative = neg, aiAllowPositive = True\<rparr>"

definition demoTransfer :: "string \<Rightarrow> string \<Rightarrow> int \<Rightarrow> int CreateTransferInput" where
  "demoTransfer f t m = \<lparr>ciEventAt = None, ciMetadata = None, ciFrom = f, ciTo = t, ciAmount = m, ciReversed = None\<rparr>"

definition demoBatch :: "int CreateBatchTransferInput" where
  "demoBatch = \<lparr>cbEventAt = None, cbMetadata = None,
     cbTransfers = [demoTransfer ''id0'' ''id2'' 100, demoTransfer ''id2'' ''id0'' 30]\<rparr>"

text \<open>The states the run goes through, written out: every operation below is evaluated once.\<close>

definition demoDb0 :: "int db" where
  "demoDb0 = empty_db"

definition demo0 :: "int world" where
  "demo0 = \<lparr>committed = demoDb0, working = demoDb0, callCount = 0, idCount = 0, nowCount = 0\<rparr>"

text \<open>The first account, which may go negative.\<close>

definition demoDb1 :: "int db" where
  "demoDb1 = demoDb0
     \<lparr>accountsT := accountsT demoDb0 @
       [\<lparr>accID = ''id0'', accName = ''acct'', accCurrency = ''USD'', accBalance = 0,
        accEncumbered = 0, accVersion = 0, accAllowNegative = True, accAllowPositive = True,
        accCreatedAt = 0, accUpdatedAt = 0\<rparr>],
      auditT := auditT demoDb0 @
       [\<lparr>auID = ''id1'', auUserID = ''system'', auAction = AuditActionAccountCreate,
        auResourceType = ''account'', auResourceID = ''id0'', auIPAddress = [], auUserAgent = [],
        auRequestID = [], auBefore = NoState, auAfter = StAccount \<lparr>accID = ''id0'',
        accName = ''acct'', accCurrency = ''USD'', accBalance = 0, accEncumbered = 0, accVersion = 0,
        accAllowNegative = True, accAllowPositive = True, accCreatedAt = 0, accUpdatedAt = 0\<rparr>,
        auStatus = AuditStatusSuccess, auError = None, auCreatedAt = 1,
        auPrevHash = ''0000000000000000000000000000000000000000000000000000000000000000'',
        auHash = ''ccess||1'', auChainSeq = 1\<rparr>],
      chainHash := ''ccess||1'',
      chainSeq := 1\<rparr>"

definition demo1 :: "int world" where
  "demo1 = \<lparr>committed = demoDb1, working = demoDb1,
     callCount = 4, idCount = 2, nowCount = 2\<rparr>"

text \<open>The second account, which may not.\<close>

definition demoDb2 :: "int db" where
  "demoDb2 = demoDb1
     \<lparr>accountsT := accountsT demoDb1 @
       [\<lparr>accID = ''id2'', accName = ''acct'', accCurrency = ''USD'', accBalance = 0,
        accEncumbered = 0, accVersion = 0, accAllowNegative = False, accAllowPositive = True,
        accCreatedAt = 2, accUpdatedAt = 2\<rparr>],
      auditT := auditT demoDb1 @
       [\<lparr>auID = ''id3'', auUserID = ''system'', auAction = AuditActionAccountCreate,
        auResourceType = ''account'', auResourceID = ''id2'', auIPAddress = [], auUserAgent = [],
        auRequestID = [], auBefore = NoState, auAfter = StAccount \<lparr>accID = ''id2'',
        accName = ''acct'', accCurrency = ''USD'', accBalance = 0, accEncumbered = 0, accVersion = 0,
        accAllowNegative = False, accAllowPositive = True, accCreatedAt = 2, accUpdatedAt = 2\<rparr>,
        auStatus = AuditStatusSuccess, auError = None, auCreatedAt = 3, auPrevHash = ''ccess||1'',
        auHash = ''ccess||3'', auChainSeq = 2\<rparr>],
      chainHash := ''ccess||3'',
      chainSeq := 2\<rparr>"

definition demo2 :: "int world" where
  "demo2 = \<lparr>committed = demoDb2, working = demoDb2,
     callCount = 8, idCount = 4, nowCount = 4\<rparr>"

text \<open>A batch of two transfers between them.\<close>

definition demoDb3 :: "int db" where
  "demoDb3 = demoDb2
     \<lparr>accountsT :=
       [\<lparr>accID = ''id0'', accName = ''acct'', accCurrency = ''USD'', accBalance = - 70,
        accEncumbered = 0, accVersion = 2, accAllowNegative = True, accAllowPositive = True,
        accCreatedAt = 0, accUpdatedAt = 4\<rparr>, \<lparr>accID = ''id2'', accName = ''acct'',
        accCurrency = ''USD'', accBalance = 70, accEncumbered = 0, accVersion = 2,
        accAllowNegative = False, accAllowPositive = True, accCreatedAt = 2, accUpdatedAt = 4\<rparr>],
      transfersT := transfersT demoDb2 @
       [\<lparr>trID = ''id4'', trFrom = ''id0'', trTo = ''id2'', trAmount = 100, trCreatedAt = 4,
        trEventAt = 4, trMetadata = None, trReversed = None\<rparr>, \<lparr>trID = ''id8'',
        trFrom = ''id2'', trTo = ''id0'', trAmount = 30, trCreatedAt = 4, trEventAt = 4,
        trMetadata = None, trReversed = None\<rparr>],
      entriesT := entriesT demoDb2 @
       [\<lparr>enID = ''id5'', enAccount = ''id0'', enTransfer = ''id4'', enAmount = - 100,
        enPrevious = 0, enCurrent = - 100, enVersion = 1, enCreatedAt = 4\<rparr>,
        \<lparr>enID = ''id6'', enAccount = ''id2'', enTransfer = ''id4'', enAmount = 100,
        enPrevious = 0, enCurrent = 100, enVersion = 1, enCreatedAt = 4\<rparr>, \<lparr>enID = ''id9'',
        enAccount = ''id2'', enTransfer = ''id8'', enAmount = - 30, enPrevious = 100, enCurrent = 70,
        enVersion = 2, enCreatedAt = 4\<rparr>, \<lparr>enID = ''id10'', enAccount = ''id0'',
        enTransfer = ''id8'', enAmount = 30, enPrevious = - 100, enCurrent = - 70, enVersion = 2,
        enCreatedAt = 4\<rparr>],
      outboxT := outboxT demoDb2 @
       [\<lparr>obID = ''id7'', obAggregateID = ''id4'', obAggregateType = AggregateTypeTransfer,
        obEventType = EventTypeTransferCreated, obPayload = [(''transfer_id'', JText ''id4''),
        (''from_account_id'', JText ''id0''), (''to_account_id'', JText ''id2''), (''amount'',
        JDecimal 100), (''event_at'', JTime 4)], obCreatedAt = 4, obPublishedAt = None,
        obPublished = False, obEventVersion = 1, obSequence = 1, obAttempts = 0, obLastError = None,
        obDeadLetteredAt = None\<rparr>, \<lparr>obID = ''id11'', obAggregateID = ''id8'',
        obAggregateType = AggregateTypeTransfer, obEventType = EventTypeTransferCreated,
        obPayload = [(''transfer_id'', JText ''id8''), (''from_account_id'', JText ''id2''),
        (''to_account_id'', JText ''id0''), (''amount'', JDecimal 30), (''event_at'', JTime 4)],
        obCreatedAt = 4, obPublishedAt = None, obPublished = False, obEventVersion = 1, obSequence = 1,
        obAttempts = 0, obLastError = None, obDeadLetteredAt = None\<rparr>],
      auditT := auditT demoDb2 @
       [\<lparr>auID = ''id12'', auUserID = ''system'', auAction = AuditActionTransferCreate,
        auResourceType = ''transfer'', auResourceID = ''id4'', auIPAddress = [], auUserAgent = [],
        auRequestID = [], auBefore = NoState, auAfter = StTransfer \<lparr>trID = ''id4'',
        trFrom = ''id0'', trTo = ''id2'', trAmount = 100, trCreatedAt = 4, trEventAt = 4,
        trMetadata = None, trReversed = None\<rparr>, auStatus = AuditStatusSuccess, auError = None,
        auCreatedAt = 5, auPrevHash = ''ccess||3'', auHash = ''ccess||5'', auChainSeq = 3\<rparr>,
        \<lparr>auID = ''id13'', auUserID = ''system'', auAction = AuditActionTransferCreate,
        auResourceType = ''transfer'', auResourceID = ''id8'', auIPAddress = [], auUserAgent = [],
        auRequestID = [], auBefore = NoState, auAfter = StTransfer \<lparr>trID = ''id8'',
        trFrom = ''id2'', trTo = ''id0'', trAmount = 30, trCreatedAt = 4, trEventAt = 4,
        trMetadata = None, trReversed = None\<rparr>, auStatus = AuditStatusSuccess, auError = None,
        auCreatedAt = 6, auPrevHash = ''ccess||5'', auHash = ''ccess||6'', auChainSeq = 4\<rparr>],
      chainHash := ''ccess||6'',
      chainSeq := 4\<rparr>"

definition demo3 :: "int world" where
  "demo3 = \<lparr>committed = demoDb3, working = demoDb3,
     callCount = 25, idCount = 14, nowCount = 7\<rparr>"

text \<open>A hold of 50 on the second account.\<close>

definition demoDb4 :: "int db" where
  "demoDb4 = demoDb3
     \<lparr>accountsT :=
       [\<lparr>accID = ''id0'', accName = ''acct'', accCurrency = ''USD'', accBalance = - 70,
        accEncumbered = 0, accVersion = 2, accAllowNegative = True, accAllowPositive = True,
        accCreatedAt = 0, accUpdatedAt = 4\<rparr>, \<lparr>accID = ''id2'', accName = ''acct'',
        accCurrency = ''USD'', accBalance = 70, accEncumbered = 50, accVersion = 3,
        accAllowNegative = False, accAllowPositive = True, accCreatedAt = 2, accUpdatedAt = 7\<rparr>],
      holdsT := holdsT demoDb3 @
       [\<lparr>hoID = ''id14'', hoAccount = ''id2'', hoAmount = 50, hoStatus = HoldStatusActive,
        hoExpiresAt = None, hoMetadata = None, hoCreatedAt = 7, hoUpdatedAt = 7\<rparr>],
      outboxT := outboxT demoDb3 @
       [\<lparr>obID = ''id15'', obAggregateID = ''id14'', obAggregateType = AggregateTypeHold,
        obEventType = EventTypeHoldCreated, obPayload = [(''hold_id'', JText ''id14''), (''account_id'',
        JText ''id2''), (''amount'', JDecimal 50), (''currency'', JText ''USD'')], obCreatedAt = 7,
        obPublishedAt = None, obPublished = False, obEventVersion = 1, obSequence = 1, obAttempts = 0,
        obLastError = None, obDeadLetteredAt = None\<rparr>],
      auditT := auditT demoDb3 @
       [\<lparr>auID = ''id16'', auUserID = ''system'', auAction = AuditActionHoldCreate,
        auResourceType = ''hold'', auResourceID = ''id14'', auIPAddress = [], auUserAgent = [],
        auRequestID = [], auBefore = NoState, auAfter = StHold \<lparr>hoID = ''id14'',
        hoAccount = ''id2'', hoAmount = 50, hoStatus = HoldStatusActive, hoExpiresAt = None,
        hoMetadata = None, hoCreatedAt = 7, hoUpdatedAt = 7\<rparr>, auStatus = AuditStatusSuccess,
        auError = None, auCreatedAt = 8, auPrevHash = ''ccess||6'', auHash = ''ccess||8'',
        auChainSeq = 5\<rparr>],
      chainHash := ''ccess||8'',
      chainSeq := 5\<rparr>"

definition demo4 :: "int world" where
  "demo4 = \<lparr>committed = demoDb4, working = demoDb4,
     callCount = 32, idCount = 17, nowCount = 9\<rparr>"

text \<open>The hold given back.\<close>

definition demoDb5 :: "int db" where
  "demoDb5 = demoDb4
     \<lparr>accountsT :=
       [\<lparr>accID = ''id0'', accName = ''acct'', accCurrency = ''USD'', accBalance = - 70,
        accEncumbered = 0, accVersion = 2, accAllowNegative = True, accAllowPositive = True,
        accCreatedAt = 0, accUpdatedAt = 4\<rparr>, \<lparr>accID = ''id2'', accName = ''acct'',
        accCurrency = ''USD'', accBalance = 70, accEncumbered = 0, accVersion = 4,
        accAllowNegative = False, accAllowPositive = True, accCreatedAt = 2, accUpdatedAt = 9\<rparr>],
      holdsT :=
       [\<lparr>hoID = ''id14'', hoAccount = ''id2'', hoAmount = 50, hoStatus = HoldStatusVoided,
        hoExpiresAt = None, hoMetadata = None, hoCreatedAt = 7, hoUpdatedAt = 9\<rparr>],
      outboxT := outboxT demoDb4 @
       [\<lparr>obID = ''id17'', obAggregateID = ''id14'', obAggregateType = AggregateTypeHold,
        obEventType = EventTypeHoldVoided, obPayload = [(''hold_id'', JText ''id14''), (''account_id'',
        JText ''id2''), (''amount'', JDecimal 50)], obCreatedAt = 9, obPublishedAt = None,
        obPublished = False, obEventVersion = 1, obSequence = 2, obAttempts = 0, obLastError = None,
        obDeadLetteredAt = None\<rparr>],
      auditT := auditT demoDb4 @
       [\<lparr>auID = ''id18'', auUserID = ''system'', auAction = AuditActionHoldVoid,
        auResourceType = ''hold'', auResourceID = ''id14'', auIPAddress = [], auUserAgent = [],
        auRequestID = [], auBefore = NoState, auAfter = NoState, auStatus = AuditStatusSuccess,
        auError = None, auCreatedAt = 10, auPrevHash = ''ccess||8'', auHash = ''cess||10'',
        auChainSeq = 6\<rparr>],
      chainHash := ''cess||10'',
      chainSeq := 6\<rparr>"

definition demo5 :: "int world" where
  "demo5 = \<lparr>committed = demoDb5, working = demoDb5
       \<lparr>auditT := auditT demoDb4, chainHash := chainHash demoDb4, chainSeq := chainSeq demoDb4\<rparr>,
     callCount = 40, idCount = 19, nowCount = 11\<rparr>"

text \<open>The hold captured into the first account instead.\<close>

definition demoDb6 :: "int db" where
  "demoDb6 = demoDb4
     \<lparr>accountsT :=
       [\<lparr>accID = ''id0'', accName = ''acct'', accCurrency = ''USD'', accBalance = - 20,
        accEncumbered = 0, accVersion = 3, accAllowNegative = True, accAllowPositive = True,
        accCreatedAt = 0, accUpdatedAt = 9\<rparr>, \<lparr>accID = ''id2'', accName = ''acct'',
        accCurrency = ''USD'', accBalance = 20, accEncumbered = 0, accVersion = 4,
        accAllowNegative = False, accAllowPositive = True, accCreatedAt = 2, accUpdatedAt = 9\<rparr>],
      transfersT := transfersT demoDb4 @
       [\<lparr>trID = ''id17'', trFrom = ''id2'', trTo = ''id0'', trAmount = 50, trCreatedAt = 9,
        trEventAt = 9, trMetadata = Some [(''hold_id'', AnyStr ''id14''), (''type'',
        AnyStr ''capture'')], trReversed = None\<rparr>],
      entriesT := entriesT demoDb4 @
       [\<lparr>enID = ''id18'', enAccount = ''id2'', enTransfer = ''id17'', enAmount = - 50,
        enPrevious = 70, enCurrent = 20, enVersion = 4, enCreatedAt = 9\<rparr>, \<lparr>enID = ''id19'',
        enAccount = ''id0'', enTransfer = ''id17'', enAmount = 50, enPrevious = - 70, enCurrent = - 20,
        enVersion = 3, enCreatedAt = 9\<rparr>],
      holdsT :=
       [\<lparr>hoID = ''id14'', hoAccount = ''id2'', hoAmount = 50, hoStatus = HoldStatusCaptured,
        hoExpiresAt = None, hoMetadata = None, hoCreatedAt = 7, hoUpdatedAt = 9\<rparr>],
      outboxT := outboxT demoDb4 @
       [\<lparr>obID = ''id20'', obAggregateID = ''id14'', obAggregateType = AggregateTypeHold,
        obEventType = EventTypeHoldCaptured, obPayload = [(''hold_id'', JText ''id14''),
        (''transfer_id'', JText ''id17''), (''to_account_id'', JText ''id0''), (''amount'',
        JDecimal 50)], obCreatedAt = 9, obPublishedAt = None, obPublished = False, obEventVersion = 1,
        obSequence = 2, obAttempts = 0, obLastError = None, obDeadLetteredAt = None\<rparr>],
      auditT := auditT demoDb4 @
       [\<lparr>auID = ''id21'', auUserID = ''system'', auAction = AuditActionHoldCapture,
        auResourceType = ''hold'', auResourceID = ''id14'', auIPAddress = [], auUserAgent = [],
        auRequestID = [], auBefore = NoState, auAfter = StTransfer \<lparr>trID = ''id17'',
        trFrom = ''id2'', trTo = ''id0'', trAmount = 50, trCreatedAt = 9, trEventAt = 9,
        trMetadata = Some [(''hold_id'', AnyStr ''id14''), (''type'', AnyStr ''capture'')],
        trReversed = None\<rparr>, auStatus = AuditStatusSuccess, auError = None, auCreatedAt = 10,
        auPrevHash = ''ccess||8'', auHash = ''cess||10'', auChainSeq = 6\<rparr>],
      chainHash := ''cess||10'',
      chainSeq := 6\<rparr>"

definition demo6 :: "int world" where
  "demo6 = \<lparr>committed = demoDb6, working = demoDb6
       \<lparr>auditT := auditT demoDb4, chainHash := chainHash demoDb4, chainSeq := chainSeq demoDb4\<rparr>,
     callCount = 44, idCount = 22, nowCount = 11\<rparr>"

text \<open>After the batch, its second transfer reversed.\<close>

definition demoDb7 :: "int db" where
  "demoDb7 = demoDb3
     \<lparr>accountsT :=
       [\<lparr>accID = ''id0'', accName = ''acct'', accCurrency = ''USD'', accBalance = - 100,
        accEncumbered = 0, accVersion = 3, accAllowNegative = True, accAllowPositive = True,
        accCreatedAt = 0, accUpdatedAt = 8\<rparr>, \<lparr>accID = ''id2'', accName = ''acct'',
        accCurrency = ''USD'', accBalance = 100, accEncumbered = 0, accVersion = 3,
        accAllowNegative = False, accAllowPositive = True, accCreatedAt = 2, accUpdatedAt = 8\<rparr>],
      transfersT := transfersT demoDb3 @
       [\<lparr>trID = ''id14'', trFrom = ''id0'', trTo = ''id2'', trAmount = 30, trCreatedAt = 8,
        trEventAt = 7, trMetadata = Some [(''reversal_of'', AnyStr ''id8'')],
        trReversed = Some ''id8''\<rparr>],
      entriesT := entriesT demoDb3 @
       [\<lparr>enID = ''id15'', enAccount = ''id0'', enTransfer = ''id14'', enAmount = - 30,
        enPrevious = - 70, enCurrent = - 100, enVersion = 3, enCreatedAt = 8\<rparr>,
        \<lparr>enID = ''id16'', enAccount = ''id2'', enTransfer = ''id14'', enAmount = 30,
        enPrevious = 70, enCurrent = 100, enVersion = 3, enCreatedAt = 8\<rparr>],
      outboxT := outboxT demoDb3 @
       [\<lparr>obID = ''id17'', obAggregateID = ''id14'', obAggregateType = AggregateTypeTransfer,
        obEventType = EventTypeTransferReversed, obPayload = [(''reversal_transfer_id'', JText ''id14''),
        (''original_transfer_id'', JText ''id8''), (''amount'', JDecimal 30), (''event_at'', JTime 7)],
        obCreatedAt = 8, obPublishedAt = None, obPublished = False, obEventVersion = 1, obSequence = 1,
        obAttempts = 0, obLastError = None, obDeadLetteredAt = None\<rparr>],
      auditT := auditT demoDb3 @
       [\<lparr>auID = ''id18'', auUserID = ''system'', auAction = AuditActionTransferReverse,
        auResourceType = ''transfer'', auResourceID = ''id14'', auIPAddress = [], auUserAgent = [],
        auRequestID = [], auBefore = NoState, auAfter = StTransfer \<lparr>trID = ''id14'',
        trFrom = ''id0'', trTo = ''id2'', trAmount = 30, trCreatedAt = 8, trEventAt = 7,
        trMetadata = Some [(''reversal_of'', AnyStr ''id8'')], trReversed = Some ''id8''\<rparr>,
        auStatus = AuditStatusSuccess, auError = None, auCreatedAt = 9, auPrevHash = ''ccess||6'',
        auHash = ''ccess||9'', auChainSeq = 5\<rparr>],
      chainHash := ''ccess||9'',
      chainSeq := 5\<rparr>"

definition demo7 :: "int world" where
  "demo7 = \<lparr>committed = demoDb7, working = demoDb7,
     callCount = 36, idCount = 19, nowCount = 10\<rparr>"

section \<open>The operations lead from one state to the next\<close>

lemma demo1_run: "CreateAccount demoEnv Background (demoAccount True) demo0 =
    (Inr (last (accountsT (committed demo1))), demo1)"
  by code_simp

lemma demo2_run: "CreateAccount demoEnv Background (demoAccount False) demo1 =
    (Inr (last (accountsT (committed demo2))), demo2)"
  by code_simp

lemma demo3_run: "CreateBatchTransfer demoEnv NoopRetrier Background demoBatch demo2 =
    (Inr (transfersT (committed demo3)), demo3)"
  by code_simp

lemma demo4_run: "HoldFunds demoEnv Background ''id2'' 50 demo3 =
    (Inr (last (holdsT (committed demo4))), demo4)"
  by code_simp

lemma demo5_run: "VoidHold demoEnv Background ''id14'' demo4 =
    (Inr (), demo5)"
  by code_simp

lemma demo6_run: "CaptureHold demoEnv Background ''id14'' ''id0'' demo4 =
    (Inr (last (transfersT (committed demo6))), demo6)"
  by code_simp

lemma demo7_run: "ReverseTransfer demoEnv NoopRetrier Background ''id8'' None demo3 =
    (Inr (last (transfersT (committed demo7))), demo7)"
  by code_simp

section \<open>The run is reachable\<close>

lemma demo_hasher [simp]: "envHasher demoEnv = demoHasher"
  by (simp add: demoEnv_def)

lemma demo_steps:
  "step demoHasher demo0 demo1" "step demoHasher demo1 demo2" "step demoHasher demo2 demo3"
  "step demoHasher demo3 demo4" "step demoHasher demo4 demo5" "step demoHasher demo4 demo6"
  "step demoHasher demo3 demo7"
  by (rule step_account [OF demo_hasher demo1_run] step_account [OF demo_hasher demo2_run]
      step_batch [OF demo_hasher demo3_run] step_hold [OF demo_hasher demo4_run]
      step_void [OF demo_hasher demo5_run] step_capture [OF demo_hasher demo6_run]
      step_reverse [OF demo_hasher demo7_run])+

lemma reachable_step: "reachable H w \<Longrightarrow> step H w w' \<Longrightarrow> reachable H w'"
  unfolding reachable_def by (meson rtranclp.rtrancl_into_rtrancl)

lemma demo_reachable:
  "reachable demoHasher demo0" "reachable demoHasher demo1" "reachable demoHasher demo2"
  "reachable demoHasher demo3" "reachable demoHasher demo4" "reachable demoHasher demo5"
  "reachable demoHasher demo6" "reachable demoHasher demo7"
proof -
  show 0: "reachable demoHasher demo0"
    unfolding reachable_def initial_def by (rule exI [of _ demo0]) (simp add: demo0_def demoDb0_def)
  show 1: "reachable demoHasher demo1" by (rule reachable_step [OF 0 demo_steps(1)])
  show 2: "reachable demoHasher demo2" by (rule reachable_step [OF 1 demo_steps(2)])
  show 3: "reachable demoHasher demo3" by (rule reachable_step [OF 2 demo_steps(3)])
  show 4: "reachable demoHasher demo4" by (rule reachable_step [OF 3 demo_steps(4)])
  show "reachable demoHasher demo5" by (rule reachable_step [OF 4 demo_steps(5)])
  show "reachable demoHasher demo6" by (rule reachable_step [OF 4 demo_steps(6)])
  show "reachable demoHasher demo7" by (rule reachable_step [OF 3 demo_steps(7)])
qed

lemma demo_inv: "sys_inv demoHasher (committed demo2)" "sys_inv demoHasher (committed demo3)"
  "sys_inv demoHasher (committed demo4)"
  using demo_reachable reachable_sys by blast+

lemma demo_ledger: "ledger_inv (committed demo2)" "ledger_inv (committed demo3)" "ledger_inv (committed demo4)"
  using demo_inv by (simp_all add: sys_inv_def)

text \<open>A result that is a success, and the world it leaves.\<close>

lemma success: "\<not> isl (fst r) \<Longrightarrow> r = (Inr (projr (fst r)), snd r)"
  by (cases r; cases "fst r") auto

lemma failure: "isl (fst r) \<Longrightarrow> r = (Inl (projl (fst r)), snd r)"
  by (cases r; cases "fst r") auto

end
