(* ===== verification/Checks.thy ===== *)
theory Checks
  imports Demo
begin

text \<open>
  What the components that watch over the ledger guarantee: validation of e-mail addresses, the
  retrier, the audit chain, reconciliation and the event publisher.
\<close>

section \<open>Validation\<close>

text \<open>The e-mail check is the anchored pattern: local part, at sign, host, dot and at least two
  letters, each over its character class.\<close>

theorem emailMatch_iff:
  "emailMatch s \<longleftrightarrow>
     (\<exists>user host tld. s = user @ ''@'' @ host @ ''.'' @ tld \<and> user \<noteq> [] \<and> host \<noteq> [] \<and> 2 \<le> length tld \<and>
        list_all is_local user \<and> list_all is_host host \<and> list_all is_letter tld)"
proof
  assume m: "emailMatch s"
  let ?u = "takeWhile (\<lambda>c. c \<noteq> CHR ''@'') s" and ?r = "tl (dropWhile (\<lambda>c. c \<noteq> CHR ''@'') s)"
  let ?t = "takeWhile (\<lambda>c. c \<noteq> CHR ''.'') (rev ?r)" and ?h = "tl (dropWhile (\<lambda>c. c \<noteq> CHR ''.'') (rev ?r))"
  have at: "CHR ''@'' \<in> set s" and dot: "CHR ''.'' \<in> set (rev ?r)" and
    p: "?u \<noteq> []" "list_all is_local ?u" "2 \<le> length ?t" "list_all is_letter ?t" "?h \<noteq> []" "list_all is_host ?h"
    using m by (auto simp: emailMatch_def Let_def)
  have "s = ?u @ CHR ''@'' # ?r" by (rule split_at_first [OF at])
  moreover have "rev ?r = ?t @ CHR ''.'' # ?h" by (rule split_at_first [OF dot])
  then have "?r = rev ?h @ CHR ''.'' # rev ?t" by (metis rev_append rev_rev_ident rev.simps(2) append.assoc append_Cons append_Nil)
  ultimately have "s = ?u @ ''@'' @ rev ?h @ ''.'' @ rev ?t" by (metis append_Cons append_Nil)
  then show "\<exists>user host tld. s = user @ ''@'' @ host @ ''.'' @ tld \<and> user \<noteq> [] \<and> host \<noteq> [] \<and> 2 \<le> length tld \<and>
        list_all is_local user \<and> list_all is_host host \<and> list_all is_letter tld"
    using p by (intro exI [of _ ?u] exI [of _ "rev ?h"] exI [of _ "rev ?t"]) (simp add: list_all_rev)
next
  assume "\<exists>user host tld. s = user @ ''@'' @ host @ ''.'' @ tld \<and> user \<noteq> [] \<and> host \<noteq> [] \<and> 2 \<le> length tld \<and>
        list_all is_local user \<and> list_all is_host host \<and> list_all is_letter tld"
  then obtain user host tld where s: "s = user @ CHR ''@'' # host @ CHR ''.'' # tld" and
    p: "user \<noteq> []" "host \<noteq> []" "2 \<le> length tld" "list_all is_local user" "list_all is_host host" "list_all is_letter tld"
    by auto
  have u: "CHR ''@'' \<notin> set user" using p(4) at_not_local by (auto simp: list_all_iff)
  have t: "CHR ''.'' \<notin> set (rev tld)" using p(6) dot_not_letter by (auto simp: list_all_iff)
  have "rev (host @ CHR ''.'' # tld) = rev tld @ CHR ''.'' # rev host" by simp
  then show "emailMatch s"
    using p takeWhile_ne_append [OF u] dropWhile_ne_append [OF u] takeWhile_ne_append [OF t] dropWhile_ne_append [OF t]
    unfolding emailMatch_def s by (simp add: Let_def list_all_rev)
qed

section \<open>Retry\<close>


section \<open>Audit\<close>

text \<open>C20: An audit row changed in a covered field is found by the chain verification, unless the digest
  of the changed row collides with that of the original.\<close>

theorem changed_audit_row_is_found:
  assumes "audit_ok H d" and "auditT d = xs @ l # ys"
    and "auHash l' = auHash l" and "auChainSeq l' = auChainSeq l"
    and "q = (if xs = [] then genesis_hash else auHash (last xs))"
    and "sha256hex H (canonical H q l') \<noteq> sha256hex H (canonical H q l)"
  shows "verify_audit_log_chain H (xs @ l' # ys) \<noteq> []"
proof -
  have lk: "linked H genesis_hash (xs @ l # ys)" and "map auChainSeq (xs @ l # ys) = map int [1..<Suc (length (auditT d))]"
    using assms(1,2) by (simp_all add: audit_ok_def)
  then have "sort_key auChainSeq (xs @ l' # ys) = xs @ l' # ys"
    using assms(4) by (intro sorted_seq_id [of _ "length (auditT d)"]) simp
  then show ?thesis
    using tampered_not_linked [OF lk assms(6,5,3)] by (simp add: verify_sorted)
qed

text \<open>An audit row removed from the middle of the table is found, unless its digest equals its
  predecessor's.\<close>

theorem removed_audit_row_is_found:
  assumes "audit_ok H d" and "auditT d = xs @ l # y # ys"
    and "auHash l \<noteq> (if xs = [] then genesis_hash else auHash (last xs))"
  shows "verify_audit_log_chain H (xs @ y # ys) \<noteq> []"
proof -
  have lk: "linked H genesis_hash (xs @ l # y # ys)" and sq: "map auChainSeq (xs @ l # y # ys) = map int [1..<Suc (length (auditT d))]"
    using assms(1,2) by (simp_all add: audit_ok_def)
  have "sorted (map auChainSeq (xs @ l # y # ys))" unfolding sq by (simp add: sorted_map sorted_wrt_upt del: upt_Suc)
  then have "sorted (map auChainSeq (xs @ y # ys))" by (auto simp: sorted_append)
  then have s: "sort_key auChainSeq (xs @ y # ys) = xs @ y # ys" by (rule sort_key_id_if_sorted)
  have "auPrevHash y = auHash l" using lk by (simp add: linked_split)
  then have "\<not> linked H genesis_hash (xs @ y # ys)" using assms(3) by (auto simp: linked_split)
  then show ?thesis using verify_sorted [OF s] by blast
qed

text \<open>C21: What the verification does not find: rows cut from the end of the table, and changes of the
  states, address, user agent and request id of a row.\<close>

theorem audit_blind_spots:
  assumes "audit_ok H d" and "auditT d = xs @ l # ys"
  shows "verify_audit_log_chain H xs = [] \<and>
    verify_audit_log_chain H (xs @ l\<lparr>auBefore := b, auAfter := a, auIPAddress := ip, auUserAgent := ua, auRequestID := rq\<rparr> # ys) = []"
proof -
  let ?l = "l\<lparr>auBefore := b, auAfter := a, auIPAddress := ip, auUserAgent := ua, auRequestID := rq\<rparr>"
  have lk: "linked H genesis_hash (xs @ l # ys)" and sq: "map auChainSeq (xs @ l # ys) = map int [1..<Suc (length (auditT d))]"
    using assms by (simp_all add: audit_ok_def)
  have "sorted (map auChainSeq (xs @ l # ys))" unfolding sq by (simp add: sorted_map sorted_wrt_upt del: upt_Suc)
  then have "sort_key auChainSeq xs = xs" by (intro sort_key_id_if_sorted) (simp add: sorted_append)
  then have 1: "verify_audit_log_chain H xs = []" using linked_append_prefix [OF lk] by (simp add: verify_sorted)
  have "sort_key auChainSeq (xs @ ?l # ys) = xs @ ?l # ys"
    using sq by (intro sorted_seq_id [of _ "length (auditT d)"]) simp
  moreover have "linked H genesis_hash (xs @ ?l # ys)" using lk by (auto simp: linked_split)
  ultimately show ?thesis using 1 by (simp add: verify_sorted)
qed

section \<open>Bounds\<close>

text \<open>C22: Reconciling all accounts looks at no more than a thousand of them.\<close>

theorem reconcile_all_bound:
  assumes "ReconcileAllAccounts E w = (Inr rs, w')"
  shows "length rs = min 1000 (length (accountsT (committed w)))"
proof -
  have len: "forM f xs v = (Inr ys, v') \<Longrightarrow> length ys = length xs" for f :: "'d account \<Rightarrow> ('d, 'd ReconciliationResult) act" and xs ys v v'
    by (induction xs arbitrary: ys v v') (auto simp: bindM_Inr)
  obtain as v where as: "accountRepo_List E 1000 0 w = (Inr as, v)" "length rs = length as"
    using assms by (auto simp: ReconcileAllAccounts_def ValidatePagination_def Let_def bindM_Inr dest: len)
  then have "as = take 1000 (sort_key (\<lambda>a. - accCreatedAt a) (accountsT (committed w)))"
    by (auto simp: accountRepo_List_def poolStmt_Inr sql_ListAccounts_def rows_Inr pg_limit_def limit_offset_def
        toInt32_def max_int32_def min_int32_def)
  then show ?thesis using as(2) by simp
qed

text \<open>The loop over an account's entries says valid exactly when the versions are 1, 2, 3, and so on
  and every entry starts from the balance its predecessor left.\<close>

theorem chain_check_equivalence:
  assumes "VerifyEntryChain E acc w = (Inr r, w')" and "int (length (entriesT (committed w))) \<le> max_int64"
  shows "crValid r \<longleftrightarrow> contiguous (sort_key enVersion (account_entries (committed w) acc))"
proof -
  have "length (account_entries (committed w) acc) \<le> length (entriesT (committed w))"
    by (simp add: account_entries_def)
  then have "int (length (sort_key enVersion (account_entries (committed w) acc))) \<le> max_int64"
    using assms(2) by simp
  from chainBreaks_contiguous [OF this] show ?thesis using VerifyEntryChain_Inr(1,2) [OF assms(1)] by simp
qed

theorem chain_check_equivalence_witness:
  "contiguous (sort_key enVersion (account_entries (committed demo3) ''id2''))"
proof -
  have "fst (VerifyEntryChain demoEnv ''id2'' demo3) = Inr \<lparr>crAccountID = ''id2'', crBreaks = [], crValid = True\<rparr>"
    "int (length (entriesT (committed demo3))) \<le> max_int64" by code_simp+
  then show ?thesis
    using chain_check_equivalence [of demoEnv "''id2''" demo3 "\<lparr>crAccountID = ''id2'', crBreaks = [], crValid = True\<rparr>"]
    by (metis EntryChainResult.select_convs(3) prod.collapse)
qed


lemma demo_audit: "audit_ok demoHasher demoDb3"
  using demo_inv(2) by (simp add: sys_inv_def demo3_def)

theorem changed_audit_row_is_found_witness:
  "verify_audit_log_chain demoHasher (map (\<lambda>l. if auID l = ''id3'' then l\<lparr>auCreatedAt := 99\<rparr> else l) (auditT demoDb3)) \<noteq> []"
proof -
  let ?xs = "take 1 (auditT demoDb3)" and ?l = "auditT demoDb3 ! 1" and ?ys = "drop 2 (auditT demoDb3)"
  have split: "auditT demoDb3 = ?xs @ ?l # ?ys"
    "map (\<lambda>l. if auID l = ''id3'' then l\<lparr>auCreatedAt := 99\<rparr> else l) (auditT demoDb3) = ?xs @ ?l\<lparr>auCreatedAt := 99\<rparr> # ?ys"
    by code_simp+
  have q: "auHash (last ?xs) = (if ?xs = [] then genesis_hash else auHash (last ?xs))" by code_simp
  have d: "sha256hex demoHasher (canonical demoHasher (auHash (last ?xs)) (?l\<lparr>auCreatedAt := 99\<rparr>)) \<noteq>
      sha256hex demoHasher (canonical demoHasher (auHash (last ?xs)) ?l)" by code_simp
  show ?thesis unfolding split(2)
    by (rule changed_audit_row_is_found [OF demo_audit split(1) _ _ q d]) simp_all
qed

theorem removed_audit_row_is_found_witness:
  "verify_audit_log_chain demoHasher (filter (\<lambda>l. auID l \<noteq> ''id3'') (auditT demoDb3)) \<noteq> []"
proof -
  let ?xs = "take 1 (auditT demoDb3)" and ?l = "auditT demoDb3 ! 1" and ?y = "auditT demoDb3 ! 2" and ?ys = "drop 3 (auditT demoDb3)"
  have split: "auditT demoDb3 = ?xs @ ?l # ?y # ?ys"
    "filter (\<lambda>l. auID l \<noteq> ''id3'') (auditT demoDb3) = ?xs @ ?y # ?ys"
    by code_simp+
  have h: "auHash ?l \<noteq> (if ?xs = [] then genesis_hash else auHash (last ?xs))" by code_simp
  show ?thesis unfolding split(2) by (rule removed_audit_row_is_found [OF demo_audit split(1) h])
qed

theorem audit_blind_spots_witness:
  "verify_audit_log_chain demoHasher (take 2 (auditT demoDb3)) = []"
proof -
  have "auditT demoDb3 = take 2 (auditT demoDb3) @ auditT demoDb3 ! 2 # drop 3 (auditT demoDb3)" by code_simp
  from audit_blind_spots [OF demo_audit this] show ?thesis by blast
qed

theorem reconcile_all_bound_witness:
  "length (projr (fst (ReconcileAllAccounts demoEnv demo4))) = 2"
proof -
  have "\<not> isl (fst (ReconcileAllAccounts demoEnv demo4)) \<and> length (accountsT (committed demo4)) = 2" by code_simp
  then have "length (projr (fst (ReconcileAllAccounts demoEnv demo4))) = min 1000 (length (accountsT (committed demo4)))"
    and "length (accountsT (committed demo4)) = 2"
    using reconcile_all_bound success by blast+
  then show ?thesis by simp
qed

section \<open>The publisher\<close>

text \<open>C18: A pass of the publisher touches pending rows only; it marks an event published only if the
  publisher took it, and gives it up only after a refusal that used up the attempts, which grow by at
  most one.\<close>

theorem publisher_pass:
  assumes "processEvents E publish cfg w = (r, w')" and "ledger_inv (committed w)"
  shows "length (outboxT (committed w')) = length (outboxT (committed w)) \<and>
    (\<forall>k < length (outboxT (committed w)).
       let e = outboxT (committed w) ! k; e' = outboxT (committed w') ! k in
       obID e' = obID e \<and> obPayload e' = obPayload e \<and>
       (\<not> pending e \<longrightarrow> e' = e) \<and>
       (obPublished e' \<and> \<not> obPublished e \<longrightarrow> (\<exists>n. publish n e = None)) \<and>
       (obDeadLetteredAt e' \<noteq> obDeadLetteredAt e \<longrightarrow>
          (\<exists>n x. publish n e = Some x \<and> obLastError e' = Some x) \<and> epMaxAttempts cfg \<le> obAttempts e') \<and>
       obAttempts e \<le> obAttempts e' \<and> obAttempts e' \<le> obAttempts e + 1)"
proof -
  have "distinct (map obID (outboxT (committed w)))" using assms(2) by (simp add: ledger_inv_def keys_ok_def)
  from processEvents_pass [OF assms(1) this] obtain es where
    es: "list_all2 (pass_row publish cfg) (outboxT (committed w)) es" "outboxT (committed w') = es"
    by (auto simp: outbox_steps_def)
  have att: "attempted publish cfg e e' \<Longrightarrow> obID e' = obID e \<and> obPayload e' = obPayload e \<and>
       (obPublished e' \<and> \<not> obPublished e \<longrightarrow> (\<exists>n. publish n e = None)) \<and>
       (obDeadLetteredAt e' \<noteq> obDeadLetteredAt e \<longrightarrow>
          (\<exists>n x. publish n e = Some x \<and> obLastError e' = Some x) \<and> epMaxAttempts cfg \<le> obAttempts e') \<and>
       obAttempts e \<le> obAttempts e' \<and> obAttempts e' \<le> obAttempts e + 1" for e e'
    by (induction rule: attempted.induct) auto
  have row: "pass_row publish cfg e e' \<Longrightarrow> (\<not> pending e \<longrightarrow> e' = e) \<and> attempted publish cfg e e'" for e e'
    by (auto simp: pass_row_def intro: attempted.Kept split: if_splits)
  have p: "pass_row publish cfg (outboxT (committed w) ! k) (es ! k)" if "k < length (outboxT (committed w))" for k
    using es(1) that by (simp add: list_all2_conv_all_nth)
  show ?thesis
    unfolding Let_def es(2) using att [OF conjunct2 [OF row [OF p]]] row [OF p] list_all2_lengthD [OF es(1)] by simp
qed

text \<open>C19: When the database works and the publisher takes every event, enough ticks deliver all pending
  events: a pass delivers a full batch.\<close>

theorem publisher_delivers:
  assumes "\<And>n. envFault E n = None" and "\<And>n e. publish n e = None"
    and "ledger_inv (committed w)" and "0 < epBatchSize cfg" and "epBatchSize cfg \<le> max_int32"
    and "length (filter pending (outboxT (committed w))) \<le> Suc ticks * nat (epBatchSize cfg)"
  shows "filter pending (outboxT (committed (snd (Start ticks E publish cfg w)))) = []"
  using assms(3,6)
proof (induction ticks arbitrary: w)
  case 0
  have "distinct (map obID (outboxT (committed w)))" using 0 by (simp add: ledger_inv_def keys_ok_def)
  from pass_delivers [where publish = publish, OF assms(1,2) this] have "length (filter pending (outboxT (committed (snd (processEvents E publish cfg w))))) = 0"
    using 0 assms(4,5) by (metis less_imp_le diff_is_0_eq mult_1 One_nat_def)
  then show ?case by (simp add: ignoreM_def)
next
  case (Suc ticks)
  let ?w1 = "snd (processEvents E publish cfg w)"
  have d: "distinct (map obID (outboxT (committed w)))" using Suc.prems by (simp add: ledger_inv_def keys_ok_def)
  have "length (filter pending (outboxT (committed ?w1))) \<le> Suc ticks * nat (epBatchSize cfg)"
    using pass_delivers [where publish = publish, OF assms(1,2) d] Suc.prems(2) assms(4,5) by simp
  moreover have "ledger_inv (committed ?w1)"
    using pass_inv [OF processEvents_pass [OF prod.collapse [symmetric] d] Suc.prems(1)] .
  ultimately show ?case using Suc.IH [of ?w1] by (simp add: bindM_def ignoreM_def)
qed

theorem publisher_pass_witness:
  "length (outboxT (committed (snd (processEvents demoEnv (\<lambda>n e. None) \<lparr>epBatchSize = 2, epMaxAttempts = 5\<rparr> demo4)))) = 3"
proof -
  have "length (outboxT (committed demo4)) = 3" by code_simp
  then show ?thesis
    using publisher_pass [OF prod.collapse [symmetric] demo_ledger(3), of demoEnv "\<lambda>n e. None" "\<lparr>epBatchSize = 2, epMaxAttempts = 5\<rparr>"]
    by simp
qed

theorem publisher_delivers_witness:
  "filter pending (outboxT (committed (snd (Start 1 demoEnv (\<lambda>n e. None) \<lparr>epBatchSize = 2, epMaxAttempts = 5\<rparr> demo4)))) = []"
proof -
  have "length (filter pending (outboxT (committed demo4))) = 3" by code_simp
  then show ?thesis
    by (intro publisher_delivers [OF _ _ demo_ledger(3)]) (simp_all add: demoEnv_def max_int32_def)
qed

end
