(* ===== verification/Refinement.thy ===== *)
theory Refinement
  imports Demo
begin

text \<open>
  The transfer use case against its specification: the books, a balance, an encumbrance, a currency
  and two permissions per account, and a batch as a list of moves on them. The detailed transaction
  (locks, identifiers, rows, entries, versions, events, audit rows, commit) is shown to compute what
  the specification says, in both directions: every error it names and every success.
\<close>

section \<open>Statements that go through\<close>

lemma sql_CreateOutboxEvent_ok:
  assumes ok: "outbox_ok d" and room: "int (length (outboxT d)) < max_int64" and new: "obID e \<notin> obID ` set (outboxT d)"
  obtains row where "sql_CreateOutboxEvent e d = Inr (row, d\<lparr>outboxT := outboxT d @ [row]\<rparr>)" "obID row = obID e"
proof -
  obtain n where n: "map obSequence (filter (same_aggregate e) (outboxT d)) = map int [1..<Suc n]"
      "n = length (filter (same_aggregate e) (outboxT d))"
    using outbox_numbered [OF ok] by blast
  have nx: "next_sequence e (outboxT d) = int n + 1" by (rule next_sequence_numbered [OF n(1)])
  have "n \<le> length (outboxT d)" unfolding n(2) by (rule length_filter_le)
  then have le: "int n + 1 \<le> max_int64" using room by linarith
  let ?row = "e\<lparr>obSequence := next_sequence e (outboxT d), obPublishedAt := None,
                  obAttempts := 0, obLastError := None, obDeadLetteredAt := None\<rparr>"
  have "\<not> (same_aggregate ?row f \<and> obSequence f = obSequence ?row)" if "f \<in> set (outboxT d)" for f
  proof
    assume f: "same_aggregate ?row f \<and> obSequence f = obSequence ?row"
    then have "obSequence f \<in> set (map obSequence (filter (same_aggregate e) (outboxT d)))"
      using that by (auto simp: same_aggregate_def intro: rev_image_eqI [of f])
    then have "obSequence f \<in> set (map int [1..<Suc n])" by (simp only: n(1))
    then show False using f nx by auto
  qed
  then have "sql_CreateOutboxEvent e d = Inr (?row, d\<lparr>outboxT := outboxT d @ [?row]\<rparr>)"
    using le new nx by (auto simp: sql_CreateOutboxEvent_def Let_def has_row_iff list_ex_iff)
  then show thesis by (rule that) simp
qed

text \<open>Room for \<open>n\<close> more transfers and \<open>q\<close> more audit rows: no call fails, the next identifiers (four
  per transfer, one per audit row) are distinct, new and of at most 255 characters, and no counter is
  at its end.\<close>

definition ready :: "env \<Rightarrow> nat \<Rightarrow> nat \<Rightarrow> nat \<Rightarrow> 'd db \<Rightarrow> bool" where
  "ready E n q k d \<longleftrightarrow>
     (\<forall>c. envFault E c = None) \<and> inj_on (envID E) {k..<k + (4 * n + q)} \<and>
     (\<forall>j \<in> {k..<k + (4 * n + q)}.
        envID E j \<notin> trID ` set (transfersT d) \<and> envID E j \<notin> enID ` set (entriesT d) \<and>
        envID E j \<notin> obID ` set (outboxT d) \<and> envID E j \<notin> auID ` set (auditT d) \<and>
        char_count (envID E j) \<le> 255) \<and>
     (\<forall>a \<in> set (accountsT d). accVersion a + int n \<le> max_int64) \<and>
     int (length (outboxT d)) + int n \<le> max_int64 \<and> chainSeq d + int q \<le> max_int64"

lemma postTransfer_forward:
  assumes rd: "ready E (Suc n) q (idCount w) (working w)" and ob: "outbox_ok (working w)"
    and a: "find_row accID (ciFrom input) (accountsT (working w)) = Some a"
    and b: "find_row accID (ciTo input) (accountsT (working w)) = Some b"
    and ids: "accID fa = ciFrom input" "accID ta = ciTo input"
    and ok: "ciFrom input \<noteq> ciTo input" "0 < ciAmount input" "ciReversed input = None"
    and chk: "account_check (set_balance (accBalance fa - ciAmount input) now a) = None"
       "account_check (set_balance (accBalance ta + ciAmount input) now b) = None"
  shows "\<exists>t m' w'. postTransfer E m fa ta input now eventAt md w = (Inr (t, m'), w') \<and>
    char_count (trID t) \<le> 255 \<and> ready E n q (idCount w') (working w')"
proof -
  let ?d = "working w" and ?k = "idCount w"
  let ?nf = "accBalance fa - ciAmount input" and ?nt = "accBalance ta + ciAmount input"
  let ?t = "transfer_of (envID E ?k) input now eventAt md"
  let ?e1 = "newEntry (envID E (Suc ?k)) fa (envID E ?k) (- ciAmount input) ?nf now"
  let ?e2 = "newEntry (envID E (Suc (Suc ?k))) ta (envID E ?k) (ciAmount input) ?nt now"
  let ?p = "post ?t ?e1 ?e2 (set_balance ?nf now) (set_balance ?nt now) ?d"
  have flt: "envFault E c = None" for c using rd by (simp add: ready_def)
  have inj: "envID E i = envID E j \<longleftrightarrow> i = j"
    if "?k \<le> i" "?k \<le> j" "i < ?k + (4 * Suc n + q)" "j < ?k + (4 * Suc n + q)" for i j
    using rd that by (auto simp: ready_def dest: inj_onD)
  have new: "envID E j \<notin> trID ` set (transfersT ?d)" "envID E j \<notin> enID ` set (entriesT ?d)"
    "envID E j \<notin> obID ` set (outboxT ?d)" "char_count (envID E j) \<le> 255"
    if "?k \<le> j" "j < ?k + (4 * Suc n + q)" for j
    using rd that by (simp_all add: ready_def)
  have ab: "a \<in> set (accountsT ?d)" "b \<in> set (accountsT ?d)" using a b find_row_Some by metis+
  have ver: "accVersion a < max_int64" "accVersion b < max_int64"
    using rd ab by (auto simp: ready_def)
  have b': "find_row accID (ciTo input) (update_rows accID (ciFrom input) (set_balance ?nf now) (accountsT ?d)) = Some b"
    by (rule update_account_other [OF b]) (use ok in auto)
  have obp: "outbox_ok ?p" using ob by (simp add: post_outbox)
  have "int (length (outboxT ?p)) < max_int64" using rd by (simp add: post_def ready_def)
  moreover have "obID (transferEvent (envID E (?k + 3)) ?t now) = envID E (?k + 3)"
    by (simp add: transferEvent_def split: option.split)
  moreover have "outboxT ?p = outboxT ?d" by (simp add: post_def)
  ultimately obtain row where row: "sql_CreateOutboxEvent (transferEvent (envID E (?k + 3)) ?t now) ?p =
      Inr (row, ?p\<lparr>outboxT := outboxT ?p @ [row]\<rparr>)" "obID row = envID E (?k + 3)"
    using sql_CreateOutboxEvent_ok [OF obp, of "transferEvent (envID E (?k + 3)) ?t now"] new(3) [of "?k + 3"] by auto
  have tv: "Transfer_Validate ?t = None" using ok by (simp add: Transfer_Validate_None)
  have ct: "sql_CreateTransfer ?t ?d = Inr ((), ?d\<lparr>transfersT := transfersT ?d @ [?t]\<rparr>)"
    unfolding sql_CreateTransfer_Inr using ok new(1) [of ?k] find_row_key [OF a] find_row_key [OF b]
    by (simp add: reversal_taken_def)
  have fwd: "\<exists>t m' w'. postTransfer E m fa ta input now eventAt md w = (Inr (t, m'), w') \<and>
     char_count (trID t) \<le> 255 \<and> working w' = ?p\<lparr>outboxT := outboxT ?p @ [row]\<rparr> \<and> idCount w' = ?k + 4"
    using row tv ct a b b' new(4) [of ?k] ids ok chk ver flt new(2) [of "Suc ?k"] new(2) [of "Suc (Suc ?k)"] inj find_row_key [OF a] find_row_key [OF b]
    unfolding transfer_of_def post_def
    by (simp add: postTransfer_def run_simps Let_def transferRepo_Create_def entryRepo_Create_def
        accountRepo_UpdateBalance_def outboxRepo_Create_Inr sql_UpdateAccountBalance_def
        update_account_Inr ApplyDebit_def ApplyCredit_def numeral_3_eq_3)
  have "ready E n q (?k + 4) (?p\<lparr>outboxT := outboxT ?p @ [row]\<rparr>)"
  proof -
    have "accVersion x + int n \<le> max_int64" if "x \<in> set (accountsT ?p)" for x
    proof -
      let ?f = "\<lambda>y. if accID y = ciFrom input then set_balance ?nf now y else y"
      let ?g = "\<lambda>y. if accID y = ciTo input then set_balance ?nt now y else y"
      have "accountsT ?p = map (\<lambda>y. ?g (?f y)) (accountsT ?d)"
        by (simp add: post_def update_rows_def comp_def)
      then obtain y where y: "y \<in> set (accountsT ?d)" "x = ?g (?f y)" using \<open>x \<in> set (accountsT ?p)\<close> by auto
      have "accVersion x \<le> accVersion y + 1" using ok unfolding y(2) by simp
      then show ?thesis using y(1) using rd by (fastforce simp: ready_def)
    qed
    moreover have "inj_on (envID E) {?k + 4..<?k + 4 + (4 * n + q)}"
      by (rule inj_on_subset [of _ "{?k..<?k + (4 * Suc n + q)}"]) (use rd in \<open>auto simp: ready_def\<close>)
    moreover have "envID E j \<notin> trID ` set (transfersT ?p) \<and> envID E j \<notin> enID ` set (entriesT ?p) \<and>
        envID E j \<notin> obID ` set (outboxT ?p @ [row]) \<and> envID E j \<notin> auID ` set (auditT ?p) \<and> char_count (envID E j) \<le> 255"
      if "j \<in> {?k + 4..<?k + 4 + (4 * n + q)}" for j
    proof -
      have "j \<in> {?k..<?k + (4 * Suc n + q)}" using that by simp
      then have "envID E j \<notin> trID ` set (transfersT ?d) \<and> envID E j \<notin> enID ` set (entriesT ?d) \<and>
        envID E j \<notin> obID ` set (outboxT ?d) \<and> envID E j \<notin> auID ` set (auditT ?d) \<and> char_count (envID E j) \<le> 255"
        using rd unfolding ready_def by blast
      moreover have "envID E j \<noteq> envID E ?k" "envID E j \<noteq> envID E (Suc ?k)" "envID E j \<noteq> envID E (Suc (Suc ?k))"
        "envID E j \<noteq> envID E (?k + 3)"
        using that inj [of j ?k] inj [of j "Suc ?k"] inj [of j "Suc (Suc ?k)"] inj [of j "?k + 3"] by simp_all
      ultimately show ?thesis using row(2) by (simp add: post_def transfer_of_def)
    qed
    ultimately show ?thesis using rd unfolding ready_def by (simp add: post_def)
  qed
  then show ?thesis using fwd by metis
qed

lemma processTransfer_forward:
  assumes rd: "ready E (Suc n) q (idCount w) (working w)" and inv: "ledger_inv (working w)" and m: "mirrors m (working w)"
    and fa: "m (ciFrom input) = Some fa" and ta: "m (ciTo input) = Some ta"
    and ok: "ciFrom input \<noteq> ciTo input" "0 < ciAmount input" "ciReversed input = None"
    and chk: "checkAccounts fa ta (ciAmount input) = None"
  shows "\<exists>t m' w'. processTransfer E m input now eventAt md w = (Inr (t, m'), w') \<and>
    char_count (trID t) \<le> 255 \<and> ready E n q (idCount w') (working w')"
proof -
  obtain a where a: "find_row accID (ciFrom input) (accountsT (working w)) = Some a" "accID fa = ciFrom input"
    "accBalance fa = accBalance a" "accAllowNegative fa = accAllowNegative a" "AvailableBalance fa = AvailableBalance a"
    using mirrorsD [OF m fa] by metis
  obtain b where b: "find_row accID (ciTo input) (accountsT (working w)) = Some b" "accID ta = ciTo input"
    "accBalance ta = accBalance b" "accAllowPositive ta = accAllowPositive b"
    using mirrorsD [OF m ta] by metis
  have v: "ValidateDebit fa (ciAmount input) = None" "ValidateCredit ta (ciAmount input) = None"
    using chk by (auto simp: checkAccounts_def split: if_splits option.splits)
  have ck: "account_check a = None" "account_check b = None"
    using inv find_row_Some [OF a(1)] find_row_Some [OF b(1)] by (simp_all add: ledger_inv_def checks_ok_def)
  have "account_check (set_balance (accBalance fa - ciAmount input) now a) = None"
    using ck(1) v(1) a ok(2) by (auto simp: account_check_None ValidateDebit_None AvailableBalance_def algebra_simps)
  moreover have "account_check (set_balance (accBalance ta + ciAmount input) now b) = None"
    using ck(2) v(2) b ok(2) by (auto simp: account_check_None ValidateCredit_None AvailableBalance_def)
  moreover have "outbox_ok (working w)" using inv by (simp add: ledger_inv_def)
  ultimately show ?thesis
    using postTransfer_forward [OF rd _ a(1) b(1) a(2) b(2) ok] fa ta chk
    by (simp add: processTransfer_def bindM_def)
qed


section \<open>The books\<close>

record 'd book =
  bkBalance :: 'd
  bkHeld :: 'd
  bkCurrency :: string
  bkNegative :: bool
  bkPositive :: bool

type_synonym 'd books = "string \<Rightarrow> 'd book option"

definition book_of :: "'d account \<Rightarrow> 'd book" where
  "book_of a = \<lparr>bkBalance = accBalance a, bkHeld = accEncumbered a, bkCurrency = accCurrency a,
     bkNegative = accAllowNegative a, bkPositive = accAllowPositive a\<rparr>"

definition books :: "'d db \<Rightarrow> 'd books" where
  "books d = (\<lambda>i. map_option book_of (find_row accID i (accountsT d)))"

definition move :: "'d::linordered_idom CreateTransferInput \<Rightarrow> 'd books \<Rightarrow> err + 'd books" where
  "move ti m =
     (case (m (ciFrom ti), m (ciTo ti)) of
        (Some a, Some b) \<Rightarrow>
          if bkCurrency a \<noteq> bkCurrency b then Inl ErrCurrencyMismatch
          else if \<not> bkNegative a \<and> bkBalance a - bkHeld a < ciAmount ti then Inl ErrNegativeBalanceNotAllowed
          else if \<not> bkPositive b \<and> 0 < bkBalance b + ciAmount ti then Inl ErrPositiveBalanceNotAllowed
          else Inr (m(ciFrom ti \<mapsto> a\<lparr>bkBalance := bkBalance a - ciAmount ti\<rparr>,
                      ciTo ti \<mapsto> b\<lparr>bkBalance := bkBalance b + ciAmount ti\<rparr>))
      | _ \<Rightarrow> Inl ErrAccountNotFound)"

fun moves :: "'d::linordered_idom CreateTransferInput list \<Rightarrow> 'd books \<Rightarrow> err + 'd books" where
  "moves [] m = Inr m"
| "moves (ti # tis) m = (case move ti m of Inl e \<Rightarrow> Inl e | Inr m' \<Rightarrow> moves tis m')"

definition batch_spec :: "'d::linordered_idom CreateBatchTransferInput \<Rightarrow> 'd books \<Rightarrow> err + 'd books" where
  "batch_spec input m =
     (case checkBatch input of
        Some e \<Rightarrow> Inl e
      | None \<Rightarrow>
          if list_ex (\<lambda>ti. m (ciFrom ti) = None \<or> m (ciTo ti) = None) (cbTransfers input)
          then Inl ErrAccountNotFound else moves (cbTransfers input) m)"

lemma books_posted1:
  assumes "posted1 d t d'"
  shows "\<exists>a b. books d (trFrom t) = Some a \<and> books d (trTo t) = Some b \<and>
    books d' = (books d)(trFrom t \<mapsto> a\<lparr>bkBalance := bkBalance a - trAmount t\<rparr>,
                         trTo t \<mapsto> b\<lparr>bkBalance := bkBalance b + trAmount t\<rparr>)"
proof -
  obtain a b where ab: "find_row accID (trFrom t) (accountsT d) = Some a"
    "find_row accID (trTo t) (accountsT d) = Some b" "trFrom t \<noteq> trTo t"
    and f: "\<And>i. find_row accID i (accountsT d') =
       (if i = trFrom t then Some (debited a t a) else if i = trTo t then Some (credited b t b)
        else find_row accID i (accountsT d))"
    using posted1_account [OF assms] by metis
  have "books d' = (books d)(trFrom t \<mapsto> (book_of a)\<lparr>bkBalance := bkBalance (book_of a) - trAmount t\<rparr>,
                         trTo t \<mapsto> (book_of b)\<lparr>bkBalance := bkBalance (book_of b) + trAmount t\<rparr>)"
    using ab(3) by (auto simp: books_def f book_of_def debited_def credited_def set_balance_def)
  then show ?thesis using ab by (intro exI [of _ "book_of a"] exI [of _ "book_of b"]) (simp add: books_def)
qed

text \<open>In a state the map of locked accounts mirrors, the guards and the specification agree.\<close>

lemma books_mirror:
  fixes d :: "'d::linordered_idom db"
  assumes "mirrors m d" and "m i = Some a"
  shows "books d i = Some (book_of a)"
proof -
  obtain r where "find_row accID i (accountsT d) = Some r" "accBalance a = accBalance r"
    "accEncumbered a = accEncumbered r" "accCurrency a = accCurrency r"
    "accAllowNegative a = accAllowNegative r" "accAllowPositive a = accAllowPositive r"
    using mirrorsD [OF assms] by metis
  then show ?thesis by (simp add: books_def book_of_def)
qed

lemma move_verdict:
  assumes "mirrors m d" and "m (ciFrom ti) = Some fa" and "m (ciTo ti) = Some ta"
  shows "checkAccounts fa ta (ciAmount ti) = (case move ti (books d) of Inl e \<Rightarrow> Some e | Inr _ \<Rightarrow> None)"
  using books_mirror [OF assms(1,2)] books_mirror [OF assms(1,3)]
  by (auto simp: move_def checkAccounts_def ValidateDebit_def ValidateCredit_def Let_def AvailableBalance_def book_of_def
      not_less)

lemma processTransfer_dom:
  "processTransfer E m ti now ev md w = (Inr (t, m'), w') \<Longrightarrow> m i \<noteq> None \<Longrightarrow> m' i \<noteq> None"
  by (auto simp: processTransfer_def postTransfer_def run_simps Let_def split: option.splits)

lemma processAll_forward:
  assumes "ready E (length tis) q (idCount w) (working w)" and "ledger_inv (working w)" and "mirrors m (working w)"
    and "\<forall>ti \<in> set tis. m (ciFrom ti) \<noteq> None \<and> m (ciTo ti) \<noteq> None"
    and "\<forall>ti \<in> set tis. ciFrom ti \<noteq> ciTo ti \<and> 0 < ciAmount ti \<and> ciReversed ti = None"
  shows "case moves tis (books (working w)) of
      Inl e \<Rightarrow> \<exists>w'. processAll E m tis now eventAt md w = (Inl e, w')
    | Inr bk \<Rightarrow> \<exists>r w'. processAll E m tis now eventAt md w = (Inr r, w') \<and> books (working w') = bk \<and>
        ready E 0 q (idCount w') (working w') \<and> (\<forall>t \<in> fst ` set r. char_count (trID t) \<le> 255)"
  using assms
proof (induction tis arbitrary: m w)
  case Nil
  then show ?case by simp
next
  case (Cons ti tis)
  let ?md = "if ciMetadata ti \<noteq> None then ciMetadata ti else md"
  obtain fa ta where ft: "m (ciFrom ti) = Some fa" "m (ciTo ti) = Some ta" using Cons.prems(4) by auto
  note verdict = move_verdict [OF Cons.prems(3) ft]
  show ?case
  proof (cases "move ti (books (working w))")
    case (Inl e)
    then show ?thesis using verdict ft by (simp add: processTransfer_def bindM_def)
  next
    case (Inr bk)
    then have chk: "checkAccounts fa ta (ciAmount ti) = None" using verdict by simp
    have rd: "ready E (Suc (length tis)) q (idCount w) (working w)" using Cons.prems(1) by simp
    obtain t m' w1 where one: "processTransfer E m ti now eventAt ?md w = (Inr (t, m'), w1)"
      and t: "char_count (trID t) \<le> 255" and rd1: "ready E (length tis) q (idCount w1) (working w1)"
      using processTransfer_forward [OF rd Cons.prems(2,3) ft _ _ _ chk] Cons.prems(5) by fastforce
    have k: "keys_ok (working w)" "chains_ok (working w)" using Cons.prems(2) by (simp_all add: ledger_inv_def)
    note p = processTransfer_posted [OF one Cons.prems(3) k]
    have io: "trFrom t = ciFrom ti" "trTo t = ciTo ti" "trAmount t = ciAmount ti"
      using p(4) by (metis transfer_of_simps(1-3))+
    have bk: "bk = books (working w1)"
      using Inr books_posted1 [OF p(1)] by (auto simp: move_def io split: option.splits if_splits)
    have "case moves tis (books (working w1)) of
        Inl e \<Rightarrow> \<exists>w'. processAll E m' tis now eventAt md w1 = (Inl e, w')
      | Inr bk \<Rightarrow> \<exists>r w'. processAll E m' tis now eventAt md w1 = (Inr r, w') \<and> books (working w') = bk \<and>
          ready E 0 q (idCount w') (working w') \<and> (\<forall>t \<in> fst ` set r. char_count (trID t) \<le> 255)"
      using Cons.IH [OF rd1 posted1_inv [OF p(1) Cons.prems(2)] p(2)] Cons.prems(4,5) processTransfer_dom [OF one]
      by (meson list.set_intros(2))
    then show ?thesis using Inr bk one t
      by (auto simp: bindM_def Let_def split: sum.splits)
  qed
qed


section \<open>The audit rows of a batch\<close>

definition actor_fits :: "context_values \<Rightarrow> bool" where
  "actor_fits ctx \<longleftrightarrow>
     (case auditActor ctx of (userID, requestID, ipAddress, userAgent) \<Rightarrow>
        char_count userID \<le> 255 \<and> char_count requestID \<le> 255 \<and> char_count ipAddress \<le> 45)"

lemma audit_insert_ok:
  assumes "audit_ok H d" and "chainSeq d < max_int64" and "auID l \<notin> auID ` set (auditT d)" and "\<not> audit_too_long l"
  shows "\<exists>row. sql_CreateAuditLog H l d =
     Inr ((), d\<lparr>auditT := auditT d @ [row], chainHash := auHash row, chainSeq := chainSeq d + 1\<rparr>) \<and> auID row = auID l"
proof -
  let ?row = "l\<lparr>auPrevHash := chainHash d, auChainSeq := chainSeq d + 1, auHash := sha256hex H (canonical H (chainHash d) l)\<rparr>"
  have "set (map auChainSeq (auditT d)) = int ` {1..<Suc (length (auditT d))}"
    using assms(1) by (simp add: audit_ok_def del: upt_Suc)
  then have "chainSeq d + 1 \<notin> auChainSeq ` set (auditT d)"
    using assms(1) by (auto simp: audit_ok_def)
  then have "\<not> list_ex (\<lambda>r. auChainSeq r = auChainSeq ?row \<and> auCreatedAt r = auCreatedAt ?row) (auditT d)"
    "\<not> list_ex (\<lambda>r. auID r = auID ?row \<and> auCreatedAt r = auCreatedAt ?row) (auditT d)"
    using assms(3) by (auto simp: list_ex_iff rev_image_eqI)
  then show ?thesis using assms(2,4)
    by (intro exI [of _ ?row]) (simp add: sql_CreateAuditLog_def Let_def)
qed

lemma auditTransfer_forward:
  assumes rd: "ready E 0 (Suc q) (idCount w) (working w)" and ok: "audit_ok (envHasher E) (working w)"
    and fits: "actor_fits ctx" and t: "char_count (trID t) \<le> 255"
  shows "\<exists>w'. auditTransfer E ctx t w = (Inr (), w') \<and> ready E 0 q (idCount w') (working w') \<and>
     audit_ok (envHasher E) (working w') \<and> accountsT (working w') = accountsT (working w)"
proof -
  let ?d = "working w" and ?k = "idCount w"
  let ?l = "auditLog ctx (envID E ?k) (transferAction (trReversed t)) ''transfer'' (trID t) NoState (StTransfer t)
     AuditStatusSuccess None (envNow E (nowCount w))"
  have flt: "envFault E c = None" for c using rd by (simp add: ready_def)
  have ids: "char_count (envID E ?k) \<le> 255" using rd by (simp add: ready_def)
  have "auID ?l = envID E ?k" by (simp add: auditLog_def split: prod.split)
  moreover have "char_count ''transfer'' \<le> 50" by code_simp
  then have "\<not> audit_too_long ?l"
    using fits t ids by (auto simp: audit_too_long_def auditLog_def actor_fits_def not_less split: prod.splits)
  moreover have "chainSeq ?d < max_int64" "envID E ?k \<notin> auID ` set (auditT ?d)" using rd by (auto simp: ready_def)
  ultimately obtain row where row: "sql_CreateAuditLog (envHasher E) ?l ?d =
      Inr ((), ?d\<lparr>auditT := auditT ?d @ [row], chainHash := auHash row, chainSeq := chainSeq ?d + 1\<rparr>)"
      "auID row = envID E ?k"
    using audit_insert_ok [OF ok, of ?l] by auto
  let ?d' = "?d\<lparr>auditT := auditT ?d @ [row], chainHash := auHash row, chainSeq := chainSeq ?d + 1\<rparr>"
  have "\<exists>w'. auditTransfer E ctx t w = (Inr (), w') \<and> working w' = ?d' \<and> idCount w' = Suc ?k"
    using row(1) flt by (simp add: auditTransfer_def run_simps auditRepo_CreateTx_def)
  moreover have "ready E 0 q (Suc ?k) ?d'"
  proof -
    have "envID E j \<noteq> envID E ?k" if "j \<in> {Suc ?k..<Suc ?k + q}" for j
      using rd that by (auto simp: ready_def dest: inj_onD)
    moreover have "inj_on (envID E) {Suc ?k..<Suc ?k + q}"
      by (rule inj_on_subset [of _ "{?k..<?k + Suc q}"]) (use rd in \<open>auto simp: ready_def\<close>)
    ultimately show ?thesis using rd row(2) by (auto simp: ready_def)
  qed
  moreover have "audit_ok (envHasher E) ?d'" by (rule audit_ok_insert [OF ok row(1)])
  ultimately show ?thesis by auto
qed

lemma auditTransfers_forward:
  assumes "ready E 0 (length ts) (idCount w) (working w)" and "audit_ok (envHasher E) (working w)"
    and "actor_fits ctx" and "\<forall>t \<in> set ts. char_count (trID t) \<le> 255"
  shows "\<exists>us w'. forM (auditTransfer E ctx) ts w = (Inr us, w') \<and> ready E 0 0 (idCount w') (working w') \<and>
     accountsT (working w') = accountsT (working w)"
  using assms
proof (induction ts arbitrary: w)
  case (Cons t ts)
  then obtain w1 where "auditTransfer E ctx t w = (Inr (), w1)" "ready E 0 (length ts) (idCount w1) (working w1)"
     "audit_ok (envHasher E) (working w1)" "accountsT (working w1) = accountsT (working w)"
    using auditTransfer_forward [of E "length ts" w ctx t] by auto
  with Cons.IH [of w1] Cons.prems(3,4) show ?case by (fastforce simp: bindM_def)
qed simp

section \<open>The transaction follows the specification\<close>

lemma collect_fold:
  "distinct ids \<Longrightarrow>
   distinct (fold (\<lambda>t ids. add_unseen (ciTo t) (add_unseen (ciFrom t) ids)) tis ids) \<and>
   set (fold (\<lambda>t ids. add_unseen (ciTo t) (add_unseen (ciFrom t) ids)) tis ids) =
     set ids \<union> ciFrom ` set tis \<union> ciTo ` set tis"
  by (induction tis arbitrary: ids) (auto simp: add_unseen_def)

lemma collectUniqueAccountIDs_set:
  "distinct (collectUniqueAccountIDs tis)"
  "set (collectUniqueAccountIDs tis) = ciFrom ` set tis \<union> ciTo ` set tis"
  using collect_fold [of "[]" tis] by (simp_all add: collectUniqueAccountIDs_def)

lemma all_rows_found:
  assumes "distinct (map key rs)" and "distinct ks"
  shows "length (filter (\<lambda>r. key r \<in> set ks) rs) = length ks \<longleftrightarrow> set ks \<subseteq> key ` set rs"
proof -
  let ?fs = "filter (\<lambda>r. key r \<in> set ks) rs"
  have "distinct (map key ?fs)" using assms(1) by (simp add: distinct_map inj_on_def)
  then have "length ?fs = card (set (map key ?fs))" by (metis distinct_card length_map)
  moreover have "set (map key ?fs) = set ks \<inter> key ` set rs" by auto
  moreover have "length ks = card (set ks)" using assms(2) by (simp add: distinct_card)
  ultimately have "length ?fs = length ks \<longleftrightarrow> card (set ks \<inter> key ` set rs) = card (set ks)" by simp
  also have "\<dots> \<longleftrightarrow> set ks \<subseteq> key ` set rs"
    using card_subset_eq [of "set ks" "set ks \<inter> key ` set rs"] by (auto simp: Int_absorb2)
  finally show ?thesis .
qed

lemma locks_all:
  assumes inv: "ledger_inv (working w)" and ids: "ids = sort (collectUniqueAccountIDs tis)" and flt: "\<And>c. envFault E c = None"
  shows "if \<forall>i \<in> set ids. books (working w) i \<noteq> None
    then \<exists>m w'. lockAccounts E ids w = (Inr m, w') \<and> (\<forall>i \<in> set ids. m i \<noteq> None) \<and> idCount w' = idCount w
    else \<exists>w'. lockAccounts E ids w = (Inl ErrAccountNotFound, w')"
proof -
  let ?d = "working w" and ?w' = "w\<lparr>callCount := Suc (callCount w)\<rparr>"
  let ?as = "filter (\<lambda>a. accID a \<in> set ids) (accountsT ?d)"
  let ?m = "buildAccountMap (sort_key accID ?as)"
  have k: "keys_ok ?d" using inv by (simp add: ledger_inv_def)
  have "distinct ids" using collectUniqueAccountIDs_set(1) ids by simp
  then have len: "length ?as = length ids \<longleftrightarrow> set ids \<subseteq> accID ` set (accountsT ?d)"
    using all_rows_found [of accID "accountsT ?d" ids] k by (simp add: keys_ok_def)
  have bk: "books ?d i \<noteq> None \<longleftrightarrow> i \<in> accID ` set (accountsT ?d)" for i
    using find_row_None [of accID i "accountsT ?d"] by (auto simp: books_def)
  have get: "accountRepo_GetByIDsForUpdate E ids w = (Inr (sort_key accID ?as), ?w')"
    using flt by (simp add: accountRepo_GetByIDsForUpdate_def txStmt_def dbCall_def Let_def
        sql_GetAccountsByIDsForUpdate_def query_def)
  have run: "lockAccounts E ids w = (if length ?as = length ids then (Inr ?m, ?w') else (Inl ErrAccountNotFound, ?w'))"
    using get by (simp add: lockAccounts_def bindM_def)
  show ?thesis
  proof (cases "\<forall>i \<in> set ids. books ?d i \<noteq> None")
    case True
    have "?m i \<noteq> None" if "i \<in> set ids" for i
      using locked_map [OF k refl, of ids i] that True by (simp add: books_def)
    moreover have "length ?as = length ids" using True bk len by blast
    ultimately show ?thesis using True run by simp
  next
    case False
    then have "length ?as \<noteq> length ids" using bk len by blast
    then show ?thesis using False run by simp
  qed
qed

lemma first_error_None: "first_error check xs = None \<longleftrightarrow> (\<forall>x \<in> set xs. check x = None)"
  by (induction xs) (auto split: option.splits)

lemma transferBody_forward:
  assumes chk: "checkBatch input = None" and inv: "sys_inv (envHasher E) (working w)"
    and rd: "ready E (length (cbTransfers input)) (length (cbTransfers input)) (idCount w) (working w)"
    and fits: "actor_fits ctx" and rev: "\<forall>ti \<in> set (cbTransfers input). ciReversed ti = None"
    and ids: "ids = sort (collectUniqueAccountIDs (cbTransfers input))"
  shows "case batch_spec input (books (working w)) of
      Inl e \<Rightarrow> \<exists>w'. transferBody E ctx input ids w = (Inl e, w')
    | Inr bk \<Rightarrow> \<exists>r w'. transferBody E ctx input ids w = (Inr r, w') \<and> books (working w') = bk"
proof -
  have flt: "envFault E c = None" for c using rd by (simp add: ready_def)
  have li: "ledger_inv (working w)" using inv by (simp add: sys_inv_def)
  have setids: "set ids = ciFrom ` set (cbTransfers input) \<union> ciTo ` set (cbTransfers input)"
    using collectUniqueAccountIDs_set(2) ids by simp
  note locks = locks_all [OF li ids flt]
  show ?thesis
  proof (cases "\<forall>i \<in> set ids. books (working w) i \<noteq> None")
    case False
    then have "batch_spec input (books (working w)) = Inl ErrAccountNotFound"
      using chk setids by (auto simp: batch_spec_def list_ex_iff)
    moreover obtain w' where "lockAccounts E ids w = (Inl ErrAccountNotFound, w')" using locks False by metis
    ultimately show ?thesis by (simp add: transferBody_def bindM_err_run)
  next
    case True
    then obtain m w1 where lock: "lockAccounts E ids w = (Inr m, w1)" and dom: "\<forall>i \<in> set ids. m i \<noteq> None"
      and idc: "idCount w1 = idCount w" using locks by auto
    have spec: "batch_spec input (books (working w)) = moves (cbTransfers input) (books (working w))"
    proof -
      have "\<not> list_ex (\<lambda>ti. books (working w) (ciFrom ti) = None \<or> books (working w) (ciTo ti) = None) (cbTransfers input)"
        using True setids unfolding list_ex_iff by (metis UnI1 UnI2 image_eqI)
      then show ?thesis using chk by (simp add: batch_spec_def)
    qed
    let ?w2 = "w1\<lparr>nowCount := Suc (nowCount w1)\<rparr>"
    let ?now = "envNow E (nowCount w1)"
    let ?ev = "case cbEventAt input of Some t \<Rightarrow> t | None \<Rightarrow> ?now"
    have w2: "working ?w2 = working w" using lockAccounts_Inr(2) [OF lock] by simp
    have m: "mirrors m (working ?w2)"
      using lockAccounts_mirrors [OF lock] li lockAccounts_Inr(2) [OF lock] by (simp add: ledger_inv_def)
    have valid: "\<forall>ti \<in> set (cbTransfers input). ciFrom ti \<noteq> ciTo ti \<and> 0 < ciAmount ti \<and> ciReversed ti = None"
      using chk rev by (auto simp: checkBatch_def first_error_None checkInput_def not_le split: option.splits if_splits)
    have dom': "\<forall>ti \<in> set (cbTransfers input). m (ciFrom ti) \<noteq> None \<and> m (ciTo ti) \<noteq> None"
      using dom setids by auto
    have rd2: "ready E (length (cbTransfers input)) (length (cbTransfers input)) (idCount ?w2) (working ?w2)"
      using rd idc w2 by simp
    have li2: "ledger_inv (working ?w2)" using li w2 by simp
    note all = processAll_forward [OF rd2 li2 m dom' valid, of ?now ?ev "cbMetadata input", unfolded w2]
    show ?thesis
    proof (cases "moves (cbTransfers input) (books (working w))")
      case (Inl e)
      then show ?thesis using all spec lock by (auto simp: transferBody_def bindM_def Now_def)
    next
      case (Inr bk)
      then obtain r w3 where r: "processAll E m (cbTransfers input) ?now ?ev (cbMetadata input) ?w2 = (Inr r, w3)"
        and bk: "books (working w3) = bk" and rd3: "ready E 0 (length (cbTransfers input)) (idCount w3) (working w3)"
        and rng: "\<forall>t \<in> set (map fst r). char_count (trID t) \<le> 255"
        using all by auto
      note p = processAll_posted [OF r m li2]
      have "length (map fst r) = length (cbTransfers input)" using p(3) list_all2_lengthD by fastforce
      then have rd3': "ready E 0 (length (map fst r)) (idCount w3) (working w3)" using rd3 by simp
      have "same_audit (working w) (working w3)" using effects_same_audit(1) [OF p(1)] w2 by simp
      then have "audit_ok (envHasher E) (working w3)" using inv audit_ok_same by (auto simp: sys_inv_def)
      from auditTransfers_forward [OF rd3' this fits rng] obtain us w4 where
        a: "forM (auditTransfer E ctx) (map fst r) w3 = (Inr us, w4)" "accountsT (working w4) = accountsT (working w3)"
        by blast
      have "books (working w4) = bk" using a(2) bk by (simp add: books_def)
      then show ?thesis using spec Inr lock r a bk
        by (cases "envAudit E") (auto simp: transferBody_def bindM_def Now_def Let_def)
    qed
  qed
qed


text \<open>Of the errors the specification names none is retried, so any retrier returns the first result.\<close>

lemma same_books: "same_ledger d d' \<Longrightarrow> books d' = books d"
  by (simp add: books_def same_ledger_def)

lemma Retry_first:
  assumes "operation w = (r, w')" and "\<And>e. r = Inl e \<Longrightarrow> \<not> isRetryableError e"
  shows "Retry R operation w = (r, w')"
  using assms by (cases R) (auto simp: retry_from.simps split: sum.splits)

lemma moves_errors: "moves tis m = Inl e \<Longrightarrow> \<not> isRetryableError e"
  by (induction tis arbitrary: m) (auto simp: move_def split: option.splits if_splits sum.splits)



lemma ready_code:
  "ready E n q k d \<longleftrightarrow>
     (\<forall>c. envFault E c = None) \<and> distinct (map (envID E) [k..<k + (4 * n + q)]) \<and>
     list_all (\<lambda>j. envID E j \<notin> trID ` set (transfersT d) \<and> envID E j \<notin> enID ` set (entriesT d) \<and>
        envID E j \<notin> obID ` set (outboxT d) \<and> envID E j \<notin> auID ` set (auditT d) \<and>
        char_count (envID E j) \<le> 255) [k..<k + (4 * n + q)] \<and>
     list_all (\<lambda>a. accVersion a + int n \<le> max_int64) (accountsT d) \<and>
     int (length (outboxT d)) + int n \<le> max_int64 \<and> chainSeq d + int q \<le> max_int64"
  by (simp add: ready_def distinct_map list_all_iff)


end
