(* ===== verification/Locking.thy ===== *)
theory Locking
  imports Prelude
begin

text \<open>
  Transactions that run at the same time. A transaction is a program of row statements, as PostgreSQL
  sees it at \<^verbatim>\<open>READ COMMITTED\<close>; a schedule interleaves the statements of several sessions, a
  statement that meets a row another session holds waits, locks are held to the end of the
  transaction, and a timeout or a lost connection may end a session between any two statements.
  Programs that take their locks in one order and give up when a row is missing are shown to be
  serializable in the order of their commits and free of deadlocks.
\<close>

section \<open>Programs\<close>

text \<open>\<open>SelectForUpdate\<close> goes on with the row it read and locked, or with None when there is no such row
  (and then nothing is locked). \<open>InsertUnique\<close> waits for a conflicting insert to end and fails with the
  given error if the key is taken. \<open>InsertNew\<close> is an insert under a generated identifier: a
  collision fails. \<open>UpdateRow\<close> overwrites a row.\<close>

datatype ('l, 'v, 'e) program =
    SelectForUpdate 'l "'v option \<Rightarrow> ('l, 'v, 'e) program"
  | InsertUnique 'l 'v 'e "('l, 'v, 'e) program"
  | InsertNew 'l 'v 'e "('l, 'v, 'e) program"
  | UpdateRow 'l 'v "('l, 'v, 'e) program"
  | CommitTx
  | AbortTx 'e

type_synonym ('l, 'v) table = "'l \<Rightarrow> 'v option"

text \<open>A program with the database to itself.\<close>

primrec alone :: "('l, 'v, 'e) program \<Rightarrow> ('l, 'v) table \<Rightarrow> 'e + ('l, 'v) table" where
  "alone (SelectForUpdate l k) s = alone (k (s l)) s"
| "alone (InsertUnique l v e p) s = (if s l = None then alone p (s(l \<mapsto> v)) else Inl e)"
| "alone (InsertNew l v e p) s = (if s l = None then alone p (s(l \<mapsto> v)) else Inl e)"
| "alone (UpdateRow l v p) s = alone p (s(l \<mapsto> v))"
| "alone CommitTx s = Inr s"
| "alone (AbortTx e) s = Inl e"

text \<open>Programs one after another.\<close>

fun serial :: "('l, 'v, 'e) program list \<Rightarrow> ('l, 'v) table \<Rightarrow> 'e + ('l, 'v) table" where
  "serial [] s = Inr s"
| "serial (p # ps) s = (case alone p s of Inl e \<Rightarrow> Inl e | Inr s' \<Rightarrow> serial ps s')"

lemma serial_append:
  "serial (ps @ qs) s = (case serial ps s of Inl e \<Rightarrow> Inl e | Inr s' \<Rightarrow> serial qs s')"
  by (induction ps arbitrary: s) (auto split: sum.splits)

section \<open>Sessions and schedules\<close>

datatype ('l, 'v, 'e) phase = Running "('l, 'v, 'e) program" | Committed | Failed 'e

record ('l, 'v, 'e) session =
  sePhase :: "('l, 'v, 'e) phase"
  seLocks :: "'l list"
  seWrites :: "('l, 'v) table"

record ('l, 'v, 'e) config =
  cfRows :: "('l, 'v) table"
  cfSessions :: "('l, 'v, 'e) session list"
  cfCommits :: "nat list"

definition opens :: "('l, 'v, 'e) program \<Rightarrow> ('l, 'v, 'e) session" where
  "opens p = \<lparr>sePhase = Running p, seLocks = [], seWrites = Map.empty\<rparr>"

definition start :: "('l, 'v, 'e) program list \<Rightarrow> ('l, 'v) table \<Rightarrow> ('l, 'v, 'e) config" where
  "start ps s = \<lparr>cfRows = s, cfSessions = map opens ps, cfCommits = []\<rparr>"

text \<open>No other session holds the row.\<close>

definition unlocked :: "('l, 'v, 'e) config \<Rightarrow> nat \<Rightarrow> 'l \<Rightarrow> bool" where
  "unlocked c i l \<longleftrightarrow>
     list_all (\<lambda>j. j = i \<or> l \<notin> set (seLocks (cfSessions c ! j))) [0..<length (cfSessions c)]"

text \<open>What session \<open>i\<close> sees: the committed rows under its own writes.\<close>

definition current :: "('l, 'v, 'e) config \<Rightarrow> nat \<Rightarrow> ('l, 'v) table" where
  "current c i = cfRows c ++ seWrites (cfSessions c ! i)"

definition put :: "nat \<Rightarrow> ('l, 'v, 'e) session \<Rightarrow> ('l, 'v, 'e) config \<Rightarrow> ('l, 'v, 'e) config" where
  "put i se c = c\<lparr>cfSessions := (cfSessions c)[i := se]\<rparr>"

definition goes_on :: "nat \<Rightarrow> ('l, 'v, 'e) program \<Rightarrow> ('l, 'v, 'e) config \<Rightarrow> ('l, 'v, 'e) config" where
  "goes_on i p c = put i ((cfSessions c ! i)\<lparr>sePhase := Running p\<rparr>) c"

definition locks_row :: "nat \<Rightarrow> 'l \<Rightarrow> ('l, 'v, 'e) program \<Rightarrow> ('l, 'v, 'e) config \<Rightarrow> ('l, 'v, 'e) config" where
  "locks_row i l p c =
     put i ((cfSessions c ! i)\<lparr>sePhase := Running p, seLocks := l # seLocks (cfSessions c ! i)\<rparr>) c"

definition writes_row ::
  "nat \<Rightarrow> 'l \<Rightarrow> 'v \<Rightarrow> ('l, 'v, 'e) program \<Rightarrow> ('l, 'v, 'e) config \<Rightarrow> ('l, 'v, 'e) config" where
  "writes_row i l v p c =
     put i ((cfSessions c ! i)\<lparr>sePhase := Running p, seLocks := l # seLocks (cfSessions c ! i),
              seWrites := (seWrites (cfSessions c ! i))(l \<mapsto> v)\<rparr>) c"

text \<open>The end of a transaction: the locks go, and its writes with them or into the rows.\<close>

definition ended :: "('l, 'v, 'e) phase \<Rightarrow> ('l, 'v, 'e) session" where
  "ended ph = \<lparr>sePhase = ph, seLocks = [], seWrites = Map.empty\<rparr>"

definition rolls_back :: "nat \<Rightarrow> 'e \<Rightarrow> ('l, 'v, 'e) config \<Rightarrow> ('l, 'v, 'e) config" where
  "rolls_back i e c = put i (ended (Failed e)) c"

definition commits :: "nat \<Rightarrow> ('l, 'v, 'e) config \<Rightarrow> ('l, 'v, 'e) config" where
  "commits i c = (put i (ended Committed) c)\<lparr>cfRows := current c i, cfCommits := cfCommits c @ [i]\<rparr>"

text \<open>The next statement of session \<open>i\<close>; None is waiting.\<close>

fun statement :: "nat \<Rightarrow> ('l, 'v, 'e) program \<Rightarrow> ('l, 'v, 'e) config \<Rightarrow> ('l, 'v, 'e) config option" where
  "statement i (SelectForUpdate l k) c =
     (case current c i l of
        None \<Rightarrow> Some (goes_on i (k None) c)
      | Some v \<Rightarrow> if unlocked c i l then Some (locks_row i l (k (Some v)) c) else None)"
| "statement i (InsertUnique l v e p) c =
     (if \<not> unlocked c i l then None
      else if current c i l = None then Some (writes_row i l v p c) else Some (rolls_back i e c))"
| "statement i (InsertNew l v e p) c =
     (if unlocked c i l \<and> current c i l = None then Some (writes_row i l v p c) else Some (rolls_back i e c))"
| "statement i (UpdateRow l v p) c = (if unlocked c i l then Some (writes_row i l v p c) else None)"
| "statement i CommitTx c = Some (commits i c)"
| "statement i (AbortTx e) c = Some (rolls_back i e c)"

definition act :: "nat \<Rightarrow> ('l, 'v, 'e) config \<Rightarrow> ('l, 'v, 'e) config option" where
  "act i c =
     (if i < length (cfSessions c)
      then case sePhase (cfSessions c ! i) of Running p \<Rightarrow> statement i p c | _ \<Rightarrow> None
      else None)"

inductive moves_to :: "('l, 'v, 'e) config \<Rightarrow> ('l, 'v, 'e) config \<Rightarrow> bool" where
  executes: "act i c = Some c' \<Longrightarrow> moves_to c c'"
| interrupted: "i < length (cfSessions c) \<Longrightarrow> sePhase (cfSessions c ! i) = Running p \<Longrightarrow>
    moves_to c (rolls_back i e c)"

definition finished :: "('l, 'v, 'e) config \<Rightarrow> bool" where
  "finished c \<longleftrightarrow> (\<forall>i < length (cfSessions c). \<forall>p. sePhase (cfSessions c ! i) \<noteq> Running p)"

text \<open>A schedule names the sessions in the order in which they execute a statement.\<close>

fun schedule :: "nat list \<Rightarrow> ('l, 'v, 'e) config \<Rightarrow> ('l, 'v, 'e) config option" where
  "schedule [] c = Some c"
| "schedule (i # is) c = (case act i c of None \<Rightarrow> None | Some c' \<Rightarrow> schedule is c')"

lemma schedule_moves: "schedule is c = Some c' \<Longrightarrow> moves_to\<^sup>*\<^sup>* c c'"
  by (induction "is" arbitrary: c)
    (auto split: option.splits intro: converse_rtranclp_into_rtranclp executes)

section \<open>The discipline\<close>

text \<open>A program that can only abort.\<close>

primrec refuses :: "('l, 'v, 'e) program \<Rightarrow> bool" where
  "refuses (SelectForUpdate l k) \<longleftrightarrow> (\<forall>v. refuses (k v))"
| "refuses (InsertUnique l v e p) \<longleftrightarrow> refuses p"
| "refuses (InsertNew l v e p) \<longleftrightarrow> refuses p"
| "refuses (UpdateRow l v p) \<longleftrightarrow> refuses p"
| "refuses CommitTx \<longleftrightarrow> False"
| "refuses (AbortTx e) \<longleftrightarrow> True"

text \<open>Holding \<open>H\<close>, a program may wait only for a row above all of \<open>H\<close>, updates only rows it holds, and
  aborts in the end when a row it asked for is missing.\<close>

primrec obeys :: "('l::linorder, 'v, 'e) program \<Rightarrow> 'l set \<Rightarrow> bool" where
  "obeys (SelectForUpdate l k) H \<longleftrightarrow>
     (l \<in> H \<or> (\<forall>h \<in> H. h < l)) \<and> (\<forall>v. obeys (k (Some v)) (insert l H)) \<and> obeys (k None) H \<and> refuses (k None)"
| "obeys (InsertUnique l v e p) H \<longleftrightarrow> (\<forall>h \<in> H. h < l) \<and> obeys p (insert l H)"
| "obeys (InsertNew l v e p) H \<longleftrightarrow> obeys p (insert l H)"
| "obeys (UpdateRow l v p) H \<longleftrightarrow> l \<in> H \<and> obeys p (insert l H)"
| "obeys CommitTx H \<longleftrightarrow> True"
| "obeys (AbortTx e) H \<longleftrightarrow> True"

text \<open>At most \<open>n\<close> statements before the last.\<close>

primrec within :: "('l, 'v, 'e) program \<Rightarrow> nat \<Rightarrow> bool" where
  "within (SelectForUpdate l k) n \<longleftrightarrow> 0 < n \<and> (\<forall>v. within (k v) (n - 1))"
| "within (InsertUnique l v e p) n \<longleftrightarrow> 0 < n \<and> within p (n - 1)"
| "within (InsertNew l v e p) n \<longleftrightarrow> 0 < n \<and> within p (n - 1)"
| "within (UpdateRow l v p) n \<longleftrightarrow> 0 < n \<and> within p (n - 1)"
| "within CommitTx n \<longleftrightarrow> True"
| "within (AbortTx e) n \<longleftrightarrow> True"

lemma within_mono: "within p n \<Longrightarrow> n \<le> m \<Longrightarrow> within p m"
proof (induction p arbitrary: n m)
  case (SelectForUpdate l k)
  have "within (k v) (m - 1)" for v
    by (rule SelectForUpdate.IH [of "k v" "n - 1"]) (use SelectForUpdate.prems in auto)
  then show ?case using SelectForUpdate.prems by auto
next
  case (InsertUnique l v e p)
  then show ?case using InsertUnique.IH [of "n - 1" "m - 1"] by auto
next
  case (InsertNew l v e p)
  then show ?case using InsertNew.IH [of "n - 1" "m - 1"] by auto
next
  case (UpdateRow l v p)
  then show ?case using UpdateRow.IH [of "n - 1" "m - 1"] by auto
qed simp_all

section \<open>The invariant\<close>

text \<open>A running session holds the rows it wrote, and on any rows that agree with the committed ones on
  what it holds, its program from the start does what the rest does after its writes; unless it can only
  abort.\<close>

definition replays :: "('l, 'v, 'e) program \<Rightarrow> ('l, 'v) table \<Rightarrow> 'l set \<Rightarrow> ('l, 'v) table \<Rightarrow>
    ('l, 'v, 'e) program \<Rightarrow> bool" where
  "replays p0 s L W p \<longleftrightarrow> (\<forall>s'. (\<forall>l \<in> L. s' l = s l) \<longrightarrow> alone p0 s' = alone p (s' ++ W))"

fun sound :: "('l::linorder, 'v, 'e) program \<Rightarrow> ('l, 'v) table \<Rightarrow> ('l, 'v, 'e) phase \<Rightarrow> 'l set \<Rightarrow>
    ('l, 'v) table \<Rightarrow> bool" where
  "sound p0 s (Running p) L W \<longleftrightarrow> obeys p L \<and> dom W \<subseteq> L \<and> (refuses p \<or> replays p0 s L W p)"
| "sound p0 s ph L W \<longleftrightarrow> L = {} \<and> W = Map.empty"

abbreviation held_by :: "('l, 'v, 'e) config \<Rightarrow> nat \<Rightarrow> 'l set" where
  "held_by c i \<equiv> set (seLocks (cfSessions c ! i))"

abbreviation phase_of :: "('l, 'v, 'e) config \<Rightarrow> nat \<Rightarrow> ('l, 'v, 'e) phase" where
  "phase_of c i \<equiv> sePhase (cfSessions c ! i)"

definition lawful :: "('l::linorder, 'v, 'e) program list \<Rightarrow> ('l, 'v) table \<Rightarrow> ('l, 'v, 'e) config \<Rightarrow> bool" where
  "lawful ps s0 c \<longleftrightarrow>
     length (cfSessions c) = length ps \<and>
     (\<forall>i < length ps. sound (ps ! i) (cfRows c) (phase_of c i) (held_by c i) (seWrites (cfSessions c ! i))) \<and>
     (\<forall>i < length ps. \<forall>j < length ps. i \<noteq> j \<longrightarrow> held_by c i \<inter> held_by c j = {}) \<and>
     serial (map ((!) ps) (cfCommits c)) s0 = Inr (cfRows c) \<and>
     distinct (cfCommits c) \<and> set (cfCommits c) = {i. i < length ps \<and> phase_of c i = Committed}"

lemma put_simps [simp]:
  "cfRows (put i se c) = cfRows c" "cfCommits (put i se c) = cfCommits c"
  "length (cfSessions (put i se c)) = length (cfSessions c)"
  "i < length (cfSessions c) \<Longrightarrow> cfSessions (put i se c) ! j = (if j = i then se else cfSessions c ! j)"
  by (simp_all add: put_def nth_list_update)

lemma unlocked_iff: "unlocked c i l \<longleftrightarrow> (\<forall>j < length (cfSessions c). j \<noteq> i \<longrightarrow> l \<notin> held_by c j)"
  by (auto simp: unlocked_def list_all_iff)

lemma start_lawful:
  assumes "\<And>p. p \<in> set ps \<Longrightarrow> obeys p {}"
  shows "lawful ps s (start ps s)"
  using assms by (auto simp: lawful_def start_def opens_def replays_def)

text \<open>A session that goes on, or gives up, without touching the committed rows.\<close>

lemma put_lawful:
  assumes c: "lawful ps s0 c" and i: "i < length (cfSessions c)" and run: "phase_of c i = Running p"
    and se: "sound (ps ! i) (cfRows c) (sePhase se) (set (seLocks se)) (seWrites se)" "sePhase se \<noteq> Committed"
    and ex: "\<And>l. l \<in> set (seLocks se) \<Longrightarrow> l \<in> held_by c i \<or> unlocked c i l"
  shows "lawful ps s0 (put i se c)"
proof -
  have n: "length (cfSessions c) = length ps" using c by (simp add: lawful_def)
  have "set (seLocks se) \<inter> held_by c j = {}" if "j < length ps" "j \<noteq> i" for j
  proof -
    have "held_by c i \<inter> held_by c j = {}" using c that i n by (simp add: lawful_def)
    moreover have "l \<notin> held_by c j" if "unlocked c i l" for l
      using that \<open>j < length ps\<close> \<open>j \<noteq> i\<close> n by (simp add: unlocked_iff)
    ultimately show ?thesis using ex by blast
  qed
  note apart = this
  show ?thesis unfolding lawful_def
  proof (intro conjI allI impI)
    fix j assume "j < length ps"
    then show "sound (ps ! j) (cfRows (put i se c)) (phase_of (put i se c) j) (held_by (put i se c) j)
        (seWrites (cfSessions (put i se c) ! j))"
      using c i se(1) by (simp add: lawful_def)
  next
    fix j k assume "j < length ps" "k < length ps" "j \<noteq> k"
    then show "held_by (put i se c) j \<inter> held_by (put i se c) k = {}"
      using c i apart [of j] apart [of k] by (simp add: lawful_def Int_commute)
  next
    show "set (cfCommits (put i se c)) = {j. j < length ps \<and> phase_of (put i se c) j = Committed}"
      using c i run se(2) by (auto simp: lawful_def)
  qed (use c n in \<open>simp_all add: lawful_def\<close>)
qed

lemma ended_sound [simp]: "sound p0 s (Failed e) {} Map.empty"
  by simp

lemma rolls_back_lawful:
  assumes "lawful ps s0 c" and "i < length (cfSessions c)" and "phase_of c i = Running p"
  shows "lawful ps s0 (rolls_back i e c)"
  unfolding rolls_back_def by (rule put_lawful [OF assms]) (simp_all add: ended_def)

lemma commits_lawful:
  assumes c: "lawful ps s0 c" and i: "i < length (cfSessions c)" and run: "phase_of c i = Running CommitTx"
  shows "lawful ps s0 (commits i c)"
proof -
  have n: "length (cfSessions c) = length ps" using c by (simp add: lawful_def)
  let ?W = "seWrites (cfSessions c ! i)"
  have s: "sound (ps ! i) (cfRows c) (phase_of c i) (held_by c i) ?W" using c i n by (simp add: lawful_def)
  then have "alone (ps ! i) (cfRows c) = Inr (cfRows c ++ ?W)" unfolding run by (simp add: replays_def)
  then have ser: "serial (map ((!) ps) (cfCommits c @ [i])) s0 = Inr (cfRows c ++ ?W)"
    using c by (simp add: lawful_def serial_append)
  have "sound (ps ! j) (cfRows c ++ ?W) (phase_of c j) (held_by c j) (seWrites (cfSessions c ! j))"
    if j: "j < length ps" "j \<noteq> i" for j
  proof -
    have "held_by c i \<inter> held_by c j = {}" using c j i n by (simp add: lawful_def)
    then have "(cfRows c ++ ?W) l = cfRows c l" if "l \<in> held_by c j" for l
      using s that unfolding run by (auto simp: map_add_def domIff split: option.split)
    moreover have "sound (ps ! j) (cfRows c) (phase_of c j) (held_by c j) (seWrites (cfSessions c ! j))"
      using c j by (simp add: lawful_def)
    ultimately show ?thesis by (cases "phase_of c j") (simp_all add: replays_def)
  qed
  then show ?thesis using c i run n ser
    unfolding lawful_def commits_def by (auto simp: ended_def current_def)
qed

text \<open>A row read, locked or written extends the replay.\<close>

lemma overlay_cong: "s' l = s l \<Longrightarrow> (s' ++ W) l = (s ++ W) l"
  by (simp add: map_add_def split: option.split)

lemma replaysI:
  assumes "replays p0 s L W p" and "L \<subseteq> L'"
    and "\<And>s'. (\<forall>l \<in> L'. s' l = s l) \<Longrightarrow> alone p (s' ++ W) = alone q (s' ++ W')"
  shows "replays p0 s L' W' q"
  using assms unfolding replays_def by (metis subsetD)

lemma replays_select:
  assumes "replays p0 s L W (SelectForUpdate l k)" and "(s ++ W) l = v"
  shows "replays p0 s (insert l L) W (k v)"
proof (rule replaysI [OF assms(1)])
  fix s' assume "\<forall>x \<in> insert l L. s' x = s x"
  then have "(s' ++ W) l = v" using assms(2) overlay_cong [of s' l s W] by simp
  then show "alone (SelectForUpdate l k) (s' ++ W) = alone (k v) (s' ++ W)" by simp
qed blast

lemma replays_insert:
  assumes "replays p0 s L W (InsertUnique l v e p) \<or> replays p0 s L W (InsertNew l v e p)"
    and "(s ++ W) l = None"
  shows "replays p0 s (insert l L) (W(l \<mapsto> v)) p"
proof -
  have "alone (InsertUnique l v e p) (s' ++ W) = alone p (s' ++ W(l \<mapsto> v)) \<and>
      alone (InsertNew l v e p) (s' ++ W) = alone p (s' ++ W(l \<mapsto> v))"
    if "\<forall>x \<in> insert l L. s' x = s x" for s'
    using that assms(2) overlay_cong [of s' l s W] by simp
  then show ?thesis using assms(1) by (auto intro: replaysI)
qed

lemma replays_update:
  "replays p0 s L W (UpdateRow l v p) \<Longrightarrow> replays p0 s (insert l L) (W(l \<mapsto> v)) p"
  by (erule replaysI) auto

lemma session_lawful:
  assumes "lawful ps s0 c" and "i < length (cfSessions c)" and "phase_of c i = Running p"
  shows "sound (ps ! i) (cfRows c) (Running q) (held_by c i) (seWrites (cfSessions c ! i)) \<Longrightarrow>
      lawful ps s0 (goes_on i q c)"
    and "unlocked c i l \<Longrightarrow>
      sound (ps ! i) (cfRows c) (Running q) (insert l (held_by c i)) (seWrites (cfSessions c ! i)) \<Longrightarrow>
      lawful ps s0 (locks_row i l q c)"
    and "unlocked c i l \<Longrightarrow>
      sound (ps ! i) (cfRows c) (Running q) (insert l (held_by c i)) ((seWrites (cfSessions c ! i))(l \<mapsto> v)) \<Longrightarrow>
      lawful ps s0 (writes_row i l v q c)"
  unfolding goes_on_def locks_row_def writes_row_def
  by (rule put_lawful [OF assms]; force)+

lemma statement_lawful:
  assumes c: "lawful ps s0 c" and i: "i < length (cfSessions c)" and run: "phase_of c i = Running p"
    and st: "statement i p c = Some c'"
  shows "lawful ps s0 c'"
proof -
  let ?s = "cfRows c" and ?H = "held_by c i" and ?W = "seWrites (cfSessions c ! i)"
  have "length (cfSessions c) = length ps" using c by (simp add: lawful_def)
  then have "sound (ps ! i) ?s (phase_of c i) ?H ?W" using c i by (simp add: lawful_def)
  then have s: "sound (ps ! i) ?s (Running p) ?H ?W" by (simp only: run)
  note laws = session_lawful [OF c i run] and undo = rolls_back_lawful [OF c i run]
  show ?thesis
  proof (cases p)
    case (SelectForUpdate l k)
    show ?thesis
    proof (cases "(?s ++ ?W) l")
      case None
      then have "c' = goes_on i (k None) c" using st SelectForUpdate by (simp add: current_def del: map_add_None)
      then show ?thesis using s SelectForUpdate by (auto intro: laws(1))
    next
      case (Some v)
      then have c': "unlocked c i l" "c' = locks_row i l (k (Some v)) c"
        using st SelectForUpdate by (simp_all add: current_def split: if_splits)
      have "sound (ps ! i) ?s (Running (k (Some v))) (insert l ?H) ?W"
        using s SelectForUpdate replays_select [of "ps ! i" ?s ?H ?W l k, OF _ Some] by auto
      then show ?thesis using c' laws(2) by metis
    qed
  next
    case (InsertUnique l v e q)
    then have "sound (ps ! i) ?s (Running q) (insert l ?H) (?W(l \<mapsto> v))" if "(?s ++ ?W) l = None"
      using s that replays_insert [of "ps ! i" ?s ?H ?W l v e q] by auto
    then show ?thesis using st InsertUnique laws(3) undo by (auto simp: current_def split: if_splits)
  next
    case (InsertNew l v e q)
    then have "sound (ps ! i) ?s (Running q) (insert l ?H) (?W(l \<mapsto> v))" if "(?s ++ ?W) l = None"
      using s that replays_insert [of "ps ! i" ?s ?H ?W l v e q] by auto
    then show ?thesis using st InsertNew laws(3) undo by (auto simp: current_def split: if_splits)
  next
    case (UpdateRow l v q)
    then have "sound (ps ! i) ?s (Running q) (insert l ?H) (?W(l \<mapsto> v))"
      using s replays_update [of "ps ! i" ?s ?H ?W l v q] by auto
    then show ?thesis using st UpdateRow laws(3) by (auto split: if_splits)
  next
    case CommitTx
    then show ?thesis using st commits_lawful [OF c i] run by simp
  next
    case (AbortTx e)
    then show ?thesis using st undo [of e] by simp
  qed
qed

lemma moves_lawful: "moves_to c c' \<Longrightarrow> lawful ps s0 c \<Longrightarrow> lawful ps s0 c'"
  by (induction rule: moves_to.induct)
    (auto simp: act_def split: if_splits phase.splits intro: statement_lawful rolls_back_lawful)

section \<open>Nobody waits for ever\<close>

lemma lawful_session:
  assumes "lawful ps s0 c" and "i < length (cfSessions c)"
  shows "sound (ps ! i) (cfRows c) (phase_of c i) (held_by c i) (seWrites (cfSessions c ! i))"
  using assms by (simp add: lawful_def)

lemma held_once:
  assumes "lawful ps s0 c" and "i < length (cfSessions c)" and "j < length (cfSessions c)" and "j \<noteq> i"
    and "l \<in> held_by c j"
  shows "l \<notin> held_by c i"
  using assms by (fastforce simp: lawful_def)

lemma holder_running:
  assumes "lawful ps s0 c" and "i < length (cfSessions c)" and "l \<in> held_by c i"
  shows "\<exists>p. phase_of c i = Running p"
  using lawful_session [OF assms(1,2)] assms(3) by (cases "phase_of c i") auto

text \<open>A session waits only for a row that another one holds and that is above all rows it holds.\<close>

lemma waiting:
  assumes c: "lawful ps s0 c" and i: "i < length (cfSessions c)" and run: "phase_of c i = Running p"
    and none: "act i c = None"
  shows "\<exists>l j. j < length (cfSessions c) \<and> l \<in> held_by c j \<and> (\<forall>h \<in> held_by c i. h < l)"
proof -
  have ob: "obeys p (held_by c i)" using lawful_session [OF c i] run by simp
  have st: "statement i p c = None" using none i run by (simp add: act_def)
  have stuck: "\<exists>j < length (cfSessions c). l \<in> held_by c j" "l \<notin> held_by c i" if "\<not> unlocked c i l" for l
    using that held_once [OF c i] by (auto simp: unlocked_iff)
  have "\<exists>l. \<not> unlocked c i l \<and> (l \<in> held_by c i \<or> (\<forall>h \<in> held_by c i. h < l))"
    using st ob by (cases p) (auto split: option.splits if_splits)
  then obtain l where l: "\<not> unlocked c i l" "l \<in> held_by c i \<or> (\<forall>h \<in> held_by c i. h < l)" by blast
  then obtain j where "j < length (cfSessions c)" "l \<in> held_by c j" using stuck(1) by blast
  then show ?thesis using l stuck(2) [OF l(1)] by blast
qed

lemma no_deadlock:
  assumes c: "lawful ps s0 c" and more: "\<not> finished c"
  shows "\<exists>i c'. act i c = Some c'"
proof (rule ccontr)
  assume "\<nexists>i c'. act i c = Some c'"
  then have none: "act i c = None" for i by (cases "act i c") auto
  let ?S = "{i. i < length (cfSessions c) \<and> (\<exists>p. phase_of c i = Running p)}"
  have "\<forall>i \<in> ?S. \<exists>l. (\<exists>j < length (cfSessions c). l \<in> held_by c j) \<and> (\<forall>h \<in> held_by c i. h < l)"
    using waiting [OF c _ _ none] by blast
  from bchoice [OF this] obtain w where w: "\<And>i. i \<in> ?S \<Longrightarrow>
      (\<exists>j < length (cfSessions c). w i \<in> held_by c j) \<and> (\<forall>h \<in> held_by c i. h < w i)" by blast
  have S: "finite (w ` ?S)" "w ` ?S \<noteq> {}" using more by (auto simp: finished_def)
  then obtain i where i: "i \<in> ?S" "w i = Max (w ` ?S)" by (metis (no_types, lifting) Max_in imageE)
  obtain j where j: "j < length (cfSessions c)" "w i \<in> held_by c j" using w [OF i(1)] by blast
  then have "j \<in> ?S" using holder_running [OF c] by blast
  then have "w i < w j" using w j(2) by blast
  moreover have "w j \<le> w i" using S(1) \<open>j \<in> ?S\<close> i(2) by simp
  ultimately show False by simp
qed

section \<open>Every schedule ends\<close>

definition steps_left :: "('l, 'v, 'e) program \<Rightarrow> nat" where
  "steps_left p = (LEAST n. within p n)"

fun weight :: "('l, 'v, 'e) phase \<Rightarrow> nat" where
  "weight (Running p) = Suc (steps_left p)"
| "weight ph = 0"

definition total :: "('l, 'v, 'e) config \<Rightarrow> nat" where
  "total c = sum_list (map (\<lambda>se. weight (sePhase se)) (cfSessions c))"

definition measured :: "('l, 'v, 'e) config \<Rightarrow> bool" where
  "measured c \<longleftrightarrow> (\<forall>se \<in> set (cfSessions c). \<forall>p. sePhase se = Running p \<longrightarrow> (\<exists>n. within p n))"

fun smaller :: "('l, 'v, 'e) phase \<Rightarrow> ('l, 'v, 'e) program \<Rightarrow> bool" where
  "smaller (Running q) p \<longleftrightarrow> (\<forall>n. within p n \<longrightarrow> 0 < n \<and> within q (n - 1))"
| "smaller ph p \<longleftrightarrow> True"

lemma steps_left_le: "within p n \<Longrightarrow> steps_left p \<le> n"
  unfolding steps_left_def by (rule Least_le)

lemma smaller_weight:
  assumes "smaller ph p" and "within p n"
  shows "weight ph < weight (Running p)"
proof (cases ph)
  case (Running q)
  have "within p (steps_left p)" unfolding steps_left_def using assms(2) by (rule LeastI)
  then have "0 < steps_left p" "within q (steps_left p - 1)" using assms(1) Running by auto
  then show ?thesis using steps_left_le [of q "steps_left p - 1"] Running by simp
qed simp_all

text \<open>A move replaces one session by one with less to do.\<close>

lemma statement_smaller:
  assumes "statement i p c = Some c'"
  shows "\<exists>se. cfSessions c' = (cfSessions c)[i := se] \<and> smaller (sePhase se) p"
  using assms
  by (cases p) (auto simp: goes_on_def locks_row_def writes_row_def rolls_back_def commits_def ended_def put_def
      split: option.splits if_splits)

lemma moves_smaller:
  assumes "moves_to c c'"
  shows "\<exists>i p se. i < length (cfSessions c) \<and> phase_of c i = Running p \<and>
    cfSessions c' = (cfSessions c)[i := se] \<and> smaller (sePhase se) p"
  using assms
proof cases
  case (executes i)
  then obtain p where "i < length (cfSessions c)" "phase_of c i = Running p" "statement i p c = Some c'"
    by (auto simp: act_def split: if_splits phase.splits)
  then show ?thesis using statement_smaller by blast
next
  case (interrupted i p e)
  then show ?thesis
    by (intro exI [of _ i] exI [of _ p] exI [of _ "ended (Failed e)"])
      (simp add: rolls_back_def put_def ended_def)
qed

lemma moves_measured:
  assumes mv: "moves_to c c'" and m: "measured c"
  shows "measured c'" "total c' < total c"
proof -
  obtain i p se where i: "i < length (cfSessions c)" "phase_of c i = Running p"
    "cfSessions c' = (cfSessions c)[i := se]" and sm: "smaller (sePhase se) p" using moves_smaller [OF mv] by blast
  have "cfSessions c ! i \<in> set (cfSessions c)" using i(1) by simp
  then obtain n where n: "within p n" using m i(2) unfolding measured_def by blast
  have "\<exists>m. within q m" if "sePhase se = Running q" for q using sm n that by auto
  then show "measured c'" using m i(3) unfolding measured_def by (auto dest!: set_update_subset_insert [THEN subsetD])
  let ?ws = "map (\<lambda>se. weight (sePhase se)) (cfSessions c)"
  have "?ws ! i \<le> sum_list ?ws" by (rule elem_le_sum_list) (simp add: i(1))
  moreover have "weight (sePhase se) < ?ws ! i" using smaller_weight [OF sm n] i by simp
  moreover have "total c' = sum_list ?ws + weight (sePhase se) - ?ws ! i"
    using i(1,3) by (simp add: total_def map_update sum_list_update)
  ultimately show "total c' < total c" by (simp add: total_def)
qed

lemma moves_bounded: "(moves_to ^^ n) c c' \<Longrightarrow> measured c \<Longrightarrow> n + total c' \<le> total c"
proof (induction n arbitrary: c)
  case (Suc n)
  then obtain d where "moves_to c d" "(moves_to ^^ n) d c'" by (meson relpowp_Suc_D2)
  then show ?case using Suc.IH [of d] moves_measured [of c d] Suc.prems(2) by simp
qed simp

lemma moves_finish:
  assumes "lawful ps s0 c" and "measured c"
  shows "\<exists>c'. moves_to\<^sup>*\<^sup>* c c' \<and> finished c'"
  using assms
proof (induction "total c" arbitrary: c rule: less_induct)
  case less
  show ?case
  proof (cases "finished c")
    case False
    then obtain d where d: "moves_to c d" using no_deadlock [OF less.prems(1)] executes by blast
    then obtain c' where "moves_to\<^sup>*\<^sup>* d c'" "finished c'"
      using less.hyps [of d] moves_measured [OF d less.prems(2)] moves_lawful [OF d less.prems(1)] by blast
    then show ?thesis using d by (meson converse_rtranclp_into_rtranclp)
  qed blast
qed

section \<open>The contract of a family of transactions\<close>

text \<open>What the programs of requests promise, and what follows for any number of them at once.\<close>

locale lock_discipline =
  fixes program_of :: "'r \<Rightarrow> ('l::linorder, 'v, 'e) program"
    and admitted :: "'r \<Rightarrow> bool" and bound :: "'r \<Rightarrow> nat"
  assumes disciplined: "admitted r \<Longrightarrow> obeys (program_of r) {}"
    and bounded: "admitted r \<Longrightarrow> within (program_of r) (bound r)"
begin

lemma reachable_lawful:
  assumes "list_all admitted rs" and "moves_to\<^sup>*\<^sup>* (start (map program_of rs) s) c"
  shows "lawful (map program_of rs) s c"
  using assms(2)
proof (induction rule: rtranclp_induct)
  case base
  show ?case by (rule start_lawful) (use assms(1) in \<open>auto simp: list_all_iff disciplined\<close>)
qed (rule moves_lawful)

lemma serializable:
  assumes "list_all admitted rs" and "moves_to\<^sup>*\<^sup>* (start (map program_of rs) s) c"
  shows "serial (map (\<lambda>i. program_of (rs ! i)) (cfCommits c)) s = Inr (cfRows c)"
    "distinct (cfCommits c)" "set (cfCommits c) = {i. i < length rs \<and> phase_of c i = Committed}"
proof -
  note l = reachable_lawful [OF assms, unfolded lawful_def]
  have eq: "map ((!) (map program_of rs)) (cfCommits c) = map (\<lambda>i. program_of (rs ! i)) (cfCommits c)"
    using l by auto
  have "serial (map ((!) (map program_of rs)) (cfCommits c)) s = Inr (cfRows c)" using l by blast
  then show "serial (map (\<lambda>i. program_of (rs ! i)) (cfCommits c)) s = Inr (cfRows c)" by (simp only: eq)
qed (use reachable_lawful [OF assms] in \<open>simp_all add: lawful_def\<close>)

lemma progress:
  "list_all admitted rs \<Longrightarrow> moves_to\<^sup>*\<^sup>* (start (map program_of rs) s) c \<Longrightarrow> \<not> finished c \<Longrightarrow>
   \<exists>i c'. act i c = Some c'"
  using reachable_lawful no_deadlock by blast

lemma start_measured: "list_all admitted rs \<Longrightarrow> measured (start (map program_of rs) s)"
  by (auto simp: measured_def start_def opens_def list_all_iff dest!: bounded)

lemma start_total:
  assumes "list_all admitted rs"
  shows "total (start (map program_of rs) s) \<le> sum_list (map (\<lambda>r. Suc (bound r)) rs)"
proof -
  have "total (start (map program_of rs) s) = sum_list (map (\<lambda>r. Suc (steps_left (program_of r))) rs)"
    by (simp add: total_def start_def opens_def comp_def)
  also have "\<dots> \<le> sum_list (map (\<lambda>r. Suc (bound r)) rs)"
    by (rule sum_list_mono) (use assms in \<open>auto simp: list_all_iff intro: steps_left_le bounded\<close>)
  finally show ?thesis .
qed

lemma schedules_end:
  "list_all admitted rs \<Longrightarrow> (moves_to ^^ n) (start (map program_of rs) s) c \<Longrightarrow>
   n \<le> sum_list (map (\<lambda>r. Suc (bound r)) rs)"
  using moves_bounded [of n _ c] start_measured start_total [of rs s] by fastforce

end

end
