(* ===== verification/Concurrency.thy ===== *)
theory Concurrency
  imports Refinement Locking
begin

text \<open>
  The ledger's transactions as programs of row statements: which rows each use case locks and in
  which order, what it checks on what it read, and what it writes. The rows are the accounts (by their
  books), the holds, the unique index on \<^verbatim>\<open>transfers.reversed_transfer_id\<close>, and the one
  row of \<^verbatim>\<open>audit_log_chain_state\<close> that the audit trigger locks. Transfers, entries and events
  are only ever inserted, under generated identifiers, and are left out.
\<close>

section \<open>Rows\<close>

datatype row_key =
    HoldRow string
  | AccountRow string
  | ReversalKey string
  | ChainRow

text \<open>The order in which the code takes its locks: a hold before its accounts, accounts in the order
  of \<^verbatim>\<open>ORDER BY id\<close>, the audit chain last.\<close>

fun key_rank :: "row_key \<Rightarrow> string" where
  "key_rank (HoldRow i) = CHR ''a'' # i"
| "key_rank (AccountRow i) = CHR ''b'' # i"
| "key_rank (ReversalKey i) = CHR ''c'' # i"
| "key_rank ChainRow = ''d''"

lemma key_rank_inject: "key_rank k = key_rank l \<longleftrightarrow> k = l"
  by (cases k; cases l) simp_all

instantiation row_key :: linorder
begin

definition less_eq_row_key :: "row_key \<Rightarrow> row_key \<Rightarrow> bool" where
  "k \<le> l \<longleftrightarrow> key_rank k \<le> key_rank l"

definition less_row_key :: "row_key \<Rightarrow> row_key \<Rightarrow> bool" where
  "k < l \<longleftrightarrow> key_rank k < key_rank l"

instance
proof
  fix k l m :: row_key
  show "k < l \<longleftrightarrow> k \<le> l \<and> \<not> l \<le> k" by (auto simp: less_eq_row_key_def less_row_key_def)
  show "k \<le> k" "k \<le> l \<or> l \<le> k" by (auto simp: less_eq_row_key_def)
  show "k \<le> l \<Longrightarrow> l \<le> m \<Longrightarrow> k \<le> m" by (auto simp: less_eq_row_key_def)
  show "k \<le> l \<Longrightarrow> l \<le> k \<Longrightarrow> k = l" using key_rank_inject by (auto simp: less_eq_row_key_def)
qed

end

lemma row_key_less [simp]:
  "HoldRow i < HoldRow j \<longleftrightarrow> i < j" "HoldRow i < AccountRow j" "HoldRow i < ReversalKey j" "HoldRow i < ChainRow"
  "\<not> AccountRow i < HoldRow j" "AccountRow i < AccountRow j \<longleftrightarrow> i < j" "AccountRow i < ReversalKey j" "AccountRow i < ChainRow"
  "ReversalKey i < ReversalKey j \<longleftrightarrow> i < j" "ReversalKey i < ChainRow"
  by (simp_all add: less_row_key_def less_char_def)

lemma chain_row_last: "k = ChainRow \<or> k < ChainRow"
  by (cases k) simp_all

datatype 'd cell =
    HoldCell string 'd hold_status
  | AccountCell "'d book"
  | ReversalCell
  | ChainCell int

type_synonym 'd ledger_program = "(row_key, 'd cell, err) program"

fun account_in :: "'d cell option \<Rightarrow> 'd book option" where
  "account_in (Some (AccountCell b)) = Some b"
| "account_in c = None"

section \<open>Statements\<close>

text \<open>Audit rows: the trigger of each reads the chain state \<^verbatim>\<open>FOR UPDATE\<close> and moves it on.\<close>

fun auditRows :: "nat \<Rightarrow> 'd ledger_program \<Rightarrow> 'd ledger_program" where
  "auditRows 0 p = p"
| "auditRows (Suc n) p =
     SelectForUpdate ChainRow (\<lambda>c. case c of
         Some (ChainCell s) \<Rightarrow>
           if s \<ge> max_int64 then AbortTx (PgErr ''22003'' ''audit_logs'')
           else UpdateRow ChainRow (ChainCell (s + 1)) (auditRows n p)
       | _ \<Rightarrow> AbortTx (PgErr ''23502'' ''audit_logs''))"

text \<open>\<^verbatim>\<open>GetByIDsForUpdate\<close>: the rows of the accounts there are, in the order of their identifiers.\<close>

fun lockAccountRows :: "string list \<Rightarrow> 'd books \<Rightarrow> ('d books \<Rightarrow> 'd ledger_program) \<Rightarrow> 'd ledger_program" where
  "lockAccountRows [] m k = k m"
| "lockAccountRows (i # is) m k = SelectForUpdate (AccountRow i) (\<lambda>c. lockAccountRows is (m(i := account_in c)) k)"

fun reversalRow :: "string option \<Rightarrow> 'd ledger_program \<Rightarrow> 'd ledger_program" where
  "reversalRow None p = p"
| "reversalRow (Some r) p = InsertUnique (ReversalKey r) ReversalCell ErrTransferAlreadyReversed p"

text \<open>\<^verbatim>\<open>processTransfer\<close> over the accounts read: the checks, the transfer's entry in the unique
  index, the two balances.\<close>

fun transferRows :: "'d::linordered_idom CreateTransferInput list \<Rightarrow> 'd books \<Rightarrow> 'd ledger_program \<Rightarrow> 'd ledger_program" where
  "transferRows [] m p = p"
| "transferRows (ti # tis) m p =
     (case move ti m of
        Inl e \<Rightarrow> AbortTx e
      | Inr m' \<Rightarrow>
          reversalRow (ciReversed ti)
            (UpdateRow (AccountRow (ciFrom ti)) (AccountCell (the (m' (ciFrom ti))))
              (UpdateRow (AccountRow (ciTo ti)) (AccountCell (the (m' (ciTo ti))))
                (transferRows tis m' p))))"

section \<open>The transactions\<close>

definition batchProgram :: "'d::linordered_idom CreateBatchTransferInput \<Rightarrow> nat \<Rightarrow> 'd ledger_program" where
  "batchProgram input n =
     (case checkBatch input of
        Some e \<Rightarrow> AbortTx e
      | None \<Rightarrow>
          let ids = sort (collectUniqueAccountIDs (cbTransfers input)) in
          lockAccountRows ids Map.empty (\<lambda>m.
            if list_ex (\<lambda>i. m i = None) ids then AbortTx ErrAccountNotFound
            else transferRows (cbTransfers input) m (auditRows n CommitTx)))"

definition holdProgram :: "string \<Rightarrow> 'd::linordered_idom \<Rightarrow> string \<Rightarrow> nat \<Rightarrow> 'd ledger_program" where
  "holdProgram acc amount hid n =
     (if amount \<le> 0 then AbortTx ErrInvalidAmount
      else SelectForUpdate (AccountRow acc) (\<lambda>c. case account_in c of
          None \<Rightarrow> AbortTx ErrAccountNotFound
        | Some a \<Rightarrow>
            if \<not> bkNegative a \<and> bkBalance a - bkHeld a < amount then AbortTx ErrNegativeBalanceNotAllowed
            else InsertNew (HoldRow hid) (HoldCell acc amount HoldStatusActive) (PgErr ''23505'' ''holds_pkey'')
                   (UpdateRow (AccountRow acc) (AccountCell (a\<lparr>bkHeld := bkHeld a + amount\<rparr>))
                     (auditRows n CommitTx))))"

text \<open>The reads that void and capture start with.\<close>

definition withActiveHold :: "string \<Rightarrow> (string \<Rightarrow> 'd \<Rightarrow> 'd ledger_program) \<Rightarrow> 'd ledger_program" where
  "withActiveHold hid k =
     SelectForUpdate (HoldRow hid) (\<lambda>c. case c of
         Some (HoldCell acc amount st) \<Rightarrow>
           if st \<noteq> HoldStatusActive then AbortTx ErrHoldNotActive else k acc amount
       | _ \<Rightarrow> AbortTx ErrHoldNotFound)"

definition voidProgram :: "string \<Rightarrow> 'd::linordered_idom ledger_program" where
  "voidProgram hid =
     withActiveHold hid (\<lambda>acc amount.
       SelectForUpdate (AccountRow acc) (\<lambda>c. case account_in c of
           None \<Rightarrow> AbortTx ErrAccountNotFound
         | Some a \<Rightarrow>
             UpdateRow (HoldRow hid) (HoldCell acc amount HoldStatusVoided)
               (UpdateRow (AccountRow acc)
                 (AccountCell (a\<lparr>bkHeld := if bkHeld a - amount < 0 then 0 else bkHeld a - amount\<rparr>))
                 CommitTx)))"

definition captureProgram :: "string \<Rightarrow> string \<Rightarrow> 'd::linordered_idom ledger_program" where
  "captureProgram hid to =
     withActiveHold hid (\<lambda>acc amount.
       lockAccountRows (sort (remdups [acc, to])) Map.empty (\<lambda>m. case (m acc, m to) of
           (Some a, Some b) \<Rightarrow>
             if bkCurrency a \<noteq> bkCurrency b then AbortTx ErrCurrencyMismatch
             else if \<not> bkPositive b \<and> 0 < bkBalance b + amount then AbortTx ErrPositiveBalanceNotAllowed
             else if acc = to then AbortTx (PgErr ''23514'' ''transfers_check'')
             else UpdateRow (AccountRow acc)
                    (AccountCell (a\<lparr>bkBalance := bkBalance a - amount, bkHeld := bkHeld a - amount\<rparr>))
                    (UpdateRow (AccountRow to) (AccountCell (b\<lparr>bkBalance := bkBalance b + amount\<rparr>))
                      (UpdateRow (HoldRow hid) (HoldCell acc amount HoldStatusCaptured) CommitTx))
         | _ \<Rightarrow> AbortTx ErrAccountNotFound))"

definition accountProgram :: "string \<Rightarrow> CreateAccountInput \<Rightarrow> nat \<Rightarrow> 'd::linordered_idom ledger_program" where
  "accountProgram i input n =
     (case ValidateAccountName (aiName input) of
        Some e \<Rightarrow> AbortTx e
      | None \<Rightarrow>
          case ValidateCurrency (aiCurrency input) of
            Some e \<Rightarrow> AbortTx e
          | None \<Rightarrow> InsertNew (AccountRow i) (AccountCell (book_of (newAccount i input 0)))
                      (PgErr ''23505'' ''accounts_pkey'') (auditRows n CommitTx))"

text \<open>A row written on the pool, after a commit or a failure: a transaction of its own.\<close>

definition auditProgram :: "'d ledger_program" where
  "auditProgram = auditRows 1 CommitTx"

text \<open>A request with what the outside world adds to it: the generated identifier of the row it
  inserts and the number of audit rows it writes.\<close>

datatype 'd request =
    AskBatch "'d CreateBatchTransferInput" nat
  | AskHold string 'd string nat
  | AskVoid string
  | AskCapture string string
  | AskAccount string CreateAccountInput nat
  | AskAudit

fun program_of :: "'d::linordered_idom request \<Rightarrow> 'd ledger_program" where
  "program_of (AskBatch input n) = batchProgram input n"
| "program_of (AskHold acc amount hid n) = holdProgram acc amount hid n"
| "program_of (AskVoid hid) = voidProgram hid"
| "program_of (AskCapture hid to) = captureProgram hid to"
| "program_of (AskAccount i input n) = accountProgram i input n"
| "program_of AskAudit = auditProgram"

text \<open>The keys of the unique index are not sorted by the code. No request of either API can name more
  than one reversal in a batch; a caller of the use case who does has to put them in order.\<close>

fun admitted :: "'d request \<Rightarrow> bool" where
  "admitted (AskBatch input n) \<longleftrightarrow> sorted_wrt (<) (List.map_filter ciReversed (cbTransfers input))"
| "admitted r \<longleftrightarrow> True"

text \<open>A bound on the statements of a request.\<close>

fun statements :: "'d request \<Rightarrow> nat" where
  "statements (AskBatch input n) =
     length (collectUniqueAccountIDs (cbTransfers input)) + 3 * length (cbTransfers input) + 2 * n"
| "statements (AskHold acc amount hid n) = 3 + 2 * n"
| "statements (AskVoid hid) = 4"
| "statements (AskCapture hid to) = 6"
| "statements (AskAccount i input n) = 1 + 2 * n"
| "statements AskAudit = 2"

section \<open>The programs keep the discipline\<close>

lemma obeys_auditRows:
  assumes "\<And>H. obeys p H"
  shows "obeys (auditRows n p) H"
proof (induction n arbitrary: H)
  case (Suc n)
  have "ChainRow \<in> H \<or> (\<forall>h \<in> H. h < ChainRow)" using chain_row_last by metis
  then show ?case using Suc.IH by (auto split: cell.split)
qed (simp add: assms)

lemma within_auditRows: "within p k \<Longrightarrow> within (auditRows n p) (2 * n + k)"
  by (induction n) (auto split: cell.split option.split)

lemma refuses_lockAccountRows:
  "(\<And>m'. \<forall>j. j \<notin> set is \<longrightarrow> m' j = m j \<Longrightarrow> refuses (k m')) \<Longrightarrow> refuses (lockAccountRows is m k)"
proof (induction "is" arbitrary: m)
  case (Cons i "is")
  have "refuses (lockAccountRows is (m(i := v)) k)" for v
    by (rule Cons.IH) (rule Cons.prems, auto)
  then show ?case by simp
qed simp

lemma obeys_lockAccountRows:
  assumes "sorted is" and "distinct is" and "\<And>h i. h \<in> H \<Longrightarrow> i \<in> set is \<Longrightarrow> h < AccountRow i"
    and "\<And>j. m j \<noteq> None \<Longrightarrow> AccountRow j \<in> H"
    and "\<And>m' H'. H \<subseteq> H' \<Longrightarrow> H' \<subseteq> H \<union> AccountRow ` set is \<Longrightarrow> (\<And>j. m' j \<noteq> None \<Longrightarrow> AccountRow j \<in> H') \<Longrightarrow>
       obeys (k m') H'"
    and "\<And>m' i. i \<in> set is \<Longrightarrow> m' i = None \<Longrightarrow> refuses (k m')"
  shows "obeys (lockAccountRows is m k) H"
  using assms
proof (induction "is" arbitrary: m H)
  case Nil
  then show ?case by simp
next
  case (Cons i "is")
  have lt: "i < j" if "j \<in> set is" for j using Cons.prems(1,2) that by (auto simp: order.order_iff_strict)
  have "obeys (lockAccountRows is (m(i := account_in (Some v))) k) (insert (AccountRow i) H)" for v
  proof (rule Cons.IH)
    show "obeys (k m') H'" if "insert (AccountRow i) H \<subseteq> H'" "H' \<subseteq> insert (AccountRow i) H \<union> AccountRow ` set is"
      "\<And>j. m' j \<noteq> None \<Longrightarrow> AccountRow j \<in> H'" for m' H'
      using that by (intro Cons.prems(5)) auto
    show "refuses (k m')" if "j \<in> set is" "m' j = None" for j m'
      by (rule Cons.prems(6) [of j]) (use that in auto)
  qed (use Cons.prems(1-4) lt in \<open>auto split: if_splits\<close>)
  moreover have "obeys (lockAccountRows is (m(i := None)) k) H"
  proof (rule Cons.IH)
    show "obeys (k m') H'" if "H \<subseteq> H'" "H' \<subseteq> H \<union> AccountRow ` set is"
      "\<And>j. m' j \<noteq> None \<Longrightarrow> AccountRow j \<in> H'" for m' H'
      using that by (intro Cons.prems(5)) auto
    show "refuses (k m')" if "j \<in> set is" "m' j = None" for j m'
      by (rule Cons.prems(6) [of j]) (use that in auto)
  qed (use Cons.prems(1-4) in \<open>auto split: if_splits\<close>)
  moreover have "refuses (lockAccountRows is (m(i := None)) k)"
    by (rule refuses_lockAccountRows, rule Cons.prems(6) [of i]) (use Cons.prems(2) in auto)
  ultimately show ?case using Cons.prems(3) by auto
qed

lemma within_lockAccountRows: "(\<And>m. within (k m) n) \<Longrightarrow> within (lockAccountRows is m k) (length is + n)"
  by (induction "is" arbitrary: m) auto

lemma obeys_transferRows:
  assumes "\<And>H. obeys p H" and "\<And>ti. ti \<in> set tis \<Longrightarrow> AccountRow (ciFrom ti) \<in> H \<and> AccountRow (ciTo ti) \<in> H"
    and "sorted_wrt (<) (List.map_filter ciReversed tis)"
    and "\<And>h r. h \<in> H \<Longrightarrow> r \<in> set (List.map_filter ciReversed tis) \<Longrightarrow> h < ReversalKey r"
  shows "obeys (transferRows tis m p) H"
  using assms(2-)
proof (induction tis arbitrary: m H)
  case Nil
  then show ?case by (simp add: assms(1))
next
  case (Cons ti tis)
  have in_H: "AccountRow (ciFrom ti) \<in> H" "AccountRow (ciTo ti) \<in> H" using Cons.prems(1) by auto
  show ?case
  proof (cases "move ti m")
    case (Inr m')
    show ?thesis
    proof (cases "ciReversed ti")
      case None
      then have "obeys (transferRows tis m' p) H"
        by (intro Cons.IH) (use Cons.prems in \<open>auto simp: List.map_filter_simps\<close>)
      then show ?thesis using Inr None in_H by (simp add: insert_absorb)
    next
      case (Some r)
      have "obeys (transferRows tis m' p) (insert (ReversalKey r) H)"
        by (intro Cons.IH) (use Cons.prems Some in \<open>auto simp: List.map_filter_simps\<close>)
      then show ?thesis using Inr Some in_H Cons.prems(3)
        by (simp add: insert_absorb List.map_filter_simps)
    qed
  qed simp
qed

lemma within_reversalRow: "within p n \<Longrightarrow> within (reversalRow r p) (Suc n)"
  by (cases r) (auto intro: within_mono)

lemma within_transferRows: "within p n \<Longrightarrow> within (transferRows tis m p) (3 * length tis + n)"
proof (induction tis arbitrary: m)
  case (Cons ti tis)
  have "within (UpdateRow k u (UpdateRow l v (transferRows tis m' p))) (2 + (3 * length tis + n))" for k u l v m'
    using Cons by simp
  from within_reversalRow [OF this] show ?case by (auto split: sum.split simp: eval_nat_numeral)
qed simp

lemma sorted_ids:
  "sorted (sort (collectUniqueAccountIDs tis))" "distinct (sort (collectUniqueAccountIDs tis))"
  "set (sort (collectUniqueAccountIDs tis)) = ciFrom ` set tis \<union> ciTo ` set tis"
  using collectUniqueAccountIDs_set by simp_all

lemma obeys_batchProgram:
  assumes "sorted_wrt (<) (List.map_filter ciReversed (cbTransfers input))"
  shows "obeys (batchProgram input n) {}"
proof (cases "checkBatch input")
  case None
  let ?ids = "sort (collectUniqueAccountIDs (cbTransfers input))"
  let ?k = "\<lambda>m. if list_ex (\<lambda>i. m i = None) ?ids then AbortTx ErrAccountNotFound
      else transferRows (cbTransfers input) m (auditRows n CommitTx)"
  have "obeys (lockAccountRows ?ids Map.empty ?k) {}"
  proof (rule obeys_lockAccountRows [OF sorted_ids(1,2)])
    fix m' :: "'a books" and H'
    assume H: "H' \<subseteq> {} \<union> AccountRow ` set ?ids" "\<And>j. m' j \<noteq> None \<Longrightarrow> AccountRow j \<in> H'"
    show "obeys (?k m') H'"
    proof (cases "list_ex (\<lambda>i. m' i = None) ?ids")
      case False
      have all: "m' i \<noteq> None" if "i \<in> ciFrom ` set (cbTransfers input) \<union> ciTo ` set (cbTransfers input)" for i
        using that False unfolding list_ex_iff sorted_ids(3) by metis
      have "obeys (transferRows (cbTransfers input) m' (auditRows n CommitTx)) H'"
        by (rule obeys_transferRows [OF obeys_auditRows]) (use H all assms in auto)
      then show ?thesis using False by simp
    qed simp
  qed (auto simp: list_ex_iff)
  then show ?thesis using None by (simp add: batchProgram_def Let_def)
qed (simp add: batchProgram_def)

lemma obeys_captureProgram: "obeys (captureProgram hid to) {}"
proof -
  let ?ids = "\<lambda>acc. sort (remdups [acc, to])"
  have "obeys (lockAccountRows (?ids acc) Map.empty (\<lambda>m. case (m acc, m to) of
           (Some a, Some b) \<Rightarrow>
             if bkCurrency a \<noteq> bkCurrency b then AbortTx ErrCurrencyMismatch
             else if \<not> bkPositive b \<and> 0 < bkBalance b + amount then AbortTx ErrPositiveBalanceNotAllowed
             else if acc = to then AbortTx (PgErr ''23514'' ''transfers_check'')
             else UpdateRow (AccountRow acc)
                    (AccountCell (a\<lparr>bkBalance := bkBalance a - amount, bkHeld := bkHeld a - amount\<rparr>))
                    (UpdateRow (AccountRow to) (AccountCell (b\<lparr>bkBalance := bkBalance b + amount\<rparr>))
                      (UpdateRow (HoldRow hid) (HoldCell acc amount HoldStatusCaptured) CommitTx))
         | _ \<Rightarrow> AbortTx ErrAccountNotFound)) {HoldRow hid}" (is "obeys (lockAccountRows _ _ ?k) _") for acc amount
  proof (rule obeys_lockAccountRows)
    show "obeys (?k m') H'" if "{HoldRow hid} \<subseteq> H'" "\<And>j. m' j \<noteq> None \<Longrightarrow> AccountRow j \<in> H'" for m' H'
      using that that(2) [of acc] that(2) [of to] by (auto split: option.split)
    show "refuses (?k m')" if "i \<in> set (?ids acc)" "m' i = None" for i m'
      using that by (auto split: option.split if_splits)
  qed auto
  then show ?thesis
    by (auto simp: captureProgram_def withActiveHold_def split: cell.split option.split)
qed

lemma within_captureProgram: "within (captureProgram hid to) 6"
proof -
  have len: "length (sort (remdups [acc, to])) \<le> 2" for acc by simp
  have "within (captureProgram hid to) (Suc (2 + 3))"
    unfolding captureProgram_def withActiveHold_def
    by (auto split: cell.split option.split intro!: within_mono [OF within_lockAccountRows [where n = 3]] simp: len)
  then show ?thesis by simp
qed

interpretation ledger_requests: lock_discipline program_of admitted statements
proof
  show "obeys (program_of r) {}" if "admitted r" for r :: "'a request"
    using that
    by (cases r) (auto simp: obeys_batchProgram obeys_captureProgram holdProgram_def voidProgram_def withActiveHold_def
        accountProgram_def auditProgram_def intro!: obeys_auditRows split: option.split cell.split)
  show "within (program_of r) (statements r)" if "admitted r" for r :: "'a request"
  proof (cases r)
    case (AskBatch input n)
    have "within (auditRows n CommitTx :: 'a ledger_program) (2 * n)" using within_auditRows [of CommitTx 0 n] by simp
    then have "within (lockAccountRows (sort (collectUniqueAccountIDs (cbTransfers input))) Map.empty
        (\<lambda>m. if list_ex (\<lambda>i. m i = None) (sort (collectUniqueAccountIDs (cbTransfers input)))
             then AbortTx ErrAccountNotFound
             else transferRows (cbTransfers input) m (auditRows n CommitTx)))
        (length (sort (collectUniqueAccountIDs (cbTransfers input))) + (3 * length (cbTransfers input) + 2 * n))"
      by (intro within_lockAccountRows) (simp add: within_transferRows)
    then show ?thesis using AskBatch by (simp add: batchProgram_def Let_def add.assoc split: option.split)
  qed (auto simp: within_captureProgram holdProgram_def voidProgram_def withActiveHold_def accountProgram_def
      auditProgram_def intro!: within_auditRows [where k = 0, simplified] split: option.split cell.split)
qed

end
