(* ===== verification/ConcurrencyLaws.thy ===== *)
theory ConcurrencyLaws
  imports Concurrency
begin

text \<open>
  What the use cases do to the rows of \<^theory_text>\<open>Concurrency\<close>, each with the database to itself, is what
  their programs do: the detailed model of the transactions and the programs that the lock analysis
  interleaves agree on accounts, holds, reversals and the audit chain's number.
\<close>

section \<open>The rows of a database\<close>

fun rows_of :: "'d::linordered_idom db \<Rightarrow> (row_key, 'd cell) table" where
  "rows_of d (HoldRow i) = map_option (\<lambda>h. HoldCell (hoAccount h) (hoAmount h) (hoStatus h)) (find_row hoID i (holdsT d))"
| "rows_of d (AccountRow i) = map_option AccountCell (books d i)"
| "rows_of d (ReversalKey r) = (if reversal_taken (Some r) (transfersT d) then Some ReversalCell else None)"
| "rows_of d ChainRow = Some (ChainCell (chainSeq d))"

lemma account_in_rows [simp]: "account_in (map_option AccountCell x) = x"
  by (cases x) simp_all

lemma find_row_single: "find_row key k [r] = (if key r = k then Some r else None)"
  by (simp add: find_row_def)

lemma rows_eqI:
  assumes "\<And>i. s (HoldRow i) = rows_of d (HoldRow i)" and "\<And>i. s (AccountRow i) = rows_of d (AccountRow i)"
    and "\<And>r. s (ReversalKey r) = rows_of d (ReversalKey r)" and "s ChainRow = rows_of d ChainRow"
  shows "s = rows_of d"
proof
  show "s k = rows_of d k" for k using assms by (cases k) simp_all
qed

section \<open>Statements with the database to themselves\<close>

lemma alone_auditRows:
  assumes "s ChainRow = Some (ChainCell q)" and "n = 0 \<or> q + int n \<le> max_int64"
  shows "alone (auditRows n p) s = alone p (s(ChainRow \<mapsto> ChainCell (q + int n)))"
  using assms
proof (induction n arbitrary: s q)
  case 0
  then show ?case by (simp add: fun_upd_idem)
next
  case (Suc n)
  let ?s = "s(ChainRow \<mapsto> ChainCell (q + 1))"
  have "alone (auditRows (Suc n) p) s = alone (auditRows n p) ?s" using Suc.prems by simp
  also have "\<dots> = alone p (?s(ChainRow \<mapsto> ChainCell (q + 1 + int n)))"
    by (rule Suc.IH) (use Suc.prems in auto)
  also have "?s(ChainRow \<mapsto> ChainCell (q + 1 + int n)) = s(ChainRow \<mapsto> ChainCell (q + int (Suc n)))"
    by (rule ext) simp
  finally show ?case .
qed

lemma alone_lockAccountRows:
  "alone (lockAccountRows is m k) s =
     alone (k (\<lambda>i. if i \<in> set is then account_in (s (AccountRow i)) else m i)) s"
  by (induction "is" arbitrary: m) (auto intro!: arg_cong [of _ _ "\<lambda>m. alone (k m) s"])

lemma alone_audited:
  assumes "same_ledger d d'" and "audit_appended d d'" and "chainSeq d' = chainSeq d + int n"
  shows "alone (auditRows n p) (rows_of d) = alone p (rows_of d')"
proof -
  have "n = 0 \<or> chainSeq d + int n \<le> max_int64" using assms(2,3) by (auto simp: audit_appended_def)
  then have "alone (auditRows n p) (rows_of d) = alone p ((rows_of d)(ChainRow \<mapsto> ChainCell (chainSeq d + int n)))"
    by (rule alone_auditRows [rotated]) simp
  also have "(rows_of d)(ChainRow \<mapsto> ChainCell (chainSeq d + int n)) = rows_of d'"
    by (rule rows_eqI) (use assms in \<open>auto simp: same_ledger_def books_def\<close>)
  finally show ?thesis .
qed

text \<open>The audit rows an operation has written.\<close>

definition audit_rows :: "'d db \<Rightarrow> 'd db \<Rightarrow> nat" where
  "audit_rows d d' = nat (chainSeq d' - chainSeq d)"

lemma alone_audits_only:
  assumes "audits_only H d d'" and "chainSeq d = chainSeq d0"
  shows "alone (auditRows (audit_rows d0 d') p) (rows_of d) = alone p (rows_of d')"
  by (rule alone_audited) (use assms in \<open>auto simp: audits_only_def audit_appended_def audit_rows_def\<close>)

section \<open>Transfers\<close>

lemma taken_append: "reversal_taken (Some r) (ts @ [t]) \<longleftrightarrow> reversal_taken (Some r) ts \<or> trReversed t = Some r"
  by (auto simp: reversal_taken_def list_ex_iff)

lemma posted1_rows:
  assumes p: "posted1 d t d1"
    and io: "trFrom t = ciFrom ti" "trTo t = ciTo ti" "trAmount t = ciAmount ti" "trReversed t = ciReversed ti"
    and m: "m (ciFrom ti) = books d (ciFrom ti)" "m (ciTo ti) = books d (ciTo ti)"
  obtains a b where
    "move ti m = Inr (m(ciFrom ti \<mapsto> a, ciTo ti \<mapsto> b))"
    "books d1 = (books d)(ciFrom ti \<mapsto> a, ciTo ti \<mapsto> b)"
    "\<And>q. alone (reversalRow (ciReversed ti)
       (UpdateRow (AccountRow (ciFrom ti)) (AccountCell a) (UpdateRow (AccountRow (ciTo ti)) (AccountCell b) q)))
       (rows_of d) = alone q (rows_of d1)"
proof -
  obtain ra rb where r: "find_row accID (trFrom t) (accountsT d) = Some ra"
    "find_row accID (trTo t) (accountsT d) = Some rb" "trFrom t \<noteq> trTo t" "accCurrency ra = accCurrency rb"
    "ValidateDebit ra (trAmount t) = None" "ValidateCredit rb (trAmount t) = None"
    and f: "\<And>i. find_row accID i (accountsT d1) =
       (if i = trFrom t then Some (debited ra t ra) else if i = trTo t then Some (credited rb t rb)
        else find_row accID i (accountsT d))"
    using posted1_account [OF p] by metis
  let ?a = "(book_of ra)\<lparr>bkBalance := bkBalance (book_of ra) - ciAmount ti\<rparr>"
  let ?b = "(book_of rb)\<lparr>bkBalance := bkBalance (book_of rb) + ciAmount ti\<rparr>"
  have mv: "move ti m = Inr (m(ciFrom ti \<mapsto> ?a, ciTo ti \<mapsto> ?b))"
    using r m io by (auto simp: move_def books_def book_of_def ValidateDebit_None ValidateCredit_None AvailableBalance_def)
  have bk: "books d1 = (books d)(ciFrom ti \<mapsto> ?a, ciTo ti \<mapsto> ?b)"
    using r(3) io by (auto simp: books_def f book_of_def debited_def credited_def set_balance_def)
  have fr: "holdsT d1 = holdsT d" "chainSeq d1 = chainSeq d" "transfersT d1 = transfersT d @ [t]"
    using posted1_frame [OF p] by simp_all
  have new: "\<not> reversal_taken (ciReversed ti) (transfersT d)"
    using p io(4) unfolding posted1_def posts_def by auto
  have rows: "rows_of d1 = (case ciReversed ti of None \<Rightarrow> rows_of d | Some r \<Rightarrow> (rows_of d)(ReversalKey r \<mapsto> ReversalCell))
      (AccountRow (ciFrom ti) \<mapsto> AccountCell ?a, AccountRow (ciTo ti) \<mapsto> AccountCell ?b)"
    by (rule sym, rule rows_eqI)
      (use bk fr io(4) in \<open>auto simp: taken_append split: option.split\<close>)
  show thesis
    by (rule that [OF mv bk]) (use rows new in \<open>auto split: option.split\<close>)
qed

lemma posted_rows:
  assumes "posted d ts d'" and "list_all2 (asked md now eventAt) tis ts"
    and "\<And>ti. ti \<in> set tis \<Longrightarrow> m (ciFrom ti) = books d (ciFrom ti) \<and> m (ciTo ti) = books d (ciTo ti)"
  shows "alone (transferRows tis m p) (rows_of d) = alone p (rows_of d')"
  using assms
proof (induction tis arbitrary: ts d m)
  case Nil
  then show ?case by simp
next
  case (Cons ti tis)
  then obtain t us d1 where ts: "ts = t # us" "asked md now eventAt ti t" "list_all2 (asked md now eventAt) tis us"
    and p: "posted1 d t d1" "posted d1 us d'" by (auto simp: list_all2_Cons1)
  have io: "trFrom t = ciFrom ti" "trTo t = ciTo ti" "trAmount t = ciAmount ti" "trReversed t = ciReversed ti"
    using ts(2) unfolding asked_def by (metis transfer_of_simps(1-4))+
  have m: "m (ciFrom ti) = books d (ciFrom ti)" "m (ciTo ti) = books d (ciTo ti)" using Cons.prems(3) by auto
  obtain a b where mv: "move ti m = Inr (m(ciFrom ti \<mapsto> a, ciTo ti \<mapsto> b))"
    and bk: "books d1 = (books d)(ciFrom ti \<mapsto> a, ciTo ti \<mapsto> b)"
    and al: "\<And>q. alone (reversalRow (ciReversed ti)
       (UpdateRow (AccountRow (ciFrom ti)) (AccountCell a) (UpdateRow (AccountRow (ciTo ti)) (AccountCell b) q)))
       (rows_of d) = alone q (rows_of d1)"
    using posted1_rows [OF p(1) io m] by blast
  have ne: "ciFrom ti \<noteq> ciTo ti" using posted1_account [OF p(1)] io by metis
  have "alone (transferRows tis (m(ciFrom ti \<mapsto> a, ciTo ti \<mapsto> b)) p) (rows_of d1) = alone p (rows_of d')"
    by (rule Cons.IH [OF p(2) ts(3)]) (use Cons.prems(3) bk in auto)
  then show ?case using mv al ne by simp
qed

lemma posted_accounts: "posted d ts d' \<Longrightarrow> t \<in> set ts \<Longrightarrow> books d (trFrom t) \<noteq> None \<and> books d (trTo t) \<noteq> None"
proof (induction ts arbitrary: d)
  case (Cons u ts)
  then obtain d1 where d1: "posted1 d u d1" "posted d1 ts d'" by auto
  have "books d i \<noteq> None \<longleftrightarrow> books d1 i \<noteq> None" for i
    using books_posted1 [OF d1(1)] by (auto split: if_splits)
  then show ?case using Cons d1 books_posted1 [OF d1(1)] by auto
qed simp

lemma batch_rows:
  assumes "batch_done H input ts d d'" and "checkBatch input = None"
  shows "alone (batchProgram input (audit_rows d d')) (rows_of d) = Inr (rows_of d')"
proof -
  obtain d1 now ev where p: "posted d ts d1" and au: "audits_only H d1 d'"
    and as: "list_all2 (asked (cbMetadata input) now ev) (cbTransfers input) ts"
    using assms(1) unfolding batch_done_def by blast
  let ?ids = "sort (collectUniqueAccountIDs (cbTransfers input))"
  let ?m = "\<lambda>i. if i \<in> set ?ids then account_in (rows_of d (AccountRow i)) else None"
  have "books d (ciFrom ti) \<noteq> None \<and> books d (ciTo ti) \<noteq> None" if ti: "ti \<in> set (cbTransfers input)" for ti
  proof -
    obtain j where "j < length (cbTransfers input)" "cbTransfers input ! j = ti"
      using ti by (meson in_set_conv_nth)
    then have "j < length ts" "asked (cbMetadata input) now ev ti (ts ! j)"
      using as list_all2_nthD [OF as] list_all2_lengthD [OF as] by auto
    then obtain t where "t \<in> set ts" "asked (cbMetadata input) now ev ti t" using nth_mem by blast
    moreover have "trFrom t = ciFrom ti" "trTo t = ciTo ti"
      using \<open>asked _ _ _ ti t\<close> unfolding asked_def by (metis transfer_of_simps(1), metis transfer_of_simps(2))
    ultimately show ?thesis using posted_accounts [OF p, of t] by simp
  qed
  then have "\<not> list_ex (\<lambda>i. ?m i = None) ?ids" by (auto simp: list_ex_iff collectUniqueAccountIDs_set(2))
  then have "alone (batchProgram input n) (rows_of d) =
      alone (transferRows (cbTransfers input) ?m (auditRows n CommitTx)) (rows_of d)" for n
    using assms(2) by (simp add: batchProgram_def Let_def alone_lockAccountRows)
  also have "\<dots> n = alone (auditRows n CommitTx) (rows_of d1)" for n
    by (rule posted_rows [OF p as]) (auto simp: collectUniqueAccountIDs_set(2))
  finally show ?thesis
    using alone_audits_only [OF au, of d CommitTx] posted_frame [OF p] by simp
qed

section \<open>Holds and accounts\<close>

lemma alone_hold_parts:
  assumes "find_row hoID hid (holdsT d) = Some h" and "hoStatus h = HoldStatusActive"
  shows "alone (withActiveHold hid k) (rows_of d) = alone (k (hoAccount h) (hoAmount h)) (rows_of d)"
  using assms by (simp add: withActiveHold_def)

lemma held_rows:
  assumes "held d h d1" and "audits_only H d1 d'"
  shows "alone (holdProgram (hoAccount h) (hoAmount h) (hoID h) (audit_rows d d')) (rows_of d) = Inr (rows_of d')"
proof -
  obtain a i row where a: "find_row accID (hoAccount h) (accountsT d) = Some a"
    and h: "hoStatus h = HoldStatusActive" "0 < hoAmount h" "hoID h \<notin> hoID ` set (holdsT d)"
    and v: "ValidateDebit a (hoAmount h) = None"
    and ob: "sql_CreateOutboxEvent (holdEvent i h (accCurrency a) (hoCreatedAt h))
          (with_account (hoAccount h) (set_encumbered (accEncumbered a + hoAmount h) (hoCreatedAt h))
             (d\<lparr>holdsT := holdsT d @ [h]\<rparr>)) = Inr (row, d1)"
    using assms(1) unfolding held_def by blast
  note d1 = sql_CreateOutboxEvent_Inr(3) [OF ob]
  let ?b = "(book_of a)\<lparr>bkHeld := bkHeld (book_of a) + hoAmount h\<rparr>"
  have bk: "books d (hoAccount h) = Some (book_of a)" using a by (simp add: books_def)
  have new: "find_row hoID (hoID h) (holdsT d) = None" using h(3) by (simp add: find_row_None)
  have "rows_of d1 = (rows_of d)(HoldRow (hoID h) \<mapsto> HoldCell (hoAccount h) (hoAmount h) HoldStatusActive,
      AccountRow (hoAccount h) \<mapsto> AccountCell ?b)"
    by (rule sym, rule rows_eqI)
      (use a h(1) new in \<open>auto simp: d1 with_account_def books_def find_row_update find_row_append find_row_single book_of_def set_encumbered_def split: option.split\<close>)
  then have "alone (holdProgram (hoAccount h) (hoAmount h) (hoID h) n) (rows_of d) =
      alone (auditRows n CommitTx) (rows_of d1)" for n
    using bk new v h(2) by (auto simp: holdProgram_def ValidateDebit_None AvailableBalance_def book_of_def)
  then show ?thesis using alone_audits_only [OF assms(2), of d CommitTx] by (simp add: d1 with_account_def)
qed

lemma released_rows:
  assumes "released d h now d1" and "find_row hoID hid (holdsT d) = Some h"
  shows "alone (voidProgram hid) (rows_of d) = Inr (rows_of d1)" "chainSeq d1 = chainSeq d"
proof -
  obtain a i row n where h: "hoStatus h = HoldStatusActive" and a: "find_row accID (hoAccount h) (accountsT d) = Some a"
    and n: "n = (if accEncumbered a - hoAmount h < 0 then 0 else accEncumbered a - hoAmount h)"
    and ob: "sql_CreateOutboxEvent (voidEvent i h now)
          (with_account (hoAccount h) (set_encumbered n now)
             (d\<lparr>holdsT := update_rows hoID (hoID h) (set_status HoldStatusVoided now) (holdsT d)\<rparr>)) = Inr (row, d1)"
    using assms(1) unfolding released_def by blast
  note d1 = sql_CreateOutboxEvent_Inr(3) [OF ob]
  have hid: "hoID h = hid" using find_row_Some [OF assms(2)] by simp
  have bk: "books d (hoAccount h) = Some (book_of a)" using a by (simp add: books_def)
  have "rows_of d1 = (rows_of d)(HoldRow hid \<mapsto> HoldCell (hoAccount h) (hoAmount h) HoldStatusVoided,
      AccountRow (hoAccount h) \<mapsto> AccountCell ((book_of a)\<lparr>bkHeld := n\<rparr>))"
    by (rule sym, rule rows_eqI)
      (use a assms(2) hid in \<open>auto simp: d1 with_account_def books_def find_row_update book_of_def set_encumbered_def set_status_def\<close>)
  then show "alone (voidProgram hid) (rows_of d) = Inr (rows_of d1)"
    using bk n by (simp add: voidProgram_def alone_hold_parts [OF assms(2) h] book_of_def)
  show "chainSeq d1 = chainSeq d" by (simp add: d1 with_account_def)
qed

lemma captured_rows:
  assumes "captured d h t d1" and "find_row hoID hid (holdsT d) = Some h"
  shows "alone (captureProgram hid (trTo t)) (rows_of d) = Inr (rows_of d1)" "chainSeq d1 = chainSeq d"
proof -
  obtain a b e1 e2 i row where h: "hoStatus h = HoldStatusActive"
    and t: "trFrom t = hoAccount h" "trAmount t = hoAmount h" "trReversed t = None"
    and p: "posts d t e1 e2 (set_both (accBalance a - hoAmount h) (accEncumbered a - hoAmount h) (trCreatedAt t))
          (credited b t) a b"
    and v: "ValidateCredit b (hoAmount h) = None"
    and ob: "sql_CreateOutboxEvent (captureEvent i h t (trTo t) (trCreatedAt t))
          ((post t e1 e2 (set_both (accBalance a - hoAmount h) (accEncumbered a - hoAmount h) (trCreatedAt t))
             (credited b t) d)
           \<lparr>holdsT := update_rows hoID (hoID h) (set_status HoldStatusCaptured (trCreatedAt t)) (holdsT d)\<rparr>)
          = Inr (row, d1)"
    using assms(1) unfolding captured_def by blast
  note d1 = sql_CreateOutboxEvent_Inr(3) [OF ob]
  have hid: "hoID h = hid" using find_row_Some [OF assms(2)] by simp
  have ab: "find_row accID (hoAccount h) (accountsT d) = Some a" "find_row accID (trTo t) (accountsT d) = Some b"
    "accCurrency a = accCurrency b" "hoAccount h \<noteq> trTo t" using p t by (auto simp: posts_def)
  have bk: "books d (hoAccount h) = Some (book_of a)" "books d (trTo t) = Some (book_of b)"
    using ab by (simp_all add: books_def)
  let ?a = "(book_of a)\<lparr>bkBalance := bkBalance (book_of a) - hoAmount h, bkHeld := bkHeld (book_of a) - hoAmount h\<rparr>"
  let ?b = "(book_of b)\<lparr>bkBalance := bkBalance (book_of b) + hoAmount h\<rparr>"
  have "books d1 = (books d)(hoAccount h \<mapsto> ?a, trTo t \<mapsto> ?b)"
    using posts_find [OF p] ab(4) t
    by (auto simp: d1 books_def book_of_def set_both_def credited_def set_balance_def)
  then have rows: "rows_of d1 = (rows_of d)(AccountRow (hoAccount h) \<mapsto> AccountCell ?a, AccountRow (trTo t) \<mapsto> AccountCell ?b,
      HoldRow hid \<mapsto> HoldCell (hoAccount h) (hoAmount h) HoldStatusCaptured)"
    by (intro sym [OF rows_eqI])
      (use assms(2) hid t(3) in \<open>auto simp: d1 post_def find_row_update set_status_def taken_append\<close>)
  let ?ids = "sort (remdups [hoAccount h, trTo t])"
  have "set ?ids = {hoAccount h, trTo t}" by simp
  then have "alone (captureProgram hid (trTo t)) (rows_of d) = Inr ((rows_of d)(AccountRow (hoAccount h) \<mapsto> AccountCell ?a,
      AccountRow (trTo t) \<mapsto> AccountCell ?b, HoldRow hid \<mapsto> HoldCell (hoAccount h) (hoAmount h) HoldStatusCaptured))"
    unfolding captureProgram_def alone_hold_parts [OF assms(2) h] alone_lockAccountRows
    using bk ab(3,4) v by (auto simp: ValidateCredit_None book_of_def)
  then show "alone (captureProgram hid (trTo t)) (rows_of d) = Inr (rows_of d1)" by (simp only: rows)
  show "chainSeq d1 = chainSeq d" by (simp add: d1 post_def)
qed

lemma CreateAccount_new:
  assumes "CreateAccount E ctx input w = (Inr a, w')"
  shows "\<exists>i now. a = newAccount i input now"
proof -
  obtain now w0 where run: "accountTransaction E ctx input now w0 = (Inr a, w')"
    using assms by (auto simp: CreateAccount_def run_simps)
  obtain w1 w2 where "accountBody E ctx input now w1 = (Inr a, w2)" using account_tx.tx_succeeded [OF run] by metis
  then show ?thesis by (auto simp: accountBody_def run_simps Let_def)
qed

lemma opened_rows:
  assumes "opened d a d1" and "audits_only H d1 d'" and "a = newAccount i input now"
    and "ValidateAccountName (aiName input) = None" and "ValidateCurrency (aiCurrency input) = None"
  shows "alone (accountProgram (accID a) input (audit_rows d d')) (rows_of d) = Inr (rows_of d')"
proof -
  have new: "find_row accID (accID a) (accountsT d) = None" and d1: "d1 = d\<lparr>accountsT := accountsT d @ [a]\<rparr>"
    using assms(1) by (simp_all add: opened_def find_row_None)
  have book: "book_of (newAccount (accID a) input 0) = book_of a" by (simp add: assms(3) newAccount_def book_of_def)
  have "rows_of d1 = (rows_of d)(AccountRow (accID a) \<mapsto> AccountCell (book_of a))"
    by (rule sym, rule rows_eqI)
      (use new in \<open>auto simp: d1 books_def find_row_append find_row_single split: option.split\<close>)
  moreover have "rows_of d (AccountRow (accID a)) = None" using new by (simp add: books_def)
  ultimately have "alone (accountProgram (accID a) input n) (rows_of d) = alone (auditRows n CommitTx) (rows_of d1)" for n
    using assms(4,5) by (simp add: accountProgram_def book)
  then show ?thesis using alone_audits_only [OF assms(2), of d CommitTx] by (simp add: d1)
qed

text \<open>Audit rows written one by one on the pool.\<close>

lemma serial_audits:
  assumes "s ChainRow = Some (ChainCell q)" and "n = 0 \<or> q + int n \<le> max_int64"
  shows "serial (replicate n auditProgram) s = Inr (s(ChainRow \<mapsto> ChainCell (q + int n)))"
  using assms
proof (induction n arbitrary: s q)
  case 0
  then show ?case by (simp add: fun_upd_idem)
next
  case (Suc n)
  let ?s = "s(ChainRow \<mapsto> ChainCell (q + 1))"
  have "serial (replicate (Suc n) auditProgram) s = serial (replicate n auditProgram) ?s"
    using Suc.prems by (simp add: auditProgram_def)
  also have "\<dots> = Inr (?s(ChainRow \<mapsto> ChainCell (q + 1 + int n)))"
    by (rule Suc.IH) (use Suc.prems in auto)
  also have "?s(ChainRow \<mapsto> ChainCell (q + 1 + int n)) = s(ChainRow \<mapsto> ChainCell (q + int (Suc n)))"
    by (rule ext) simp
  finally show ?case .
qed

lemma audits_only_serial:
  assumes "audits_only H d d'" and "chainSeq d = chainSeq d0"
  shows "serial (replicate (audit_rows d0 d') auditProgram) (rows_of d) = Inr (rows_of d')"
proof -
  obtain n where rs: "same_ledger d d'" "chainSeq d' = chainSeq d + int n" "n = 0 \<or> chainSeq d' \<le> max_int64"
    using assms(1) by (fastforce simp: audits_only_def audit_appended_def)
  have n: "audit_rows d0 d' = n" using rs(2) assms(2) by (simp add: audit_rows_def)
  have "serial (replicate n auditProgram) (rows_of d) = Inr ((rows_of d)(ChainRow \<mapsto> ChainCell (chainSeq d + int n)))"
    by (rule serial_audits) (use rs in auto)
  also have "(rows_of d)(ChainRow \<mapsto> ChainCell (chainSeq d + int n)) = rows_of d'"
    by (rule rows_eqI) (use rs in \<open>auto simp: same_ledger_def books_def\<close>)
  finally show ?thesis by (simp add: n)
qed

section \<open>The use cases run their programs\<close>

text \<open>An operation that fails leaves at most audit rows.\<close>

inductive refused :: "hasher \<Rightarrow> 'd::linordered_idom world \<Rightarrow> 'd world \<Rightarrow> bool" for H where
  "envHasher E = H \<Longrightarrow> CreateAccount E ctx ai w = (Inl e, w') \<Longrightarrow> refused H w w'"
| "envHasher E = H \<Longrightarrow> CreateBatchTransfer E R ctx bi w = (Inl e, w') \<Longrightarrow> refused H w w'"
| "envHasher E = H \<Longrightarrow> ReverseTransfer E R ctx i md w = (Inl e, w') \<Longrightarrow> refused H w w'"
| "envHasher E = H \<Longrightarrow> HoldFunds E ctx acc amount w = (Inl e, w') \<Longrightarrow> refused H w w'"
| "envHasher E = H \<Longrightarrow> VoidHold E ctx hid w = (Inl e, w') \<Longrightarrow> refused H w w'"
| "envHasher E = H \<Longrightarrow> CaptureHold E ctx hid to w = (Inl e, w') \<Longrightarrow> refused H w w'"

text \<open>One operation of the service, with the transactions it commits.\<close>

inductive served :: "hasher \<Rightarrow> 'd::linordered_idom world \<Rightarrow> 'd request list \<Rightarrow> 'd world \<Rightarrow> bool" for H where
  served_account: "envHasher E = H \<Longrightarrow> CreateAccount E ctx ai w = (Inr a, w') \<Longrightarrow>
    served H w [AskAccount (accID a) ai (audit_rows (committed w) (committed w'))] w'"
| served_batch: "envHasher E = H \<Longrightarrow> CreateBatchTransfer E R ctx bi w = (Inr ts, w') \<Longrightarrow>
    served H w [AskBatch bi (audit_rows (committed w) (committed w'))] w'"
| served_reverse: "envHasher E = H \<Longrightarrow> ReverseTransfer E R ctx i md w = (Inr t, w') \<Longrightarrow>
    find_row trID i (transfersT (committed w)) = Some original \<Longrightarrow>
    served H w [AskBatch (reversal_input original (trEventAt t) md) (audit_rows (committed w) (committed w'))] w'"
| served_hold: "envHasher E = H \<Longrightarrow> HoldFunds E ctx acc amount w = (Inr h, w') \<Longrightarrow>
    served H w [AskHold acc amount (hoID h) (audit_rows (committed w) (committed w'))] w'"
| served_void: "envHasher E = H \<Longrightarrow> VoidHold E ctx hid w = (Inr u, w') \<Longrightarrow>
    served H w (AskVoid hid # replicate (audit_rows (committed w) (committed w')) AskAudit) w'"
| served_capture: "envHasher E = H \<Longrightarrow> CaptureHold E ctx hid to w = (Inr t, w') \<Longrightarrow>
    served H w (AskCapture hid to # replicate (audit_rows (committed w) (committed w')) AskAudit) w'"
| served_publish: "processEvents E publish cfg w = (r, w') \<Longrightarrow> served H w [] w'"
| served_refused: "refused H w w' \<Longrightarrow> served H w (replicate (audit_rows (committed w) (committed w')) AskAudit) w'"

text \<open>Every step of the sequential system is one of them.\<close>

lemma step_served:
  assumes "step H w w'"
  shows "\<exists>rs. served H w rs w'"
  using assms
proof cases
  case (step_account E ctx ai r)
  then show ?thesis by (cases r) (blast intro: served.intros refused.intros)+
next
  case (step_batch E R ctx bi r)
  then show ?thesis by (cases r) (blast intro: served.intros refused.intros)+
next
  case (step_reverse E R ctx i md r)
  show ?thesis
  proof (cases r)
    case (Inl e)
    then show ?thesis using step_reverse by (blast intro: served.intros refused.intros)
  next
    case (Inr t)
    then show ?thesis
      using step_reverse ReverseTransfer_batch [OF step_reverse(2)] served_reverse [of E H R ctx i md w t w'] by auto
  qed
next
  case (step_hold E ctx acc amount r)
  then show ?thesis by (cases r) (blast intro: served.intros refused.intros)+
next
  case (step_void E ctx hid r)
  then show ?thesis by (cases r) (blast intro: served.intros refused.intros)+
next
  case (step_capture E ctx hid to r)
  then show ?thesis by (cases r) (blast intro: served.intros refused.intros)+
next
  case (step_publish E publish cfg r)
  then show ?thesis by (blast intro: served.intros)
qed

lemma refused_audits:
  assumes "refused H w w'"
  shows "audits_only H (committed w) (committed w')"
  using assms
proof cases
  case (3 E R ctx i md e)
  show ?thesis
    using ReverseTransfer_batch [OF 3(2)] CreateBatchTransfer_failed 3(1) by (fastforce split: sum.splits)
qed (auto dest: CreateAccount_failed CreateBatchTransfer_failed HoldFunds_failed VoidHold_failed CaptureHold_failed)

lemma batchProgram_cong:
  "checkBatch i = checkBatch j \<Longrightarrow> cbTransfers i = cbTransfers j \<Longrightarrow> batchProgram i n = batchProgram j n"
  by (simp only: batchProgram_def)

lemma reversal_program:
  "batchProgram (reversal_input original now md) n = batchProgram (reversal_input original now' md) n"
  by (rule batchProgram_cong) (simp_all only: reversal_input_def checkBatch_def CreateBatchTransferInput.simps)

lemma hold_then_audits:
  assumes "alone p (rows_of d) = Inr (rows_of d1)" and "chainSeq d1 = chainSeq d" and "audits_only H d1 d'"
  shows "serial (p # replicate (audit_rows d d') auditProgram) (rows_of d) = Inr (rows_of d')"
  using audits_only_serial [OF assms(3,2)] assms(1) by simp

lemma served_serial:
  assumes "served H w rs w'" and inv: "sys_inv H (committed w)"
  shows "serial (map program_of rs) (rows_of (committed w)) = Inr (rows_of (committed w'))"
  using assms(1)
proof cases
  case (served_account E ctx ai a)
  note s = CreateAccount_succeeded [OF served_account(3)]
  obtain d1 where "opened (committed w) a d1" "audits_only H d1 (committed w')" using s(1) served_account(2) by blast
  then show ?thesis using opened_rows s(4,5) CreateAccount_new [OF served_account(3)] served_account(1) by fastforce
next
  case (served_batch E R ctx bi ts)
  note s = CreateBatchTransfer_succeeded [OF served_batch(3) sys_ledger [OF inv]]
  show ?thesis using batch_rows [OF s] served_batch(1) by simp
next
  case (served_reverse E R ctx i md t original)
  obtain now v r' where v: "committed v = committed w"
    "CreateBatchTransfer E R ctx (reversal_input original now md) v = (r', w')"
    "Inr t = (case r' of Inl e \<Rightarrow> Inl e | Inr ts \<Rightarrow> Inr (hd ts))"
    using ReverseTransfer_batch [OF served_reverse(3)] served_reverse(4) by auto
  then obtain ts where ts: "CreateBatchTransfer E R ctx (reversal_input original now md) v = (Inr ts, w')"
    by (auto split: sum.splits)
  have "ledger_inv (committed v)" using v(1) sys_ledger [OF inv] by simp
  note s = CreateBatchTransfer_succeeded [OF ts this]
  show ?thesis
    using batch_rows [OF s] served_reverse(1) v(1) reversal_program [of original "trEventAt t" md _ now] by simp
next
  case (served_hold E ctx acc amount h)
  note s = HoldFunds_succeeded [OF served_hold(3)]
  show ?thesis using s held_rows served_hold(1) by fastforce
next
  case (served_void E ctx hid u)
  obtain h now d1 where "find_row hoID hid (holdsT (committed w)) = Some h" "released (committed w) h now d1"
    "audits_only (envHasher E) d1 (committed w')" using VoidHold_succeeded [OF served_void(3)] by blast
  then show ?thesis using served_void(1) hold_then_audits [OF released_rows] by simp
next
  case (served_capture E ctx hid to t)
  note s = CaptureHold_succeeded [OF served_capture(3) sys_ledger [OF inv]]
  obtain h d1 where h: "captured (committed w) h t d1" "find_row hoID hid (holdsT (committed w)) = Some h"
    and au: "audits_only (envHasher E) d1 (committed w')" using s(1) by blast
  show ?thesis using hold_then_audits [OF captured_rows [OF h] au] served_capture(1) s(2) by simp
next
  case (served_publish E publish cfg r)
  have "outbox_steps (pass_row publish cfg) (committed w) (committed w')"
    using processEvents_pass [OF served_publish(2)] sys_ledger [OF inv] by (simp add: ledger_inv_def keys_ok_def)
  then have "rows_of (committed w) = rows_of (committed w')"
    by (intro rows_eqI) (auto simp: outbox_steps_def books_def)
  then show ?thesis using served_publish(1) by simp
next
  case served_refused
  then show ?thesis using audits_only_serial [OF refused_audits refl] by simp
qed

text \<open>Operations one after another, with all the transactions they commit.\<close>

inductive performs :: "hasher \<Rightarrow> 'd::linordered_idom world \<Rightarrow> 'd request list \<Rightarrow> 'd world \<Rightarrow> bool" for H where
  performs_none: "performs H w [] w"
| performs_more: "performs H w rs w1 \<Longrightarrow> served H w1 rs' w2 \<Longrightarrow> performs H w (rs @ rs') w2"

lemma served_sys: "served H w rs w' \<Longrightarrow> sys_inv H (committed w) \<Longrightarrow> sys_inv H (committed w')"
proof (induction rule: served.induct)
  case (served_refused w w')
  then show ?case using refused_audits audits_inv by blast
qed (auto dest: CreateAccount_sys CreateBatchTransfer_sys ReverseTransfer_sys HoldFunds_sys VoidHold_sys
      CaptureHold_sys processEvents_sys)

lemma performs_serial:
  assumes "performs H w rs w'" and "sys_inv H (committed w)"
  shows "serial (map program_of rs) (rows_of (committed w)) = Inr (rows_of (committed w')) \<and> sys_inv H (committed w')"
  using assms
proof (induction rule: performs.induct)
  case (performs_more w rs w1 rs' w2)
  then show ?case using served_serial [of H w1 rs' w2] served_sys [of H w1 rs' w2] by (simp add: serial_append)
qed simp

lemma steps_performs: "(step H)\<^sup>*\<^sup>* w w' \<Longrightarrow> \<exists>rs. performs H w rs w'"
  by (induction rule: rtranclp_induct) (blast intro: performs.intros dest: step_served)+

end
