(* ===== verification/ConcurrentMoney.thy ===== *)
theory ConcurrentMoney
  imports ConcurrencyLaws
begin

text \<open>
  The ledger's invariant on the rows: limits of every account, the encumbered amount of an account as
  the sum of its active holds, balances of each currency summing to zero. Every program keeps it when
  it runs alone, so every schedule keeps it.
\<close>

section \<open>Sums over rows\<close>

lemma sum_one:
  fixes F :: "'i \<Rightarrow> 'd::ab_group_add"
  assumes "finite A" and "x \<in> A" and "\<And>i. i \<in> A \<Longrightarrow> i \<noteq> x \<Longrightarrow> G i = F i"
  shows "sum G A = sum F A + (G x - F x)"
proof -
  have "sum G (A - {x}) = sum F (A - {x})" by (rule sum.cong) (use assms(3) in auto)
  then show ?thesis using sum.remove [OF assms(1,2), of G] sum.remove [OF assms(1,2), of F] by simp
qed

lemma sum_new:
  assumes "finite A" and "x \<notin> A" and "\<And>i. i \<in> A \<Longrightarrow> G i = F i"
  shows "sum G (insert x A) = sum F A + (G x :: 'd::ab_group_add)"
  using assms by (simp add: add.commute cong: sum.cong)

lemma sum_rows:
  assumes "distinct (map key rs)"
  shows "(\<Sum>i \<in> key ` set rs. f (find_row key i rs)) = sum_list (map (\<lambda>r. f (Some r)) rs)"
proof -
  have inj: "inj_on key (set rs)" and d: "distinct rs" using assms by (auto simp: distinct_map)
  have "(\<Sum>i \<in> key ` set rs. f (find_row key i rs)) = (\<Sum>r \<in> set rs. f (find_row key (key r) rs))"
    by (simp add: sum.reindex [OF inj])
  also have "\<dots> = (\<Sum>r \<in> set rs. f (Some r))"
    by (rule sum.cong) (simp_all add: find_row_unique [OF assms])
  finally show ?thesis by (simp add: sum_list_distinct_conv_sum_set [OF d])
qed

section \<open>The invariant\<close>

abbreviation account_at :: "(row_key, 'd cell) table \<Rightarrow> string \<Rightarrow> 'd book option" where
  "account_at s i \<equiv> account_in (s (AccountRow i))"

definition accounts_in :: "(row_key, 'd cell) table \<Rightarrow> string set" where
  "accounts_in s = {i. account_at s i \<noteq> None}"

definition holds_in :: "(row_key, 'd cell) table \<Rightarrow> string set" where
  "holds_in s = {h. s (HoldRow h) \<noteq> None}"

fun share :: "string \<Rightarrow> 'd::linordered_idom book option \<Rightarrow> 'd" where
  "share cur (Some b) = (if bkCurrency b = cur then bkBalance b else 0)"
| "share cur None = 0"

fun due :: "string \<Rightarrow> 'd::linordered_idom cell option \<Rightarrow> 'd" where
  "due i (Some (HoldCell acc amount HoldStatusActive)) = (if acc = i then amount else 0)"
| "due i c = 0"

definition funds :: "(row_key, 'd::linordered_idom cell) table \<Rightarrow> string \<Rightarrow> 'd" where
  "funds s cur = (\<Sum>i \<in> accounts_in s. share cur (account_at s i))"

definition reserved :: "(row_key, 'd::linordered_idom cell) table \<Rightarrow> string \<Rightarrow> 'd" where
  "reserved s i = (\<Sum>h \<in> holds_in s. due i (s (HoldRow h)))"

definition in_limits :: "'d::linordered_idom book \<Rightarrow> bool" where
  "in_limits b \<longleftrightarrow> (bkNegative b \<or> bkHeld b \<le> bkBalance b) \<and> (bkPositive b \<or> bkBalance b \<le> 0)"

fun hold_placed :: "(row_key, 'd::linordered_idom cell) table \<Rightarrow> 'd cell option \<Rightarrow> bool" where
  "hold_placed s (Some (HoldCell acc amount st)) \<longleftrightarrow> 0 < amount \<and> account_at s acc \<noteq> None"
| "hold_placed s c \<longleftrightarrow> True"

lemma hold_placed_mono:
  "hold_placed s c \<Longrightarrow> (\<And>i. account_at s i \<noteq> None \<Longrightarrow> account_at s' i \<noteq> None) \<Longrightarrow> hold_placed s' c"
  by (cases "(s, c)" rule: hold_placed.cases) auto

definition sound_rows :: "(row_key, 'd::linordered_idom cell) table \<Rightarrow> bool" where
  "sound_rows s \<longleftrightarrow>
     finite (accounts_in s) \<and> finite (holds_in s) \<and>
     (\<forall>i b. account_at s i = Some b \<longrightarrow> in_limits b \<and> bkHeld b = reserved s i) \<and>
     (\<forall>h. hold_placed s (s (HoldRow h))) \<and> (\<forall>cur. funds s cur = 0)"

lemma sound_rowsD:
  assumes "sound_rows s"
  shows "finite (accounts_in s)" "finite (holds_in s)" "account_at s i = Some b \<Longrightarrow> in_limits b"
    "account_at s i = Some b \<Longrightarrow> bkHeld b = reserved s i" "hold_placed s (s (HoldRow h))" "funds s cur = 0"
  using assms by (auto simp: sound_rows_def)

text \<open>Of the rows it looks at the accounts and the holds.\<close>

lemma sound_rows_cong:
  assumes "\<And>i. s' (AccountRow i) = s (AccountRow i)" and "\<And>i. s' (HoldRow i) = s (HoldRow i)"
  shows "sound_rows s' \<longleftrightarrow> sound_rows s"
proof -
  have "hold_placed s' c = hold_placed s c" for c
    using hold_placed_mono [of s c s'] hold_placed_mono [of s' c s] assms(1) by auto
  then show ?thesis by (simp add: sound_rows_def accounts_in_def holds_in_def funds_def reserved_def assms)
qed

text \<open>One account rewritten, one hold inserted or ended.\<close>

lemma put_account:
  assumes "account_at s i = Some b"
  shows "accounts_in (s(AccountRow i \<mapsto> AccountCell b')) = accounts_in s"
    "holds_in (s(AccountRow i \<mapsto> AccountCell b')) = holds_in s"
    "reserved (s(AccountRow i \<mapsto> AccountCell b')) j = reserved s j"
    "hold_placed s c \<Longrightarrow> hold_placed (s(AccountRow i \<mapsto> AccountCell b')) c"
    "finite (accounts_in s) \<Longrightarrow>
       funds (s(AccountRow i \<mapsto> AccountCell b')) cur = funds s cur + (share cur (Some b') - share cur (Some b))"
proof -
  let ?s = "s(AccountRow i \<mapsto> AccountCell b')"
  show acc: "accounts_in ?s = accounts_in s" using assms by (auto simp: accounts_in_def)
  show "holds_in ?s = holds_in s" by (simp add: holds_in_def)
  then show "reserved ?s j = reserved s j" by (simp add: reserved_def)
  show "hold_placed s c \<Longrightarrow> hold_placed ?s c" by (erule hold_placed_mono) auto
  assume fin: "finite (accounts_in s)"
  have "(\<Sum>j \<in> accounts_in s. share cur (account_at ?s j)) =
      (\<Sum>j \<in> accounts_in s. share cur (account_at s j)) + (share cur (account_at ?s i) - share cur (account_at s i))"
    by (rule sum_one [OF fin]) (use assms in \<open>auto simp: accounts_in_def\<close>)
  then show "funds ?s cur = funds s cur + (share cur (Some b') - share cur (Some b))"
    using assms acc by (simp add: funds_def)
qed

lemma put_hold:
  assumes "finite (holds_in s)"
  shows "accounts_in (s(HoldRow h \<mapsto> c)) = accounts_in s" "funds (s(HoldRow h \<mapsto> c)) cur = funds s cur"
    "holds_in (s(HoldRow h \<mapsto> c)) = insert h (holds_in s)"
    "hold_placed s x \<Longrightarrow> hold_placed (s(HoldRow h \<mapsto> c)) x"
    "reserved (s(HoldRow h \<mapsto> c)) i = reserved s i + (due i (Some c) - due i (s (HoldRow h)))"
proof -
  let ?s = "s(HoldRow h \<mapsto> c)"
  show acc: "accounts_in ?s = accounts_in s" by (simp add: accounts_in_def)
  then show "funds ?s cur = funds s cur" by (simp add: funds_def)
  show holds: "holds_in ?s = insert h (holds_in s)" by (auto simp: holds_in_def)
  show "hold_placed s x \<Longrightarrow> hold_placed ?s x" by (erule hold_placed_mono) simp
  show "reserved ?s i = reserved s i + (due i (Some c) - due i (s (HoldRow h)))"
  proof (cases "h \<in> holds_in s")
    case True
    have "(\<Sum>k \<in> holds_in s. due i (?s (HoldRow k))) =
        (\<Sum>k \<in> holds_in s. due i (s (HoldRow k))) + (due i (?s (HoldRow h)) - due i (s (HoldRow h)))"
      by (rule sum_one [OF assms True]) simp
    then show ?thesis using True holds by (simp add: reserved_def insert_absorb)
  next
    case False
    have "(\<Sum>k \<in> insert h (holds_in s). due i (?s (HoldRow k))) =
        (\<Sum>k \<in> holds_in s. due i (s (HoldRow k))) + due i (?s (HoldRow h))"
      by (rule sum_new [OF assms False]) (use False in auto)
    moreover have "s (HoldRow h) = None" using False by (simp add: holds_in_def)
    ultimately show ?thesis using holds by (simp add: reserved_def)
  qed
qed

section \<open>Every program keeps it\<close>

lemma move_sound:
  assumes s: "sound_rows s" and ab: "account_at s i = Some a" "account_at s j = Some b" "i \<noteq> j"
    and g: "bkCurrency a = bkCurrency b" "0 < amount" "bkNegative a \<or> amount \<le> bkBalance a - bkHeld a"
      "bkPositive b \<or> bkBalance b + amount \<le> 0"
  shows "sound_rows (s(AccountRow i \<mapsto> AccountCell (a\<lparr>bkBalance := bkBalance a - amount\<rparr>),
      AccountRow j \<mapsto> AccountCell (b\<lparr>bkBalance := bkBalance b + amount\<rparr>)))"
proof -
  let ?a = "a\<lparr>bkBalance := bkBalance a - amount\<rparr>" and ?b = "b\<lparr>bkBalance := bkBalance b + amount\<rparr>"
  let ?s1 = "s(AccountRow i \<mapsto> AccountCell ?a)"
  note d = sound_rowsD [OF s] and p1 = put_account [where s = s and i = i and b = a and b' = ?a, OF ab(1)]
  have b1: "account_at ?s1 j = Some b" using ab(2,3) by simp
  note p2 = put_account [where s = ?s1 and i = j and b = b and b' = ?b, OF b1]
  have l: "in_limits ?a" "in_limits ?b"
    using d(3) [OF ab(1)] d(3) [OF ab(2)] g by (auto simp: in_limits_def algebra_simps)
  have fin: "finite (accounts_in ?s1)" using d(1) p1(1) by simp
  show ?thesis unfolding sound_rows_def
  proof (intro conjI allI impI)
    show "finite (accounts_in (?s1(AccountRow j \<mapsto> AccountCell ?b)))" using fin p2(1) by simp
    show "finite (holds_in (?s1(AccountRow j \<mapsto> AccountCell ?b)))" using d(2) p1(2) p2(2) by simp
    show "hold_placed (?s1(AccountRow j \<mapsto> AccountCell ?b)) ((?s1(AccountRow j \<mapsto> AccountCell ?b)) (HoldRow h))" for h
      using p2(4) [OF p1(4) [OF d(5) [of h]]] by simp
    show "funds (?s1(AccountRow j \<mapsto> AccountCell ?b)) cur = 0" for cur
      using p1(5) [OF d(1), of cur] p2(5) [OF fin, of cur] d(6) [of cur] g(1) by simp
    fix k x assume x: "account_at (?s1(AccountRow j \<mapsto> AccountCell ?b)) k = Some x"
    have "reserved (?s1(AccountRow j \<mapsto> AccountCell ?b)) k = reserved s k" using p1(3) p2(3) by simp
    then show "in_limits x" "bkHeld x = reserved (?s1(AccountRow j \<mapsto> AccountCell ?b)) k"
      using x l ab d(4) [OF ab(1)] d(4) [OF ab(2)] d(3,4) [of k x] by (auto split: if_splits)
  qed
qed

text \<open>A hold written together with what its account has encumbered.\<close>

lemma hold_sound:
  assumes s: "sound_rows s" and a: "account_at s acc = Some a" and pos: "0 < amount"
    and b: "bkCurrency b = bkCurrency a" "bkBalance b = bkBalance a" "in_limits b"
    and h: "bkHeld b = bkHeld a + (due acc (Some (HoldCell acc amount st)) - due acc (s (HoldRow h)))"
    and other: "\<And>i. i \<noteq> acc \<Longrightarrow> due i (s (HoldRow h)) = 0"
  shows "sound_rows (s(HoldRow h \<mapsto> HoldCell acc amount st, AccountRow acc \<mapsto> AccountCell b))"
proof -
  let ?c = "HoldCell acc amount st"
  let ?s1 = "s(HoldRow h \<mapsto> ?c)"
  let ?s2 = "?s1(AccountRow acc \<mapsto> AccountCell b)"
  note d = sound_rowsD [OF s] and p1 = put_hold [where s = s and h = h and c = ?c, OF sound_rowsD(2) [OF s]]
  have a1: "account_at ?s1 acc = Some a" using a by simp
  note p2 = put_account [where s = ?s1 and i = acc and b = a and b' = b, OF a1]
  have fin: "finite (accounts_in ?s1)" using d(1) p1(1) by simp
  have none: "due i (Some ?c) = 0" if "i \<noteq> acc" for i using that by (cases st) simp_all
  have sh: "share cur (Some b) = share cur (Some a)" for cur by (simp add: b)
  have res: "reserved ?s2 i = reserved s i + (due i (Some ?c) - due i (s (HoldRow h)))" for i
    by (simp only: p2(3) p1(5))
  show ?thesis unfolding sound_rows_def
  proof (intro conjI allI impI)
    show "finite (accounts_in ?s2)" using fin p2(1) by simp
    show "finite (holds_in ?s2)" using d(2) p1(3) p2(2) by simp
    show "hold_placed ?s2 (?s2 (HoldRow k))" for k
      using p2(4) [OF p1(4) [OF d(5) [of k]]] pos by auto
    show "funds ?s2 cur = 0" for cur using p2(5) [OF fin, of cur] p1(2) d(6) [of cur] sh [of cur] by simp
    fix k x assume x: "account_at ?s2 k = Some x"
    show "in_limits x" "bkHeld x = reserved ?s2 k"
      using x b(3) h res [of k] none [of k] other [of k] d(4) [OF a] d(3,4) [of k x] by (auto split: if_splits)
  qed
qed

lemma active_reserved:
  assumes s: "sound_rows s" and h: "s (HoldRow h) = Some (HoldCell acc amount HoldStatusActive)"
  shows "amount \<le> reserved s acc"
proof -
  have "0 \<le> due acc (s (HoldRow k))" for k
    using sound_rowsD(5) [OF s, of k] by (cases "(acc, s (HoldRow k))" rule: due.cases) auto
  then have "due acc (s (HoldRow h)) \<le> (\<Sum>k \<in> holds_in s. due acc (s (HoldRow k)))"
    by (intro member_le_sum) (use h sound_rowsD(2) [OF s] in \<open>auto simp: holds_in_def\<close>)
  then show ?thesis using h by (simp add: reserved_def)
qed

lemma open_sound:
  assumes s: "sound_rows s" and new: "s (AccountRow i) = None"
    and b: "bkBalance b = 0" "bkHeld b = 0"
  shows "sound_rows (s(AccountRow i \<mapsto> AccountCell b))"
proof -
  let ?s = "s(AccountRow i \<mapsto> AccountCell b)"
  note d = sound_rowsD [OF s]
  have acc: "accounts_in ?s = insert i (accounts_in s)" by (auto simp: accounts_in_def)
  have holds: "holds_in ?s = holds_in s" by (simp add: holds_in_def)
  have res: "reserved ?s k = reserved s k" for k using holds by (simp add: reserved_def)
  have "due i (s (HoldRow h)) = 0" for h
    using d(5) [of h] new by (cases "(i, s (HoldRow h))" rule: due.cases) auto
  then have zero: "reserved s i = 0" by (simp add: reserved_def)
  have placed: "hold_placed ?s (?s (HoldRow h))" for h
    using hold_placed_mono [OF d(5) [of h], of ?s] by auto
  have "i \<notin> accounts_in s" using new by (simp add: accounts_in_def)
  then have "(\<Sum>k \<in> insert i (accounts_in s). share cur (account_at ?s k)) =
      (\<Sum>k \<in> accounts_in s. share cur (account_at s k)) + share cur (account_at ?s i)" for cur
    by (intro sum_new [OF d(1)]) auto
  then have "funds ?s cur = 0" for cur using d(6) [of cur] acc b by (simp add: funds_def)
  then show ?thesis
    using d(1-4) acc holds res zero placed b unfolding sound_rows_def by (auto simp: in_limits_def)
qed

lemma auditRows_ran: "alone (auditRows n p) s = Inr s' \<Longrightarrow> \<exists>c. alone p (s(ChainRow := c)) = Inr s'"
proof (induction n arbitrary: s)
  case 0
  then show ?case by (metis auditRows.simps(1) fun_upd_triv)
next
  case (Suc n)
  then obtain q where "alone (auditRows n p) (s(ChainRow \<mapsto> ChainCell (q + 1))) = Inr s'"
    by (auto split: option.splits cell.splits if_splits)
  from Suc.IH [OF this] show ?case by (simp only: fun_upd_upd)
qed

lemma auditRows_sound: "alone (auditRows n CommitTx) s = Inr s' \<Longrightarrow> sound_rows s \<Longrightarrow> sound_rows s'"
proof -
  assume "alone (auditRows n CommitTx) s = Inr s'" and s: "sound_rows s"
  then obtain c where "s' = s(ChainRow := c)" using auditRows_ran [of n CommitTx s s'] by auto
  then show "sound_rows s'" using s by (subst sound_rows_cong [of _ s]) auto
qed

lemma transferRows_sound:
  assumes "alone (transferRows tis m p) s = Inr s'" and "sound_rows s"
    and "\<And>ti. ti \<in> set tis \<Longrightarrow> m (ciFrom ti) = account_at s (ciFrom ti) \<and> m (ciTo ti) = account_at s (ciTo ti)"
    and "\<And>ti. ti \<in> set tis \<Longrightarrow> ciFrom ti \<noteq> ciTo ti \<and> 0 < ciAmount ti"
  shows "\<exists>s1. sound_rows s1 \<and> alone p s1 = Inr s'"
  using assms
proof (induction tis arbitrary: m s)
  case Nil
  then show ?case by auto
next
  case (Cons ti tis)
  have ok: "ciFrom ti \<noteq> ciTo ti" "0 < ciAmount ti" and m: "m (ciFrom ti) = account_at s (ciFrom ti)"
    "m (ciTo ti) = account_at s (ciTo ti)" using Cons.prems(3,4) by auto
  obtain m' where mv: "move ti m = Inr m'" using Cons.prems(1) by (cases "move ti m") auto
  then obtain a b where ab: "account_at s (ciFrom ti) = Some a" "account_at s (ciTo ti) = Some b"
    and g: "bkCurrency a = bkCurrency b" "bkNegative a \<or> ciAmount ti \<le> bkBalance a - bkHeld a"
      "bkPositive b \<or> bkBalance b + ciAmount ti \<le> 0"
    and m': "m' = m(ciFrom ti \<mapsto> a\<lparr>bkBalance := bkBalance a - ciAmount ti\<rparr>,
        ciTo ti \<mapsto> b\<lparr>bkBalance := bkBalance b + ciAmount ti\<rparr>)"
    using m by (auto simp: move_def not_less split: option.splits if_splits)
  let ?s = "case ciReversed ti of None \<Rightarrow> s | Some r \<Rightarrow> s(ReversalKey r \<mapsto> ReversalCell)"
  let ?t = "?s(AccountRow (ciFrom ti) \<mapsto> AccountCell (a\<lparr>bkBalance := bkBalance a - ciAmount ti\<rparr>),
      AccountRow (ciTo ti) \<mapsto> AccountCell (b\<lparr>bkBalance := bkBalance b + ciAmount ti\<rparr>))"
  have "sound_rows ?s" using Cons.prems(2) by (subst sound_rows_cong [of _ s]) (auto split: option.split)
  moreover have "account_at ?s (ciFrom ti) = Some a" "account_at ?s (ciTo ti) = Some b"
    using ab by (simp_all split: option.split)
  ultimately have t: "sound_rows ?t" using move_sound ok g by blast
  have "alone (transferRows tis m' p) ?t = Inr s'"
    using Cons.prems(1) mv m' ok(1) by (cases "ciReversed ti") (auto split: if_splits)
  then show ?case
    by (rule Cons.IH [OF _ t]) (use Cons.prems(3,4) m' in \<open>auto split: option.split\<close>)
qed

lemma batchProgram_sound:
  assumes run: "alone (batchProgram input n) s = Inr s'" and s: "sound_rows s"
  shows "sound_rows s'"
proof -
  let ?ids = "sort (collectUniqueAccountIDs (cbTransfers input))"
  let ?m = "\<lambda>i. if i \<in> set ?ids then account_at s i else None"
  have chk: "checkBatch input = None" using run by (auto simp: batchProgram_def split: option.splits)
  then have rows: "alone (transferRows (cbTransfers input) ?m (auditRows n CommitTx)) s = Inr s'"
    using run by (simp add: batchProgram_def Let_def alone_lockAccountRows split: if_splits)
  have "ciFrom ti \<noteq> ciTo ti \<and> 0 < ciAmount ti" if "ti \<in> set (cbTransfers input)" for ti
    using chk that by (auto simp: checkBatch_def first_error_None checkInput_def not_le split: option.splits if_splits)
  then have "\<exists>s1. sound_rows s1 \<and> alone (auditRows n CommitTx) s1 = Inr s'"
    by (intro transferRows_sound [OF rows s]) (auto simp: collectUniqueAccountIDs_set(2))
  then show ?thesis using auditRows_sound by blast
qed

lemma holdProgram_sound:
  assumes run: "alone (holdProgram acc amount hid n) s = Inr s'" and s: "sound_rows s"
  shows "sound_rows s'"
proof -
  obtain a where a: "account_at s acc = Some a" and new: "s (HoldRow hid) = None" and pos: "0 < amount"
    and g: "bkNegative a \<or> amount \<le> bkBalance a - bkHeld a"
    and au: "alone (auditRows n CommitTx) (s(HoldRow hid \<mapsto> HoldCell acc amount HoldStatusActive,
        AccountRow acc \<mapsto> AccountCell (a\<lparr>bkHeld := bkHeld a + amount\<rparr>))) = Inr s'"
    using run by (auto simp: holdProgram_def not_less not_le split: option.splits if_splits)
  have "in_limits (a\<lparr>bkHeld := bkHeld a + amount\<rparr>)"
    using sound_rowsD(3) [OF s a] g by (auto simp: in_limits_def algebra_simps)
  then have "sound_rows (s(HoldRow hid \<mapsto> HoldCell acc amount HoldStatusActive,
        AccountRow acc \<mapsto> AccountCell (a\<lparr>bkHeld := bkHeld a + amount\<rparr>)))"
    by (intro hold_sound [OF s a pos]) (simp_all add: new)
  then show ?thesis using au auditRows_sound by blast
qed

text \<open>What a hold that ends does to its account, before any money moves.\<close>

lemma release_sound:
  assumes s: "sound_rows s" and h: "s (HoldRow hid) = Some (HoldCell acc amount HoldStatusActive)"
    and a: "account_at s acc = Some a" and st: "st \<noteq> HoldStatusActive"
  shows "sound_rows (s(HoldRow hid \<mapsto> HoldCell acc amount st, AccountRow acc \<mapsto> AccountCell (a\<lparr>bkHeld := bkHeld a - amount\<rparr>)))"
    and "0 < amount" "amount \<le> bkHeld a"
proof -
  show pos: "0 < amount" using sound_rowsD(5) [OF s, of hid] h by simp
  show "amount \<le> bkHeld a" using active_reserved [OF s h] sound_rowsD(4) [OF s a] by simp
  have "in_limits (a\<lparr>bkHeld := bkHeld a - amount\<rparr>)"
    using sound_rowsD(3) [OF s a] pos by (auto simp: in_limits_def)
  moreover have "due acc (Some (HoldCell acc amount st)) = 0" using st by (cases st) simp_all
  ultimately show "sound_rows (s(HoldRow hid \<mapsto> HoldCell acc amount st, AccountRow acc \<mapsto> AccountCell (a\<lparr>bkHeld := bkHeld a - amount\<rparr>)))"
    by (intro hold_sound [OF s a pos]) (simp_all add: h)
qed

lemma withActiveHold_ran:
  assumes "alone (withActiveHold hid k) s = Inr s'"
  obtains acc amount where "s (HoldRow hid) = Some (HoldCell acc amount HoldStatusActive)" "alone (k acc amount) s = Inr s'"
  using assms by (auto simp: withActiveHold_def split: option.splits cell.splits if_splits)

lemma voidProgram_sound:
  assumes run: "alone (voidProgram hid) s = Inr s'" and s: "sound_rows s"
  shows "sound_rows s'"
proof -
  obtain acc amount a where h: "s (HoldRow hid) = Some (HoldCell acc amount HoldStatusActive)"
    and a: "account_at s acc = Some a"
    and s': "s' = s(HoldRow hid \<mapsto> HoldCell acc amount HoldStatusVoided, AccountRow acc \<mapsto>
        AccountCell (a\<lparr>bkHeld := if bkHeld a - amount < 0 then 0 else bkHeld a - amount\<rparr>))"
    using run unfolding voidProgram_def by (elim withActiveHold_ran) (auto split: option.splits)
  note r = release_sound [OF s h a, of HoldStatusVoided]
  show ?thesis using r(1,3) unfolding s' by simp
qed

lemma captureProgram_sound:
  assumes run: "alone (captureProgram hid to) s = Inr s'" and s: "sound_rows s"
  shows "sound_rows s'"
proof -
  obtain acc amount a b where h: "s (HoldRow hid) = Some (HoldCell acc amount HoldStatusActive)"
    and ab: "account_at s acc = Some a" "account_at s to = Some b" "acc \<noteq> to" "bkCurrency a = bkCurrency b"
    and g: "bkPositive b \<or> bkBalance b + amount \<le> 0"
    and s': "s' = s(AccountRow acc \<mapsto> AccountCell (a\<lparr>bkBalance := bkBalance a - amount, bkHeld := bkHeld a - amount\<rparr>),
        AccountRow to \<mapsto> AccountCell (b\<lparr>bkBalance := bkBalance b + amount\<rparr>),
        HoldRow hid \<mapsto> HoldCell acc amount HoldStatusCaptured)"
    using run unfolding captureProgram_def
    by (elim withActiveHold_ran) (auto simp: alone_lockAccountRows not_less split: option.splits if_splits)
  let ?a = "a\<lparr>bkHeld := bkHeld a - amount\<rparr>"
  let ?s1 = "s(HoldRow hid \<mapsto> HoldCell acc amount HoldStatusCaptured, AccountRow acc \<mapsto> AccountCell ?a)"
  note r = release_sound [OF s h ab(1), of HoldStatusCaptured]
  have s1: "sound_rows ?s1" "account_at ?s1 acc = Some ?a" "account_at ?s1 to = Some b"
    using r(1) ab by simp_all
  have "bkNegative ?a \<or> amount \<le> bkBalance ?a - bkHeld ?a"
    using sound_rowsD(3) [OF s ab(1)] by (auto simp: in_limits_def)
  then have "sound_rows (?s1(AccountRow acc \<mapsto> AccountCell (?a\<lparr>bkBalance := bkBalance ?a - amount\<rparr>),
      AccountRow to \<mapsto> AccountCell (b\<lparr>bkBalance := bkBalance b + amount\<rparr>)))"
    by (intro move_sound [OF s1 ab(3)]) (use ab(4) r(2) g in auto)
  also have "?s1(AccountRow acc \<mapsto> AccountCell (?a\<lparr>bkBalance := bkBalance ?a - amount\<rparr>),
      AccountRow to \<mapsto> AccountCell (b\<lparr>bkBalance := bkBalance b + amount\<rparr>)) = s'"
    unfolding s' by (rule ext) simp
  finally show ?thesis .
qed

lemma accountProgram_sound:
  assumes run: "alone (accountProgram i input n) s = Inr s'" and s: "sound_rows s"
  shows "sound_rows s'"
proof -
  let ?b = "book_of (newAccount i input 0)"
  have "s (AccountRow i) = None" "alone (auditRows n CommitTx) (s(AccountRow i \<mapsto> AccountCell ?b)) = Inr s'"
    using run by (auto simp: accountProgram_def split: option.splits if_splits)
  moreover from this(1) have "sound_rows (s(AccountRow i \<mapsto> AccountCell ?b))"
    by (intro open_sound [OF s]) (simp_all add: book_of_def newAccount_def)
  ultimately show ?thesis using auditRows_sound by blast
qed

lemma program_sound: "alone (program_of r) s = Inr s' \<Longrightarrow> sound_rows s \<Longrightarrow> sound_rows s'"
  by (cases r) (auto simp: auditProgram_def simp del: auditRows.simps
      intro: batchProgram_sound holdProgram_sound voidProgram_sound captureProgram_sound accountProgram_sound auditRows_sound)

lemma serial_sound: "serial (map program_of rs) s = Inr s' \<Longrightarrow> sound_rows s \<Longrightarrow> sound_rows s'"
  by (induction rs arbitrary: s) (auto dest: program_sound split: sum.splits)

section \<open>The rows of an intact ledger\<close>

lemma rows_sound:
  assumes inv: "ledger_inv d"
  shows "sound_rows (rows_of d)"
proof -
  have k: "distinct (map accID (accountsT d))" "distinct (map hoID (holdsT d))" and ck: "checks_ok d" and ho: "holds_ok d"
    using inv by (simp_all add: ledger_inv_def keys_ok_def)
  have acc: "accounts_in (rows_of d) = accID ` set (accountsT d)"
    using find_row_None [of accID _ "accountsT d"] by (auto simp: accounts_in_def books_def)
  have hol: "holds_in (rows_of d) = hoID ` set (holdsT d)"
    using find_row_None [of hoID _ "holdsT d"] by (auto simp: holds_in_def)
  let ?cell = "\<lambda>h. HoldCell (hoAccount h) (hoAmount h) (hoStatus h)"
  have res: "reserved (rows_of d) i = active_sum (holdsT d) i" for i
  proof -
    have "reserved (rows_of d) i = sum_list (map (\<lambda>h. due i (map_option ?cell (Some h))) (holdsT d))"
      unfolding reserved_def hol using sum_rows [OF k(2), of "\<lambda>x. due i (map_option ?cell x)"] by simp
    moreover have "due i (map_option ?cell (Some h)) = (if hoAccount h = i \<and> hoStatus h = HoldStatusActive then hoAmount h else 0)"
      for h :: "'a hold"
      by (cases "hoStatus h") simp_all
    ultimately show ?thesis by (simp add: active_sum_def active_holds_def sum_list_map_filter')
  qed
  have fund: "funds (rows_of d) cur = 0" for cur
  proof -
    have "funds (rows_of d) cur = sum_list (map (\<lambda>a. share cur (map_option book_of (Some a))) (accountsT d))"
      unfolding funds_def acc using sum_rows [OF k(1), of "\<lambda>x. share cur (map_option book_of x)"] by (simp add: books_def)
    also have "\<dots> = sum_list (map accBalance (filter (\<lambda>a. accCurrency a = cur) (accountsT d)))"
      by (simp add: book_of_def sum_list_map_filter' cong: if_cong)
    finally show ?thesis using currency_balances_zero [OF inv] by simp
  qed
  have lim: "in_limits b \<and> bkHeld b = reserved (rows_of d) i" if "account_at (rows_of d) i = Some b" for i b
  proof -
    obtain a where a: "find_row accID i (accountsT d) = Some a" "b = book_of a"
      using \<open>account_at (rows_of d) i = Some b\<close> by (auto simp: books_def)
    have "account_check a = None" "accEncumbered a = active_sum (holdsT d) i"
      using find_row_Some [OF a(1)] ck holds_ok_sum [OF ho] by (auto simp: checks_ok_def)
    then show ?thesis using a(2) res by (auto simp: in_limits_def book_of_def account_check_None AvailableBalance_def)
  qed
  have placed: "hold_placed (rows_of d) (rows_of d (HoldRow i))" for i
  proof (cases "find_row hoID i (holdsT d)")
    case (Some h)
    then have "0 < hoAmount h" "hoAccount h \<in> accounts_in (rows_of d)"
      using find_row_Some [OF Some] ho acc by (auto simp: holds_ok_def)
    then show ?thesis using Some by (simp add: accounts_in_def)
  qed simp
  show ?thesis using acc hol fund lim placed by (auto simp: sound_rows_def)
qed

end
