(* ===== verification/ConcurrencyChecks.thy ===== *)
theory ConcurrencyChecks
  imports ConcurrentMoney
begin

text \<open>
  The properties of transactions that run at the same time, each with a concrete schedule: a batch of
  transfers, a hold that waits for it, and the void of a hold there is not.
\<close>

definition demoRequests :: "int request list" where
  "demoRequests = [AskHold ''id2'' 50 ''id14'' 1, AskBatch demoBatch 2, AskVoid ''id99'']"

definition demoStart :: "(row_key, int cell, err) config" where
  "demoStart = start (map program_of demoRequests) (rows_of demoDb2)"

definition demoSchedule :: "nat list" where
  "demoSchedule = [1, 2, 1, 1, 1, 2, 1, 1, 1, 1, 1, 1, 1, 0, 0, 0, 0, 0, 0]"

text \<open>The batch has both accounts locked when the hold asks for one of them: it waits, and commits second.\<close>

lemma demo_schedule:
  "map_option (\<lambda>c. act 0 c = None) (schedule (take 5 demoSchedule) demoStart) = Some True"
  "map_option cfCommits (schedule demoSchedule demoStart) = Some [1, 0]"
  by code_simp+

lemma demo_requests: "list_all admitted demoRequests"
  by code_simp

lemma demo_concurrent:
  obtains c where "schedule demoSchedule demoStart = Some c" "cfCommits c = [1, 0]"
    "moves_to\<^sup>*\<^sup>* (start (map program_of demoRequests) (rows_of (committed demo2))) c"
  using demo_schedule(2) schedule_moves [of demoSchedule demoStart] that
  by (auto simp: demoStart_def demo2_def)

lemma demo_performs: "performs demoHasher demo2 [AskBatch demoBatch 2, AskHold ''id2'' 50 ''id14'' 1] demo4"
proof -
  have "audit_rows (committed demo2) (committed demo3) = 2" by code_simp
  then have "served demoHasher demo2 [AskBatch demoBatch 2] demo3"
    using served_batch [OF demo_hasher demo3_run] by simp
  moreover have "audit_rows (committed demo3) (committed demo4) = 1 \<and> hoID (last (holdsT (committed demo4))) = ''id14''"
    by code_simp
  then have "served demoHasher demo3 [AskHold ''id2'' 50 ''id14'' 1] demo4"
    using served_hold [OF demo_hasher demo4_run] by simp
  ultimately have "performs demoHasher demo2 (([] @ [AskBatch demoBatch 2]) @ [AskHold ''id2'' 50 ''id14'' 1]) demo4"
    by (intro performs_more [OF performs_more [OF performs_none]])
  then show ?thesis by simp
qed

text \<open>C11: Row locking makes the transactions serializable. However the statements of any number of
  transfers, holds, voids, captures, account openings and audit rows interleave, with timeouts and lost
  connections anywhere, the committed rows are those of the committed transactions run one after another
  in the order of their commits; and if the service itself, one operation at a time, commits the same
  transactions in that order, it ends with the same accounts, holds and reversals and the same number of
  audit rows.\<close>

theorem concurrent_is_sequential:
  assumes "list_all admitted rs" and "sys_inv H (committed w0)"
    and run: "moves_to\<^sup>*\<^sup>* (start (map program_of rs) (rows_of (committed w0))) c"
  shows "serial (map (\<lambda>i. program_of (rs ! i)) (cfCommits c)) (rows_of (committed w0)) = Inr (cfRows c) \<and>
    distinct (cfCommits c) \<and>
    set (cfCommits c) = {i. i < length rs \<and> sePhase (cfSessions c ! i) = Committed} \<and>
    (\<forall>w. performs H w0 (map ((!) rs) (cfCommits c)) w \<longrightarrow> cfRows c = rows_of (committed w))"
proof -
  note s = ledger_requests.serializable [OF assms(1) run]
  have "cfRows c = rows_of (committed w)" if "performs H w0 (map ((!) rs) (cfCommits c)) w" for w
    using performs_serial [OF that assms(2)] s(1) by (simp add: comp_def)
  then show ?thesis using s by blast
qed

theorem concurrent_is_sequential_witness:
  "\<exists>c. schedule demoSchedule demoStart = Some c \<and> cfCommits c = [1, 0] \<and> cfRows c = rows_of (committed demo4)"
proof -
  obtain c where c: "schedule demoSchedule demoStart = Some c" "cfCommits c = [1, 0]"
    "moves_to\<^sup>*\<^sup>* (start (map program_of demoRequests) (rows_of (committed demo2))) c" by (rule demo_concurrent)
  have "performs demoHasher demo2 (map ((!) demoRequests) (cfCommits c)) demo4"
    using demo_performs c(2) by (simp add: demoRequests_def)
  then show ?thesis
    using concurrent_is_sequential [OF demo_requests reachable_sys [OF demo_reachable(3)] c(3)] c by blast
qed

text \<open>C12: The service does not deadlock: whatever is in flight, as long as one transaction has not ended
  some session can execute its next statement, and every schedule ends after at most one more statement
  than each request can make. It rests on the order of the locks: a hold before its accounts, accounts in
  the order of their identifiers, the audit chain last.\<close>

theorem transactions_never_deadlock:
  assumes "list_all admitted rs" and run: "(moves_to ^^ n) (start (map program_of rs) s) c"
  shows "n \<le> sum_list (map (\<lambda>r. Suc (statements r)) rs) \<and> (finished c \<or> (\<exists>i c'. act i c = Some c'))"
proof
  show "n \<le> sum_list (map (\<lambda>r. Suc (statements r)) rs)" by (rule ledger_requests.schedules_end [OF assms])
  have "moves_to\<^sup>*\<^sup>* (start (map program_of rs) s) c" using run by (rule relpowp_imp_rtranclp)
  then show "finished c \<or> (\<exists>i c'. act i c = Some c')" using ledger_requests.progress [OF assms(1)] by blast
qed

theorem transactions_never_deadlock_witness:
  "\<exists>c. schedule (take 5 demoSchedule) demoStart = Some c \<and> act 0 c = None \<and> (finished c \<or> (\<exists>i c'. act i c = Some c'))"
proof -
  obtain c where c: "schedule (take 5 demoSchedule) demoStart = Some c" "act 0 c = None"
    using demo_schedule(1) by auto
  obtain n where n: "(moves_to ^^ n) (start (map program_of demoRequests) (rows_of demoDb2)) c"
    using rtranclp_imp_relpowp [OF schedule_moves [OF c(1)]] unfolding demoStart_def by blast
  show ?thesis using c transactions_never_deadlock [OF demo_requests n] by blast
qed

text \<open>C13: Money is as safe under concurrency as it is sequentially: started on an intact ledger, any
  interleaving keeps every account that may not go negative at an available balance of at least zero,
  every account that may not go positive at most at zero, the encumbered amount of every account equal to
  its active holds, and the balances of every currency summing to zero.\<close>

theorem concurrent_money_is_safe:
  assumes "list_all admitted rs" and "ledger_inv d"
    and run: "moves_to\<^sup>*\<^sup>* (start (map program_of rs) (rows_of d)) c"
  shows "(\<forall>i b. account_in (cfRows c (AccountRow i)) = Some b \<longrightarrow>
       (bkNegative b \<or> bkHeld b \<le> bkBalance b) \<and> (bkPositive b \<or> bkBalance b \<le> 0) \<and>
       bkHeld b = reserved (cfRows c) i) \<and> (\<forall>cur. funds (cfRows c) cur = 0)"
proof -
  have "serial (map program_of (map ((!) rs) (cfCommits c))) (rows_of d) = Inr (cfRows c)"
    using ledger_requests.serializable(1) [OF assms(1) run] by (simp add: comp_def)
  from serial_sound [OF this rows_sound [OF assms(2)]] show ?thesis
    unfolding sound_rows_def in_limits_def by blast
qed

theorem concurrent_money_is_safe_witness:
  "\<exists>c. schedule demoSchedule demoStart = Some c \<and> funds (cfRows c) ''USD'' = 0 \<and>
     (\<exists>b. account_in (cfRows c (AccountRow ''id2'')) = Some b \<and> bkHeld b = 50 \<and> bkBalance b = 70)"
proof -
  obtain c where c: "schedule demoSchedule demoStart = Some c"
    "moves_to\<^sup>*\<^sup>* (start (map program_of demoRequests) (rows_of (committed demo2))) c" by (rule demo_concurrent)
  have "map_option (\<lambda>c. map_option (\<lambda>b. (bkHeld b, bkBalance b)) (account_in (cfRows c (AccountRow ''id2''))))
      (schedule demoSchedule demoStart) = Some (Some (50, 70))" by code_simp
  then show ?thesis
    using concurrent_money_is_safe [OF demo_requests sys_ledger [OF reachable_sys [OF demo_reachable(3)]] c(2)] c(1)
    by auto
qed

text \<open>C14: The lock programs are those of the code: every step of the detailed model, success or failure,
  with its rows, events, clock, identifiers, retries and audit, commits a list of these transactions, and
  run alone on the rows of the database before it they produce the rows of the database after it.\<close>

theorem use_cases_run_their_programs:
  assumes "step H w w'" and "sys_inv H (committed w)"
  shows "\<exists>rs. served H w rs w' \<and>
    serial (map program_of rs) (rows_of (committed w)) = Inr (rows_of (committed w'))"
  using step_served [OF assms(1)] served_serial assms(2) by blast

theorem use_cases_run_their_programs_witness:
  "\<exists>rs. served demoHasher demo4 rs demo6 \<and>
    serial (map program_of rs) (rows_of (committed demo4)) = Inr (rows_of (committed demo6))"
  by (rule use_cases_run_their_programs [OF demo_steps(6) reachable_sys [OF demo_reachable(5)]])

end
