(* ===== verification/Users.thy ===== *)
theory Users
  imports Repositories Validation
begin

text \<open>
  Users: the table of migration 000006, the repository \<^verbatim>\<open>user_repo.go\<close> and the use case
  \<^verbatim>\<open>user_usecase.go\<close>. \<^verbatim>\<open>bcrypt\<close> is third-party: its two functions are parameters, the
  hash indexed by the point of the run at which its salt is drawn. So are the clock's
  nanoseconds and the printed time that user identifiers are made of.
\<close>

record user_lib =
  bcryptGenerate :: "nat \<Rightarrow> string \<Rightarrow> err + string"
  bcryptCompare :: "string \<Rightarrow> string \<Rightarrow> bool"
  unixNano :: "int \<Rightarrow> int"
  formatStamp :: "int \<Rightarrow> string"

section \<open>The table\<close>

fun roleText :: "role \<Rightarrow> string" where
  "roleText RoleAdmin = ''admin''"
| "roleText RoleOperator = ''operator''"
| "roleText RoleViewer = ''viewer''"
| "roleText (OtherRole s) = s"

text \<open>\<^verbatim>\<open>VARCHAR(n)\<close> columns refuse longer values; \<^verbatim>\<open>id\<close> and \<^verbatim>\<open>email\<close> are unique.\<close>

definition user_too_long :: "user \<Rightarrow> bool" where
  "user_too_long u \<longleftrightarrow>
     char_count (usID u) > 255 \<or> char_count (usEmail u) > 255 \<or> char_count (usName u) > 255 \<or>
     char_count (usHashedPassword u) > 255 \<or> char_count (roleText (usRole u)) > 50"

definition userRepo_Create :: "env \<Rightarrow> user \<Rightarrow> ('d, unit) act" where
  "userRepo_Create E u = poolStmt E (\<lambda>d.
     if user_too_long u then Inl (PgErr ''22001'' ''users'')
     else if has_row usID (usID u) (usersT d) then Inl (PgErr ''23505'' ''users_pkey'')
     else if has_row usEmail (usEmail u) (usersT d) then Inl (PgErr ''23505'' ''users_email_key'')
     else Inr ((), d\<lparr>usersT := usersT d @ [u]\<rparr>))"

definition userNotFound :: "err \<Rightarrow> err" where
  "userNotFound = noRowsAs (PlainErr ''user not found'')"

definition userRepo_GetByID :: "env \<Rightarrow> string \<Rightarrow> ('d, user) act" where
  "userRepo_GetByID E i =
     translateM userNotFound (poolStmt E (\<lambda>d. one_row (find_row usID i (usersT d)) d))"

definition userRepo_GetByEmail :: "env \<Rightarrow> string \<Rightarrow> ('d, user) act" where
  "userRepo_GetByEmail E email =
     translateM userNotFound (poolStmt E (\<lambda>d. one_row (find_row usEmail email (usersT d)) d))"

text \<open>\<^verbatim>\<open>UPDATE users SET name, hashed_password, role, active, updated_at WHERE id\<close>: no row, no
  error; identifier, email and creation time stay.\<close>

definition set_user :: "user \<Rightarrow> user \<Rightarrow> user" where
  "set_user u row = row\<lparr>usName := usName u, usHashedPassword := usHashedPassword u, usRole := usRole u,
     usActive := usActive u, usUpdatedAt := usUpdatedAt u\<rparr>"

definition userRepo_Update :: "env \<Rightarrow> user \<Rightarrow> ('d, unit) act" where
  "userRepo_Update E u = poolStmt E (\<lambda>d.
     if has_row usID (usID u) (usersT d) \<and> user_too_long u then Inl (PgErr ''22001'' ''users'')
     else Inr ((), d\<lparr>usersT := update_rows usID (usID u) (set_user u) (usersT d)\<rparr>))"

definition userRepo_Delete :: "env \<Rightarrow> string \<Rightarrow> ('d, unit) act" where
  "userRepo_Delete E i = poolStmt E (\<lambda>d. Inr ((), d\<lparr>usersT := filter (\<lambda>u. usID u \<noteq> i) (usersT d)\<rparr>))"

definition userRepo_List :: "env \<Rightarrow> int \<Rightarrow> int \<Rightarrow> ('d, user list) act" where
  "userRepo_List E lim off = poolStmt E (\<lambda>d.
     rows (pg_limit lim off (sort_key (\<lambda>u. - usCreatedAt u) (usersT d))) d)"

section \<open>Passwords and identifiers\<close>

definition hashPassword :: "user_lib \<Rightarrow> string \<Rightarrow> ('d, string) act" where
  "hashPassword U password = (\<lambda>w. (bcryptGenerate U (callCount w) password, w))"

definition verifyPassword :: "user_lib \<Rightarrow> string \<Rightarrow> string \<Rightarrow> bool" where
  "verifyPassword U hashed password = bcryptCompare U hashed password"

definition letters :: string where
  "letters = ''abcdefghijklmnopqrstuvwxyz0123456789''"

text \<open>\<^verbatim>\<open>letters[time.Now().UnixNano() % 36]\<close>, eight clock readings.\<close>

definition randomChar :: "env \<Rightarrow> user_lib \<Rightarrow> ('d, char) act" where
  "randomChar E U = bindM (Now E) (\<lambda>t. returnM (letters ! nat (unixNano U t mod 36)))"

definition randomString :: "env \<Rightarrow> user_lib \<Rightarrow> nat \<Rightarrow> ('d, string) act" where
  "randomString E U n = forM (\<lambda>_. randomChar E U) [0..<n]"

definition generateID :: "env \<Rightarrow> user_lib \<Rightarrow> ('d, string) act" where
  "generateID E U =
     bindM (Now E) (\<lambda>t.
     bindM (randomString E U 8) (\<lambda>s.
     returnM (''user-'' @ formatStamp U t @ ''-'' @ s)))"

section \<open>The use case\<close>

text \<open>\<^verbatim>\<open>x, err := m()\<close> where the caller looks at both.\<close>

definition tryM :: "('e, 's, 'a) go \<Rightarrow> ('e, 's, 'e + 'a) go" where
  "tryM m = (\<lambda>s. case m s of (r, s') \<Rightarrow> (Inr r, s'))"

definition without_hash :: "user \<Rightarrow> user" where
  "without_hash u = u\<lparr>usHashedPassword := []\<rparr>"

record CreateUserInput =
  uiEmail :: string
  uiName :: string
  uiPassword :: string
  uiRole :: role

definition CreateUser :: "env \<Rightarrow> user_lib \<Rightarrow> CreateUserInput \<Rightarrow> ('d, user) act" where
  "CreateUser E U input =
     bindM (checkM (ValidateEmail (uiEmail input))) (\<lambda>_.
     bindM (checkM (ValidatePassword (uiPassword input))) (\<lambda>_.
     bindM (checkM (if \<not> Role_IsValid (uiRole input) then Some (PlainErr ''invalid role'') else None)) (\<lambda>_.
     bindM (tryM (userRepo_GetByEmail E (uiEmail input))) (\<lambda>existing.
     bindM (checkM (case existing of
              Inr _ \<Rightarrow> Some (PlainErr ''user with this email already exists'') | Inl _ \<Rightarrow> None)) (\<lambda>_.
     bindM (hashPassword U (uiPassword input)) (\<lambda>hashedPassword.
     bindM (generateID E U) (\<lambda>i.
     bindM (Now E) (\<lambda>createdAt.
     bindM (Now E) (\<lambda>updatedAt.
     let u = \<lparr>usID = i, usEmail = uiEmail input, usName = uiName input, usHashedPassword = hashedPassword,
              usRole = uiRole input, usCreatedAt = createdAt, usUpdatedAt = updatedAt, usActive = True\<rparr> in
     bindM (userRepo_Create E u) (\<lambda>_.
     returnM (without_hash u)))))))))))"

definition Authenticate :: "env \<Rightarrow> user_lib \<Rightarrow> string \<Rightarrow> string \<Rightarrow> ('d, user) act" where
  "Authenticate E U email password =
     bindM (tryM (userRepo_GetByEmail E email)) (\<lambda>found.
     case found of
       Inl _ \<Rightarrow> raiseM ErrUnauthorized
     | Inr u \<Rightarrow>
         if \<not> usActive u then raiseM (PlainErr ''user account is inactive'')
         else if \<not> verifyPassword U (usHashedPassword u) password then raiseM ErrUnauthorized
         else returnM (without_hash u))"

definition GetUser :: "env \<Rightarrow> string \<Rightarrow> ('d, user) act" where
  "GetUser E i = bindM (userRepo_GetByID E i) (\<lambda>u. returnM (without_hash u))"

record UpdateUserInput =
  uuID :: string
  uuName :: "string option"
  uuRole :: "role option"
  uuActive :: "bool option"
  uuPassword :: "string option"

definition applyName :: "string option \<Rightarrow> user \<Rightarrow> user" where
  "applyName n u = (case n of None \<Rightarrow> u | Some x \<Rightarrow> u\<lparr>usName := x\<rparr>)"

definition applyRole :: "role option \<Rightarrow> user \<Rightarrow> ('d, user) act" where
  "applyRole r u =
     (case r of
        None \<Rightarrow> returnM u
      | Some x \<Rightarrow> if \<not> Role_IsValid x then raiseM (PlainErr ''invalid role'') else returnM (u\<lparr>usRole := x\<rparr>))"

definition applyActive :: "bool option \<Rightarrow> user \<Rightarrow> user" where
  "applyActive b u = (case b of None \<Rightarrow> u | Some x \<Rightarrow> u\<lparr>usActive := x\<rparr>)"

definition applyPassword :: "user_lib \<Rightarrow> string option \<Rightarrow> user \<Rightarrow> ('d, user) act" where
  "applyPassword U p u =
     (case p of
        None \<Rightarrow> returnM u
      | Some x \<Rightarrow>
          bindM (checkM (ValidatePassword x)) (\<lambda>_.
          bindM (hashPassword U x) (\<lambda>hashedPassword.
          returnM (u\<lparr>usHashedPassword := hashedPassword\<rparr>))))"

definition UpdateUser :: "env \<Rightarrow> user_lib \<Rightarrow> UpdateUserInput \<Rightarrow> ('d, user) act" where
  "UpdateUser E U input =
     bindM (userRepo_GetByID E (uuID input)) (\<lambda>u0.
     bindM (applyRole (uuRole input) (applyName (uuName input) u0)) (\<lambda>u1.
     bindM (applyPassword U (uuPassword input) (applyActive (uuActive input) u1)) (\<lambda>u2.
     bindM (Now E) (\<lambda>t.
     let u = u2\<lparr>usUpdatedAt := t\<rparr> in
     bindM (userRepo_Update E u) (\<lambda>_.
     returnM (without_hash u))))))"

definition DeleteUser :: "env \<Rightarrow> string \<Rightarrow> ('d, unit) act" where
  "DeleteUser E i = userRepo_Delete E i"

definition ListUsers :: "env \<Rightarrow> int \<Rightarrow> int \<Rightarrow> ('d, user list) act" where
  "ListUsers E limit offset =
     (case ValidatePagination limit offset of (l, o') \<Rightarrow>
        bindM (userRepo_List E l o') (\<lambda>us. returnM (map without_hash us)))"

section \<open>What the operations do\<close>

lemma tryM_Inr [run_simps]: "tryM m s = (Inr r, s') \<longleftrightarrow> m s = (r, s')"
  by (auto simp: tryM_def split: prod.splits)

lemma tryM_Inl: "tryM m s = (Inl e, s') \<longleftrightarrow> False"
  by (auto simp: tryM_def split: prod.splits)

lemma hashPassword_Inr [run_simps]:
  "hashPassword U p w = (Inr h, w') \<longleftrightarrow> bcryptGenerate U (callCount w) p = Inr h \<and> w' = w"
  by (auto simp: hashPassword_def)

text \<open>Everything but the table of users: what these operations leave alone.\<close>

definition but_users :: "'d db \<Rightarrow> 'd db" where
  "but_users d = d\<lparr>usersT := []\<rparr>"

lemma but_users_update [simp]: "but_users (d\<lparr>usersT := us\<rparr>) = but_users d"
  by (simp add: but_users_def)

text \<open>An operation on users rewrites the table as one of four statements does, or not at all.\<close>

inductive user_change :: "user list \<Rightarrow> user list \<Rightarrow> bool" where
  users_same: "user_change us us"
| user_added: "usID u \<notin> usID ` set us \<Longrightarrow> usEmail u \<notin> usEmail ` set us \<Longrightarrow> Role_IsValid (usRole u) \<Longrightarrow>
    \<not> user_too_long u \<Longrightarrow> user_change us (us @ [u])"
| user_set: "Role_IsValid (usRole u) \<or> usRole u \<in> usRole ` set us \<Longrightarrow>
    user_change us (update_rows usID i (set_user u) us)"
| user_gone: "user_change us (filter (\<lambda>u. usID u \<noteq> i) us)"

inductive_cases user_changeE: "user_change us us'"

definition users_ok :: "'d db \<Rightarrow> bool" where
  "users_ok d \<longleftrightarrow> distinct (map usID (usersT d)) \<and> distinct (map usEmail (usersT d)) \<and>
     list_all (\<lambda>u. Role_IsValid (usRole u)) (usersT d)"

lemma users_ok_empty: "users_ok empty_db"
  by (simp add: users_ok_def empty_db_def)

lemma set_user_keys [simp]: "usID (set_user u r) = usID r" "usEmail (set_user u r) = usEmail r"
  by (simp_all add: set_user_def)

lemma distinct_map_filter_key: "distinct (map f xs) \<Longrightarrow> distinct (map f (filter P xs))"
  by (simp add: distinct_map_filter)

lemma user_change_ok:
  assumes "user_change us us'" and "distinct (map usID us) \<and> distinct (map usEmail us) \<and> list_all (\<lambda>u. Role_IsValid (usRole u)) us"
  shows "distinct (map usID us') \<and> distinct (map usEmail us') \<and> list_all (\<lambda>u. Role_IsValid (usRole u)) us'"
  using assms
proof (cases rule: user_change.cases)
  case (user_set u i)
  have "map usEmail (update_rows usID i (set_user u) us) = map usEmail us"
    by (simp add: update_rows_def)
  moreover have "usRole (set_user u r) = usRole u" for r by (simp add: set_user_def)
  moreover have "Role_IsValid (usRole u)" using assms(2) user_set(2) by (auto simp: list_all_iff)
  ultimately show ?thesis using assms(2) user_set(1)
    by (auto simp: list_all_iff set_update_rows)
qed (auto simp: distinct_map_filter_key list_all_iff)

lemma translate_pool_query:
  "translateM g (poolStmt E (\<lambda>d. one_row (f d) d)) w = (r, w') \<Longrightarrow>
   committed w' = committed w \<and> (\<forall>x. r = Inr x \<longrightarrow> f (committed w) = Some x)"
  by (cases r) (auto simp: translateM_Inr translateM_Inl poolStmt_Inr one_row_Inr dest: poolStmt_Inl)

lemma userRepo_GetByID_reads:
  "userRepo_GetByID E i w = (r, w') \<Longrightarrow>
   committed w' = committed w \<and> (\<forall>u. r = Inr u \<longrightarrow> find_row usID i (usersT (committed w)) = Some u)"
  unfolding userRepo_GetByID_def by (rule translate_pool_query)

lemma userRepo_GetByEmail_reads:
  "userRepo_GetByEmail E email w = (r, w') \<Longrightarrow>
   committed w' = committed w \<and> (\<forall>u. r = Inr u \<longrightarrow> find_row usEmail email (usersT (committed w)) = Some u)"
  unfolding userRepo_GetByEmail_def by (rule translate_pool_query)

text \<open>What an action does to the users, and that it does nothing else.\<close>

definition changes_users :: "user list \<Rightarrow> ('d, 'a) act \<Rightarrow> bool" where
  "changes_users us m \<longleftrightarrow> (\<forall>w. usersT (committed w) = us \<longrightarrow>
     but_users (committed (snd (m w))) = but_users (committed w) \<and>
     user_change us (usersT (committed (snd (m w)))))"

lemma changes_users_keeps: "keeps committed m \<Longrightarrow> changes_users us m"
  by (auto simp: changes_users_def keeps_def users_same)

lemma changes_usersD:
  "changes_users (usersT (committed w)) m \<Longrightarrow> m w = (r, w') \<Longrightarrow>
   but_users (committed w') = but_users (committed w) \<and> user_change (usersT (committed w)) (usersT (committed w'))"
  unfolding changes_users_def by (metis snd_conv)

text \<open>Reads and computations first, one write last.\<close>

lemma changes_users_bind_post:
  fixes m :: "('d, 'a) act"
  assumes "keeps committed m"
    and "\<And>w x w'. usersT (committed w) = us \<Longrightarrow> m w = (Inr x, w') \<Longrightarrow> Q x"
    and "\<And>x. Q x \<Longrightarrow> changes_users us (f x)"
  shows "changes_users us (bindM m f)"
  unfolding changes_users_def
proof (intro allI impI)
  fix w :: "'d world" assume us: "usersT (committed w) = us"
  obtain r v where m: "m w = (r, v)" by fastforce
  then have "committed v = committed w" using keepsD [OF assms(1)] by metis
  then show "but_users (committed (snd (bindM m f w))) = but_users (committed w) \<and>
      user_change us (usersT (committed (snd (bindM m f w))))"
    using m us assms(2) [OF us] assms(3) unfolding changes_users_def
    by (cases r) (simp_all add: bindM_def users_same)
qed

lemma changes_users_bind:
  "keeps committed m \<Longrightarrow> (\<And>x. changes_users us (f x)) \<Longrightarrow> changes_users us (bindM m f)"
  by (rule changes_users_bind_post [where Q = "\<lambda>_. True"]) simp_all

lemma changes_users_return: "changes_users us m \<Longrightarrow> changes_users us (bindM m (\<lambda>x. returnM (f x)))"
  unfolding changes_users_def by (auto simp: bindM_def split: prod.splits sum.splits)

lemma keeps_tryM [frame_intros]: "keeps p m \<Longrightarrow> keeps p (tryM m)"
  by (auto simp: keeps_def tryM_def split: prod.splits) (metis snd_conv)

lemma keeps_userRepo_reads [frame_intros]:
  "keeps committed (userRepo_GetByID E i)" "keeps committed (userRepo_GetByEmail E email)"
  unfolding keeps_def using userRepo_GetByID_reads userRepo_GetByEmail_reads by (metis prod.collapse)+

lemma keeps_userRepo_List [frame_intros]: "keeps committed (userRepo_List E lim off)"
  by (auto simp: keeps_def userRepo_List_def poolStmt_def dbCall_def rows_def Let_def split: option.splits sum.splits)

lemma keeps_hashPassword [frame_intros]: "keeps committed (hashPassword U p)"
  by (simp add: keeps_def hashPassword_def)

lemma keeps_generateID [frame_intros]: "keeps committed (generateID E U)"
  unfolding generateID_def randomString_def randomChar_def by (intro frame_intros)

lemma changes_users_check:
  assumes "c = None \<Longrightarrow> changes_users us (f ())"
  shows "changes_users us (bindM (checkM c) f)"
  using assms by (cases c) (auto simp: changes_users_def bindM_def users_same)

lemma userRepo_Create_changes: "Role_IsValid (usRole u) \<Longrightarrow> changes_users us (userRepo_Create E u)"
  by (auto simp: changes_users_def userRepo_Create_def poolStmt_def dbCall_def Let_def has_row_iff
      intro: users_same user_added split: option.splits)

lemma userRepo_Update_changes:
  "Role_IsValid (usRole u) \<or> usRole u \<in> usRole ` set us \<Longrightarrow> changes_users us (userRepo_Update E u)"
  by (auto simp: changes_users_def userRepo_Update_def poolStmt_def dbCall_def Let_def
      intro!: users_same user_set split: option.splits)

lemma CreateUser_changes: "changes_users us (CreateUser E U input)"
proof -
  have last: "changes_users us (bindM (userRepo_Create E u) (\<lambda>_. returnM (without_hash u)))"
    if "Role_IsValid (usRole u)" for u
    by (rule changes_users_return [OF userRepo_Create_changes [OF that]])
  show ?thesis unfolding CreateUser_def Let_def
    by (intro changes_users_check changes_users_bind frame_intros last) (simp split: if_splits)
qed

lemma UpdateUser_changes: "changes_users us (UpdateUser E U input)"
proof -
  let ?ok = "\<lambda>u :: user. Role_IsValid (usRole u) \<or> usRole u \<in> usRole ` set us"
  have last: "changes_users us (bindM (userRepo_Update E u) (\<lambda>_. returnM (without_hash u)))" if "?ok u" for u
    by (rule changes_users_return [OF userRepo_Update_changes [OF that]])
  have role: "keeps committed (applyRole r u)" "?ok u \<Longrightarrow> applyRole r u w = (Inr v, w') \<Longrightarrow> ?ok v" for r u w v w'
    by (auto simp: applyRole_def run_simps split: option.splits if_splits intro: frame_intros)
  have pass: "keeps committed (applyPassword U p u)" "?ok u \<Longrightarrow> applyPassword U p u w = (Inr v, w') \<Longrightarrow> ?ok v" for p u w v w'
    by (auto simp: applyPassword_def run_simps split: option.splits intro!: frame_intros)
  have pure: "?ok (applyName n u)" "?ok (applyActive a u)" if "?ok u" for n a u
    using that by (auto simp: applyName_def applyActive_def split: option.splits)
  have read: "?ok u" if "userRepo_GetByID E i w = (Inr u, w')" "usersT (committed w) = us" for i w u w'
    using userRepo_GetByID_reads [OF that(1)] that(2) by (auto dest!: find_row_Some)
  show ?thesis unfolding UpdateUser_def Let_def
  proof (rule changes_users_bind_post [where Q = ?ok, OF keeps_userRepo_reads(1) read], assumption+)
    fix u0 assume "?ok u0"
    note u0 = pure(1) [OF this]
    show "changes_users us (bindM (applyRole (uuRole input) (applyName (uuName input) u0)) (\<lambda>u1.
        bindM (applyPassword U (uuPassword input) (applyActive (uuActive input) u1)) (\<lambda>u2.
        bindM (Now E) (\<lambda>t. bindM (userRepo_Update E (u2\<lparr>usUpdatedAt := t\<rparr>)) (\<lambda>_. returnM (without_hash (u2\<lparr>usUpdatedAt := t\<rparr>)))))))"
    proof (rule changes_users_bind_post [where Q = ?ok, OF role(1) role(2) [OF u0]], assumption)
      fix u1 assume "?ok u1"
      note u1 = pure(2) [OF this]
      show "changes_users us (bindM (applyPassword U (uuPassword input) (applyActive (uuActive input) u1)) (\<lambda>u2.
        bindM (Now E) (\<lambda>t. bindM (userRepo_Update E (u2\<lparr>usUpdatedAt := t\<rparr>)) (\<lambda>_. returnM (without_hash (u2\<lparr>usUpdatedAt := t\<rparr>))))))"
      proof (rule changes_users_bind_post [where Q = ?ok, OF pass(1) pass(2) [OF u1]], assumption)
        show "changes_users us (bindM (Now E) (\<lambda>t. bindM (userRepo_Update E (u2\<lparr>usUpdatedAt := t\<rparr>)) (\<lambda>_. returnM (without_hash (u2\<lparr>usUpdatedAt := t\<rparr>)))))"
          if "?ok u2" for u2
          by (intro changes_users_bind frame_intros last) (use that in simp)
      qed
    qed
  qed
qed

lemma DeleteUser_changes: "changes_users us (DeleteUser E i)"
  by (auto simp: changes_users_def DeleteUser_def userRepo_Delete_def poolStmt_def dbCall_def Let_def
      intro: users_same user_gone split: option.splits)

lemma Authenticate_keeps: "keeps committed (Authenticate E U email password)"
  unfolding Authenticate_def
  by (intro frame_intros) (auto simp: keeps_def split: sum.splits)

lemma GetUser_keeps: "keeps committed (GetUser E i)"
  unfolding GetUser_def by (intro frame_intros)

lemma ListUsers_keeps: "keeps committed (ListUsers E lim off)"
  unfolding ListUsers_def by (auto intro!: frame_intros split: prod.splits)

section \<open>What they return\<close>

lemma userRepo_GetByEmail_Inr:
  "userRepo_GetByEmail E email w = (Inr u, w') \<longleftrightarrow>
     envFault E (callCount w) = None \<and> find_row usEmail email (usersT (committed w)) = Some u \<and>
     w' = w\<lparr>callCount := Suc (callCount w)\<rparr>"
  by (auto simp: userRepo_GetByEmail_def run_simps)

lemma case_raise_Inr [run_simps]:
  "(case x of Inl e \<Rightarrow> raiseM (f e) | Inr y \<Rightarrow> g y) s = (Inr r, s') \<longleftrightarrow> (\<exists>y. x = Inr y \<and> g y s = (Inr r, s'))"
  by (cases x) simp_all

lemma if_raise_Inr [run_simps]:
  "(if c then raiseM e else m) s = (Inr r, s') \<longleftrightarrow> \<not> c \<and> m s = (Inr r, s')"
  by simp

lemma Authenticate_Inr:
  "Authenticate E U email password w = (Inr u, w') \<longleftrightarrow>
     envFault E (callCount w) = None \<and>
     (\<exists>r. find_row usEmail email (usersT (committed w)) = Some r \<and> usActive r \<and>
          bcryptCompare U (usHashedPassword r) password \<and> u = without_hash r) \<and>
     w' = w\<lparr>callCount := Suc (callCount w)\<rparr>"
  by (auto simp: Authenticate_def verifyPassword_def run_simps userRepo_GetByEmail_Inr)
    (use userRepo_GetByEmail_Inr in metis)

lemma userRepo_Create_Inr:
  "userRepo_Create E u w = (Inr x, w') \<longleftrightarrow>
     envFault E (callCount w) = None \<and> \<not> user_too_long u \<and> usID u \<notin> usID ` set (usersT (committed w)) \<and>
     usEmail u \<notin> usEmail ` set (usersT (committed w)) \<and>
     w' = w\<lparr>committed := (committed w)\<lparr>usersT := usersT (committed w) @ [u]\<rparr>, callCount := Suc (callCount w)\<rparr>"
  by (auto simp: userRepo_Create_def run_simps has_row_iff split: if_splits)

lemma CreateUser_Inr:
  assumes "CreateUser E U input w = (Inr u, w')"
  shows "\<exists>r n. committed w' = (committed w)\<lparr>usersT := usersT (committed w) @ [r]\<rparr> \<and> u = without_hash r \<and>
     usEmail r = uiEmail input \<and> usName r = uiName input \<and> usRole r = uiRole input \<and> usActive r \<and>
     bcryptGenerate U n (uiPassword input) = Inr (usHashedPassword r) \<and>
     usID r \<notin> usID ` set (usersT (committed w)) \<and> usEmail r \<notin> usEmail ` set (usersT (committed w)) \<and>
     ValidateEmail (uiEmail input) = None \<and> ValidatePassword (uiPassword input) = None \<and> Role_IsValid (uiRole input)"
proof -
  obtain found v1 h i v2 where
    look: "userRepo_GetByEmail E (uiEmail input) w = (found, v1)" and
    hash: "bcryptGenerate U (callCount v1) (uiPassword input) = Inr h" and
    gen: "generateID E U v1 = (Inr i, v2)" and
    made: "userRepo_Create E \<lparr>usID = i, usEmail = uiEmail input, usName = uiName input, usHashedPassword = h,
        usRole = uiRole input, usCreatedAt = envNow E (nowCount v2), usUpdatedAt = envNow E (Suc (nowCount v2)),
        usActive = True\<rparr> (v2\<lparr>nowCount := Suc (Suc (nowCount v2))\<rparr>) = (Inr (), w')" and
    u: "u = without_hash \<lparr>usID = i, usEmail = uiEmail input, usName = uiName input, usHashedPassword = h,
        usRole = uiRole input, usCreatedAt = envNow E (nowCount v2), usUpdatedAt = envNow E (Suc (nowCount v2)),
        usActive = True\<rparr>" and
    ok: "ValidateEmail (uiEmail input) = None" "ValidatePassword (uiPassword input) = None" "Role_IsValid (uiRole input)"
    using assms by (auto simp: CreateUser_def run_simps Let_def split: if_split_asm sum.split_asm) (metis obj_sumE)
  have "committed v2 = committed w"
    using userRepo_GetByEmail_reads [OF look] keepsD [OF keeps_generateID gen] by simp
  then show ?thesis using made hash u ok unfolding userRepo_Create_Inr
    by (intro exI [of _ "\<lparr>usID = i, usEmail = uiEmail input, usName = uiName input, usHashedPassword = h,
        usRole = uiRole input, usCreatedAt = envNow E (nowCount v2), usUpdatedAt = envNow E (Suc (nowCount v2)),
        usActive = True\<rparr>"] exI [of _ "callCount v1"]) auto
qed

end
