(* ===== verification/Errors.thy ===== *)
theory Errors
  imports Domain
begin

text \<open>
  How errors leave the service: HTTP status codes (\<^verbatim>\<open>mapDomainError\<close> in
  \<^verbatim>\<open>http/handler/helpers.go\<close>) and gRPC statuses (\<^verbatim>\<open>MapDomainError\<close> in
  \<^verbatim>\<open>grpc/errors/errors.go\<close>), with the facts on \<^verbatim>\<open>errors.Is\<close> both rest on.
\<close>

text \<open>\<^verbatim>\<open>switch { case errors.Is(err, e1): return r1; \<dots>; default: return r }\<close>\<close>

fun errors_switch :: "(err \<times> 'r) list \<Rightarrow> 'r \<Rightarrow> err \<Rightarrow> 'r" where
  "errors_switch [] r e = r"
| "errors_switch ((t, r') # cases) r e = (if errors_Is e t then r' else errors_switch cases r e)"

section \<open>HTTP\<close>

definition StatusOK :: int where "StatusOK = 200"
definition StatusCreated :: int where "StatusCreated = 201"
definition StatusNoContent :: int where "StatusNoContent = 204"
definition StatusBadRequest :: int where "StatusBadRequest = 400"
definition StatusUnauthorized :: int where "StatusUnauthorized = 401"
definition StatusForbidden :: int where "StatusForbidden = 403"
definition StatusNotFound :: int where "StatusNotFound = 404"
definition StatusConflict :: int where "StatusConflict = 409"
definition StatusTooManyRequests :: int where "StatusTooManyRequests = 429"
definition StatusInternalServerError :: int where "StatusInternalServerError = 500"
definition StatusServiceUnavailable :: int where "StatusServiceUnavailable = 503"

lemmas status_defs =
  StatusOK_def StatusCreated_def StatusNoContent_def StatusBadRequest_def StatusUnauthorized_def
  StatusForbidden_def StatusNotFound_def StatusConflict_def StatusTooManyRequests_def
  StatusInternalServerError_def StatusServiceUnavailable_def

definition mapDomainError :: "err \<Rightarrow> int" where
  "mapDomainError = errors_switch
     [(ErrAccountNotFound, StatusNotFound),
      (ErrTransferNotFound, StatusNotFound),
      (ErrNegativeBalanceNotAllowed, StatusBadRequest),
      (ErrPositiveBalanceNotAllowed, StatusBadRequest),
      (ErrSameAccount, StatusBadRequest),
      (ErrInvalidAmount, StatusBadRequest),
      (ErrCurrencyMismatch, StatusBadRequest)]
     StatusInternalServerError"

section \<open>gRPC\<close>

text \<open>The codes of \<^verbatim>\<open>google.golang.org/grpc/codes\<close> the program uses; \<^verbatim>\<open>status.Error(c, m)\<close> is the
  pair of its code and message.\<close>

datatype grpc_code =
    CodeCanceled
  | CodeInvalidArgument
  | CodeDeadlineExceeded
  | CodeNotFound
  | CodeAlreadyExists
  | CodePermissionDenied
  | CodeFailedPrecondition
  | CodeInternal
  | CodeUnauthenticated

type_synonym grpc_status = "grpc_code \<times> string"

definition MapDomainError :: "err \<Rightarrow> grpc_status" where
  "MapDomainError = errors_switch
     [(ErrAccountNotFound, (CodeNotFound, ''account not found'')),
      (ErrTransferNotFound, (CodeNotFound, ''transfer not found'')),
      (ErrHoldNotFound, (CodeNotFound, ''hold not found'')),
      (ErrInvalidAmount, (CodeInvalidArgument, ''invalid amount: must be positive'')),
      (ErrSameAccount, (CodeInvalidArgument, ''cannot transfer to the same account'')),
      (ErrCurrencyMismatch, (CodeInvalidArgument, ''currency mismatch between accounts'')),
      (ErrNegativeBalanceNotAllowed,
        (CodeFailedPrecondition, ''operation would result in negative balance'')),
      (ErrPositiveBalanceNotAllowed,
        (CodeFailedPrecondition, ''operation would result in positive balance'')),
      (ErrInsufficientFunds, (CodeFailedPrecondition, ''insufficient funds'')),
      (ErrHoldNotActive, (CodeFailedPrecondition, ''hold is not active'')),
      (ErrTransferAlreadyReversed, (CodeFailedPrecondition, ''transfer has already been reversed'')),
      (DeadlineExceeded, (CodeDeadlineExceeded, ''operation timed out'')),
      (Canceled, (CodeCanceled, ''operation was canceled''))]
     (CodeInternal, ''an internal error occurred'')"

section \<open>Wrapping\<close>

text \<open>The error at the bottom of a chain of wraps; \<^verbatim>\<open>errors.Is\<close> against a sentinel looks there.\<close>

fun root_err :: "err \<Rightarrow> err" where
  "root_err (Wrapf e s) = root_err e"
| "root_err (Prefixf s e) = root_err e"
| "root_err e = e"

definition sentinel :: "err \<Rightarrow> bool" where
  "sentinel t \<longleftrightarrow> (case t of Wrapf e s \<Rightarrow> False | Prefixf s e \<Rightarrow> False | _ \<Rightarrow> True)"

lemma errors_Is_root: "sentinel t \<Longrightarrow> errors_Is e t \<longleftrightarrow> root_err e = t"
  by (induction e) (auto simp: sentinel_def split: err.splits)

lemma errors_switch_root:
  "list_all (\<lambda>(t, r). sentinel t) cases \<Longrightarrow>
   errors_switch cases r e = (case map_of cases (root_err e) of None \<Rightarrow> r | Some r' \<Rightarrow> r')"
  by (induction cases) (auto simp: errors_Is_root)

lemma mapDomainError_root:
  "mapDomainError e = (case root_err e of
     ErrAccountNotFound \<Rightarrow> 404 | ErrTransferNotFound \<Rightarrow> 404
   | ErrNegativeBalanceNotAllowed \<Rightarrow> 400 | ErrPositiveBalanceNotAllowed \<Rightarrow> 400
   | ErrSameAccount \<Rightarrow> 400 | ErrInvalidAmount \<Rightarrow> 400 | ErrCurrencyMismatch \<Rightarrow> 400 | _ \<Rightarrow> 500)"
  unfolding mapDomainError_def
  by (subst errors_switch_root) (simp_all add: sentinel_def status_defs split: err.split)

text \<open>The status is a function of the bottom of the chain.\<close>

lemma MapDomainError_root: "MapDomainError e = MapDomainError (root_err e)"
proof -
  have "sentinel (root_err e)" by (induction e) (simp_all add: sentinel_def)
  then have "root_err (root_err e) = root_err e" by (cases "root_err e") (simp_all add: sentinel_def)
  then show ?thesis unfolding MapDomainError_def
    by (subst (1 2) errors_switch_root) (simp_all add: sentinel_def)
qed

lemma MapDomainError_internal:
  "fst (MapDomainError e) = CodeInternal \<longleftrightarrow> snd (MapDomainError e) = ''an internal error occurred''"
  unfolding MapDomainError_def
  by (subst (1 2) errors_switch_root) (simp_all add: sentinel_def)

lemma MapDomainError_code:
  "fst (MapDomainError e) = (case root_err e of
     ErrAccountNotFound \<Rightarrow> CodeNotFound | ErrTransferNotFound \<Rightarrow> CodeNotFound | ErrHoldNotFound \<Rightarrow> CodeNotFound
   | ErrInvalidAmount \<Rightarrow> CodeInvalidArgument | ErrSameAccount \<Rightarrow> CodeInvalidArgument
   | ErrCurrencyMismatch \<Rightarrow> CodeInvalidArgument
   | ErrNegativeBalanceNotAllowed \<Rightarrow> CodeFailedPrecondition
   | ErrPositiveBalanceNotAllowed \<Rightarrow> CodeFailedPrecondition
   | ErrInsufficientFunds \<Rightarrow> CodeFailedPrecondition | ErrHoldNotActive \<Rightarrow> CodeFailedPrecondition
   | ErrTransferAlreadyReversed \<Rightarrow> CodeFailedPrecondition
   | DeadlineExceeded \<Rightarrow> CodeDeadlineExceeded | Canceled \<Rightarrow> CodeCanceled | _ \<Rightarrow> CodeInternal)"
  unfolding MapDomainError_def
  by (subst errors_switch_root) (simp_all add: sentinel_def split: err.split)


end
