(* ===== verification/Server.thy ===== *)
theory Server
  imports Users Errors
begin

text \<open>
  What the two transports share: the state a running server keeps (the database world and the
  Redis store), the requests and responses of HTTP as the handlers see them, gRPC calls, and the
  \<^verbatim>\<open>http.Handler\<close> and \<^verbatim>\<open>grpc.UnaryServerInterceptor\<close> shapes the middleware is written in.

  An HTTP request is given after the third-party middleware in front has run: header names in
  canonical form, the path split at its slashes, the query decoded, the body as the JSON tree
  the lexer of \<^verbatim>\<open>encoding/json\<close> finds (\<open>None\<close>: it finds none), the remote address as
  \<^verbatim>\<open>RealIP\<close> leaves it and the request identifier \<^verbatim>\<open>RequestID\<close> assigns.
\<close>

section \<open>Requests and responses\<close>

datatype json =
    JNull
  | JBool bool
  | JNumber string
  | JString string
  | JArray "json list"
  | JObject "(string \<times> json) list"

record request =
  rqMethod :: string
  rqPath :: "string list"
  rqHeaders :: "(string \<times> string) list"
  rqQuery :: "(string \<times> string) list"
  rqBody :: "json option"
  rqRemoteAddr :: string
  rqRequestID :: string

record response =
  rsStatus :: int
  rsHeaders :: "(string \<times> string) list"
  rsBody :: string

text \<open>\<^verbatim>\<open>Header.Get\<close> and \<^verbatim>\<open>Query().Get\<close>: the first value, or the empty string.\<close>

definition first_value :: "string \<Rightarrow> (string \<times> string) list \<Rightarrow> string" where
  "first_value k kvs = (case map_of kvs k of None \<Rightarrow> [] | Some v \<Rightarrow> v)"

definition Header_Get :: "request \<Rightarrow> string \<Rightarrow> string" where
  "Header_Get rq k = first_value k (rqHeaders rq)"

definition Query_Get :: "request \<Rightarrow> string \<Rightarrow> string" where
  "Query_Get rq k = first_value k (rqQuery rq)"

definition Query_Has :: "request \<Rightarrow> string \<Rightarrow> bool" where
  "Query_Has rq k \<longleftrightarrow> map_of (rqQuery rq) k \<noteq> None"

text \<open>\<^verbatim>\<open>http.Error\<close>\<close>

definition http_Error :: "string \<Rightarrow> int \<Rightarrow> response" where
  "http_Error msg status =
     \<lparr>rsStatus = status,
      rsHeaders = [(''Content-Type'', ''text/plain; charset=utf-8''), (''X-Content-Type-Options'', ''nosniff'')],
      rsBody = msg @ [CHR 0x0A]\<rparr>"

text \<open>A unary gRPC call: the full method name, the incoming metadata if the context has any, the
  request message.\<close>

record 'q grpc_call =
  gcMethod :: string
  gcMetadata :: "(string \<times> string list) list option"
  gcRequest :: 'q

definition MD_Get :: "(string \<times> string list) list \<Rightarrow> string \<Rightarrow> string list" where
  "MD_Get md k = (case map_of md k of None \<Rightarrow> [] | Some vs \<Rightarrow> vs)"

section \<open>The state of a server\<close>

record redis =
  rdStore :: "string \<Rightarrow> string option"
  rdCalls :: nat

record 'd server =
  svWorld :: "'d world"
  svRedis :: redis

text \<open>The outside of Redis: for every command, the failure it meets, if any, and what other clients
  and expiry did to the keys before it; and whether the client library hands out a nil slice for an
  empty value.\<close>

record redis_env =
  rdFault :: "nat \<Rightarrow> err option"
  rdOthers :: "nat \<Rightarrow> (string \<Rightarrow> string option) \<Rightarrow> string \<Rightarrow> string option"
  rdEmptyNil :: bool

type_synonym ('d, 'a) sact = "(err, 'd server, 'a) go"

definition onWorld :: "('d, 'a) act \<Rightarrow> ('d, 'a) sact" where
  "onWorld m s = (case m (svWorld s) of (r, w) \<Rightarrow> (r, s\<lparr>svWorld := w\<rparr>))"

definition onRedis :: "(err, redis, 'a) go \<Rightarrow> ('d, 'a) sact" where
  "onRedis m s = (case m (svRedis s) of (r, d) \<Rightarrow> (r, s\<lparr>svRedis := d\<rparr>))"

type_synonym 'd http_handler = "request \<Rightarrow> context_values \<Rightarrow> 'd server \<Rightarrow> response \<times> 'd server"

type_synonym 'd middleware = "'d http_handler \<Rightarrow> 'd http_handler"

type_synonym ('d, 'q, 'r) grpc_handler =
  "'q grpc_call \<Rightarrow> context_values \<Rightarrow> (grpc_status, 'd server, 'r) go"

type_synonym ('d, 'q, 'r) interceptor = "('d, 'q, 'r) grpc_handler \<Rightarrow> ('d, 'q, 'r) grpc_handler"

text \<open>\<^verbatim>\<open>x, err := m(); if err != nil { \<dots> respond with an error \<dots>; return }; \<dots>\<close>\<close>

definition orRespond ::
  "('d, 'a) sact \<Rightarrow> (err \<Rightarrow> response) \<Rightarrow> ('a \<Rightarrow> 'd server \<Rightarrow> response \<times> 'd server) \<Rightarrow>
   'd server \<Rightarrow> response \<times> 'd server" where
  "orRespond m onErr k s = (case m s of (Inl e, s') \<Rightarrow> (onErr e, s') | (Inr x, s') \<Rightarrow> k x s')"

text \<open>The same where the error becomes a gRPC status.\<close>

definition withStatus :: "(err \<Rightarrow> grpc_status) \<Rightarrow> ('d, 'a) sact \<Rightarrow> (grpc_status, 'd server, 'a) go" where
  "withStatus g m s = (case m s of (Inl e, s') \<Rightarrow> (Inl (g e), s') | (Inr x, s') \<Rightarrow> (Inr x, s'))"

lemma onWorld_run: "onWorld m s = (fst (m (svWorld s)), s\<lparr>svWorld := snd (m (svWorld s))\<rparr>)"
  by (simp add: onWorld_def split: prod.splits)

lemma onRedis_run: "onRedis m s = (fst (m (svRedis s)), s\<lparr>svRedis := snd (m (svRedis s))\<rparr>)"
  by (simp add: onRedis_def split: prod.splits)

lemma onWorld_frame [simp]: "svRedis (snd (onWorld m s)) = svRedis s" "svWorld (snd (onWorld m s)) = snd (m (svWorld s))"
  by (simp_all add: onWorld_run)

lemma onRedis_frame [simp]: "svWorld (snd (onRedis m s)) = svWorld s" "svRedis (snd (onRedis m s)) = snd (m (svRedis s))"
  by (simp_all add: onRedis_run)

end
