(* ===== verification/Dto.thy ===== *)
theory Dto
  imports Server AccountUC HoldUC
begin

text \<open>
  What travels over HTTP: request bodies decoded into the request structs of
  \<^verbatim>\<open>http/dto/request.go\<close> and \<^verbatim>\<open>hold.go\<close> and turned into use case inputs, domain objects turned
  into the response structs of \<^verbatim>\<open>response.go\<close> and \<^verbatim>\<open>hold.go\<close>, query parameters, and the two ways
  of answering (\<^verbatim>\<open>writeJSON\<close>, \<^verbatim>\<open>writeError\<close>).

  Decoding follows \<^verbatim>\<open>encoding/json\<close> on the tree: member names match a field exactly or with
  the case folded, unknown members are skipped, later members win, \<^verbatim>\<open>null\<close> clears a pointer,
  map or slice and leaves anything else alone, objects merge into a map already there and
  array elements decode into the elements already there, and a value of the wrong kind is an
  error. What belongs to other packages is a parameter: the decimal type's parser and printer, the
  RFC 3339 parsers and printer, the text of a non-string metadata value, and the bytes the JSON
  encoder makes of a response tree.
\<close>

section \<open>Parameters\<close>

datatype 'd out =
    OText string
  | OInt int
  | OBool bool
  | OTime int
  | ODecimal 'd
  | OMetadata "(string \<times> any) list"
  | OState "'d audit_state"
  | OList "'d out list"
  | OObject "(string \<times> 'd out) list"

record 'd lib =
  decFromString :: "string \<Rightarrow> 'd option"
  decString :: "'d \<Rightarrow> string"
  parseRFC3339 :: "string \<Rightarrow> int option"
  unmarshalTime :: "string \<Rightarrow> int option"
  formatRFC3339 :: "int \<Rightarrow> string"
  anyText :: "json \<Rightarrow> string option"
  encodeJSON :: "'d out \<Rightarrow> string"

section \<open>Decoding\<close>

text \<open>Case folding of a member name, as far as it can reach a field name of ASCII letters: the two
  letters outside ASCII that fold to one are U+017F and U+212A.\<close>

fun foldName :: "string \<Rightarrow> string" where
  "foldName [] = []"
| "foldName (c # s) =
     (if c = CHR 0xC5 \<and> take 1 s = [CHR 0xBF] then CHR ''s'' # foldName (drop 1 s)
      else if c = CHR 0xE2 \<and> take 2 s = [CHR 0x84, CHR 0xAA] then CHR ''k'' # foldName (drop 2 s)
      else ascii_lower c # foldName s)"

text \<open>An object decodes member by member; \<^verbatim>\<open>null\<close> decodes into a struct as nothing.\<close>

fun decodeMembers :: "(string \<Rightarrow> json \<Rightarrow> 'r \<Rightarrow> 'r option) \<Rightarrow> (string \<times> json) list \<Rightarrow> 'r \<Rightarrow> 'r option" where
  "decodeMembers f [] r = Some r"
| "decodeMembers f ((k, j) # kjs) r =
     (case f (foldName k) j r of None \<Rightarrow> None | Some r' \<Rightarrow> decodeMembers f kjs r')"

definition decodeStruct :: "(string \<Rightarrow> json \<Rightarrow> 'r \<Rightarrow> 'r option) \<Rightarrow> json \<Rightarrow> 'r \<Rightarrow> 'r option" where
  "decodeStruct f j r =
     (case j of JObject kjs \<Rightarrow> decodeMembers f kjs r | JNull \<Rightarrow> Some r | _ \<Rightarrow> None)"

definition decodeString :: "json \<Rightarrow> string \<Rightarrow> string option" where
  "decodeString j old = (case j of JString s \<Rightarrow> Some s | JNull \<Rightarrow> Some old | _ \<Rightarrow> None)"

definition decodeBool :: "json \<Rightarrow> bool \<Rightarrow> bool option" where
  "decodeBool j old = (case j of JBool b \<Rightarrow> Some b | JNull \<Rightarrow> Some old | _ \<Rightarrow> None)"

definition decodeTime :: "'d lib \<Rightarrow> json \<Rightarrow> int option option" where
  "decodeTime L j =
     (case j of JString s \<Rightarrow> map_option Some (unmarshalTime L s) | JNull \<Rightarrow> Some None | _ \<Rightarrow> None)"

definition decodeAny :: "'d lib \<Rightarrow> json \<Rightarrow> any option" where
  "decodeAny L j = (case j of JString s \<Rightarrow> Some (AnyStr s) | _ \<Rightarrow> map_option AnyOther (anyText L j))"

fun decodeEntries :: "'d lib \<Rightarrow> (string \<times> json) list \<Rightarrow> (string \<times> any) list \<Rightarrow> (string \<times> any) list option" where
  "decodeEntries L [] m = Some m"
| "decodeEntries L ((k, j) # kjs) m =
     (case decodeAny L j of None \<Rightarrow> None | Some v \<Rightarrow> decodeEntries L kjs (AList.update k v m))"

definition decodeMetadata :: "'d lib \<Rightarrow> json \<Rightarrow> metadata \<Rightarrow> metadata option" where
  "decodeMetadata L j old =
     (case j of
        JObject kjs \<Rightarrow> map_option Some (decodeEntries L kjs (case old of None \<Rightarrow> [] | Some m \<Rightarrow> m))
      | JNull \<Rightarrow> Some None
      | _ \<Rightarrow> None)"

section \<open>Requests (request.go, hold.go)\<close>

definition decodeCreateAccount :: "json \<Rightarrow> CreateAccountInput \<Rightarrow> CreateAccountInput option" where
  "decodeCreateAccount = decodeStruct (\<lambda>k j r.
     if k = ''name'' then map_option (\<lambda>x. r\<lparr>aiName := x\<rparr>) (decodeString j (aiName r))
     else if k = ''currency'' then map_option (\<lambda>x. r\<lparr>aiCurrency := x\<rparr>) (decodeString j (aiCurrency r))
     else if k = ''allow_negative_balance''
     then map_option (\<lambda>x. r\<lparr>aiAllowNegative := x\<rparr>) (decodeBool j (aiAllowNegative r))
     else if k = ''allow_positive_balance''
     then map_option (\<lambda>x. r\<lparr>aiAllowPositive := x\<rparr>) (decodeBool j (aiAllowPositive r))
     else Some r)"

record CreateTransferRequest =
  ctEventAt :: "int option"
  ctMetadata :: metadata
  ctFrom :: string
  ctTo :: string
  ctAmount :: string

definition decodeCreateTransfer ::
  "'d lib \<Rightarrow> json \<Rightarrow> CreateTransferRequest \<Rightarrow> CreateTransferRequest option" where
  "decodeCreateTransfer L = decodeStruct (\<lambda>k j r.
     if k = ''event_at'' then map_option (\<lambda>x. r\<lparr>ctEventAt := x\<rparr>) (decodeTime L j)
     else if k = ''metadata'' then map_option (\<lambda>x. r\<lparr>ctMetadata := x\<rparr>) (decodeMetadata L j (ctMetadata r))
     else if k = ''from_account_id'' then map_option (\<lambda>x. r\<lparr>ctFrom := x\<rparr>) (decodeString j (ctFrom r))
     else if k = ''to_account_id'' then map_option (\<lambda>x. r\<lparr>ctTo := x\<rparr>) (decodeString j (ctTo r))
     else if k = ''amount'' then map_option (\<lambda>x. r\<lparr>ctAmount := x\<rparr>) (decodeString j (ctAmount r))
     else Some r)"

definition CreateTransferRequest_ToUseCaseInput ::
  "'d lib \<Rightarrow> CreateTransferRequest \<Rightarrow> 'd CreateTransferInput option" where
  "CreateTransferRequest_ToUseCaseInput L r =
     map_option (\<lambda>amount. \<lparr>ciEventAt = ctEventAt r, ciMetadata = ctMetadata r, ciFrom = ctFrom r,
        ciTo = ctTo r, ciAmount = amount, ciReversed = None\<rparr>) (decFromString L (ctAmount r))"

record TransferItem =
  tiFrom :: string
  tiTo :: string
  tiAmount :: string

definition decodeTransferItem :: "json \<Rightarrow> TransferItem \<Rightarrow> TransferItem option" where
  "decodeTransferItem = decodeStruct (\<lambda>k j r.
     if k = ''from_account_id'' then map_option (\<lambda>x. r\<lparr>tiFrom := x\<rparr>) (decodeString j (tiFrom r))
     else if k = ''to_account_id'' then map_option (\<lambda>x. r\<lparr>tiTo := x\<rparr>) (decodeString j (tiTo r))
     else if k = ''amount'' then map_option (\<lambda>x. r\<lparr>tiAmount := x\<rparr>) (decodeString j (tiAmount r))
     else Some r)"

definition zeroItem :: TransferItem where
  "zeroItem = \<lparr>tiFrom = [], tiTo = [], tiAmount = []\<rparr>"

text \<open>The array behind the slice keeps its old elements beyond the new length.\<close>

fun decodeItems :: "json list \<Rightarrow> TransferItem list \<Rightarrow> TransferItem list option" where
  "decodeItems [] olds = Some olds"
| "decodeItems (j # js) olds =
     (case decodeTransferItem j (case olds of [] \<Rightarrow> zeroItem | t # _ \<Rightarrow> t) of
        None \<Rightarrow> None
      | Some t \<Rightarrow> map_option (\<lambda>ts. t # ts) (decodeItems js (drop 1 olds)))"

record CreateBatchTransferRequest =
  cbrEventAt :: "int option"
  cbrMetadata :: metadata
  cbrArray :: "TransferItem list"
  cbrLength :: nat

definition cbrTransfers :: "CreateBatchTransferRequest \<Rightarrow> TransferItem list" where
  "cbrTransfers r = take (cbrLength r) (cbrArray r)"

definition decodeTransfers ::
  "json \<Rightarrow> CreateBatchTransferRequest \<Rightarrow> CreateBatchTransferRequest option" where
  "decodeTransfers j r =
     (case j of
        JArray js \<Rightarrow>
          if js = [] then Some (r\<lparr>cbrArray := [], cbrLength := 0\<rparr>)
          else map_option (\<lambda>ts. r\<lparr>cbrArray := ts, cbrLength := length js\<rparr>) (decodeItems js (cbrArray r))
      | JNull \<Rightarrow> Some (r\<lparr>cbrArray := [], cbrLength := 0\<rparr>)
      | _ \<Rightarrow> None)"

definition decodeCreateBatchTransfer ::
  "'d lib \<Rightarrow> json \<Rightarrow> CreateBatchTransferRequest \<Rightarrow> CreateBatchTransferRequest option" where
  "decodeCreateBatchTransfer L = decodeStruct (\<lambda>k j r.
     if k = ''event_at'' then map_option (\<lambda>x. r\<lparr>cbrEventAt := x\<rparr>) (decodeTime L j)
     else if k = ''metadata'' then map_option (\<lambda>x. r\<lparr>cbrMetadata := x\<rparr>) (decodeMetadata L j (cbrMetadata r))
     else if k = ''transfers'' then decodeTransfers j r
     else Some r)"

fun itemInputs :: "'d lib \<Rightarrow> TransferItem list \<Rightarrow> 'd CreateTransferInput list option" where
  "itemInputs L [] = Some []"
| "itemInputs L (t # ts) =
     (case decFromString L (tiAmount t) of
        None \<Rightarrow> None
      | Some amount \<Rightarrow> map_option (\<lambda>is. \<lparr>ciEventAt = None, ciMetadata = None, ciFrom = tiFrom t,
          ciTo = tiTo t, ciAmount = amount, ciReversed = None\<rparr> # is) (itemInputs L ts))"

definition CreateBatchTransferRequest_ToUseCaseInput ::
  "'d lib \<Rightarrow> CreateBatchTransferRequest \<Rightarrow> 'd CreateBatchTransferInput option" where
  "CreateBatchTransferRequest_ToUseCaseInput L r =
     map_option (\<lambda>is. \<lparr>cbEventAt = cbrEventAt r, cbMetadata = cbrMetadata r, cbTransfers = is\<rparr>)
       (itemInputs L (cbrTransfers r))"

definition decodeReverseTransfer :: "'d lib \<Rightarrow> json \<Rightarrow> metadata \<Rightarrow> metadata option" where
  "decodeReverseTransfer L = decodeStruct (\<lambda>k j r.
     if k = ''metadata'' then decodeMetadata L j r else Some r)"

record CreateHoldRequest =
  chAccountID :: string
  chAmount :: string

definition decodeCreateHold :: "json \<Rightarrow> CreateHoldRequest \<Rightarrow> CreateHoldRequest option" where
  "decodeCreateHold = decodeStruct (\<lambda>k j r.
     if k = ''account_id'' then map_option (\<lambda>x. r\<lparr>chAccountID := x\<rparr>) (decodeString j (chAccountID r))
     else if k = ''amount'' then map_option (\<lambda>x. r\<lparr>chAmount := x\<rparr>) (decodeString j (chAmount r))
     else Some r)"

definition decodeCaptureHold :: "json \<Rightarrow> string \<Rightarrow> string option" where
  "decodeCaptureHold = decodeStruct (\<lambda>k j r. if k = ''to_account_id'' then decodeString j r else Some r)"

record LoginRequest =
  loEmail :: string
  loPassword :: string

definition decodeLogin :: "json \<Rightarrow> LoginRequest \<Rightarrow> LoginRequest option" where
  "decodeLogin = decodeStruct (\<lambda>k j r.
     if k = ''email'' then map_option (\<lambda>x. r\<lparr>loEmail := x\<rparr>) (decodeString j (loEmail r))
     else if k = ''password'' then map_option (\<lambda>x. r\<lparr>loPassword := x\<rparr>) (decodeString j (loPassword r))
     else Some r)"

text \<open>\<^verbatim>\<open>json.NewDecoder(r.Body).Decode(&req)\<close> into the zero value.\<close>

definition decodeBody :: "request \<Rightarrow> (json \<Rightarrow> 'r \<Rightarrow> 'r option) \<Rightarrow> 'r \<Rightarrow> 'r option" where
  "decodeBody rq f zero = (case rqBody rq of None \<Rightarrow> None | Some j \<Rightarrow> f j zero)"

section \<open>Responses (response.go, hold.go)\<close>

text \<open>\<^verbatim>\<open>omitempty\<close>\<close>

definition omitEmpty :: "bool \<Rightarrow> string \<Rightarrow> 'd out \<Rightarrow> (string \<times> 'd out) list" where
  "omitEmpty is_empty k v = (if is_empty then [] else [(k, v)])"

definition outMetadata :: "metadata \<Rightarrow> (string \<times> 'd out) list" where
  "outMetadata m = (case m of None \<Rightarrow> [] | Some kvs \<Rightarrow> omitEmpty (kvs = []) ''metadata'' (OMetadata kvs))"

definition AccountFromDomain :: "'d lib \<Rightarrow> 'd account \<Rightarrow> 'd out" where
  "AccountFromDomain L a = OObject
     [(''created_at'', OTime (accCreatedAt a)),
      (''updated_at'', OTime (accUpdatedAt a)),
      (''id'', OText (accID a)),
      (''name'', OText (accName a)),
      (''currency'', OText (accCurrency a)),
      (''balance'', OText (decString L (accBalance a))),
      (''version'', OInt (accVersion a)),
      (''allow_negative_balance'', OBool (accAllowNegative a)),
      (''allow_positive_balance'', OBool (accAllowPositive a))]"

definition AccountsFromDomain :: "'d lib \<Rightarrow> 'd account list \<Rightarrow> 'd out list" where
  "AccountsFromDomain L as = map (AccountFromDomain L) as"

definition TransferFromDomain :: "'d lib \<Rightarrow> 'd transfer \<Rightarrow> 'd out" where
  "TransferFromDomain L t = OObject
     ([(''created_at'', OTime (trCreatedAt t)),
       (''event_at'', OTime (trEventAt t))] @
      outMetadata (trMetadata t) @
      [(''id'', OText (trID t)),
       (''from_account_id'', OText (trFrom t)),
       (''to_account_id'', OText (trTo t)),
       (''amount'', OText (decString L (trAmount t)))] @
      (case trReversed t of None \<Rightarrow> [] | Some r \<Rightarrow> [(''reversed_transfer_id'', OText r)]))"

definition TransfersFromDomain :: "'d lib \<Rightarrow> 'd transfer list \<Rightarrow> 'd out list" where
  "TransfersFromDomain L ts = map (TransferFromDomain L) ts"

definition EntryFromDomain :: "'d lib \<Rightarrow> 'd entry \<Rightarrow> 'd out" where
  "EntryFromDomain L e = OObject
     [(''created_at'', OTime (enCreatedAt e)),
      (''id'', OText (enID e)),
      (''account_id'', OText (enAccount e)),
      (''transfer_id'', OText (enTransfer e)),
      (''amount'', OText (decString L (enAmount e))),
      (''account_previous_balance'', OText (decString L (enPrevious e))),
      (''account_current_balance'', OText (decString L (enCurrent e))),
      (''account_version'', OInt (enVersion e))]"

definition EntriesFromDomain :: "'d lib \<Rightarrow> 'd entry list \<Rightarrow> 'd out list" where
  "EntriesFromDomain L es = map (EntryFromDomain L) es"

fun holdStatusText :: "hold_status \<Rightarrow> string" where
  "holdStatusText HoldStatusActive = ''active''"
| "holdStatusText HoldStatusVoided = ''voided''"
| "holdStatusText HoldStatusCaptured = ''captured''"

definition HoldFromDomain :: "'d hold \<Rightarrow> 'd out" where
  "HoldFromDomain h = OObject
     ([(''id'', OText (hoID h)),
       (''account_id'', OText (hoAccount h)),
       (''amount'', ODecimal (hoAmount h)),
       (''status'', OText (holdStatusText (hoStatus h)))] @
      (case hoExpiresAt h of None \<Rightarrow> [] | Some t \<Rightarrow> [(''expires_at'', OTime t)]) @
      [(''created_at'', OTime (hoCreatedAt h)),
       (''updated_at'', OTime (hoUpdatedAt h))])"

text \<open>A state is an absent or empty map for no state and for a literal without fields.\<close>

definition outState :: "string \<Rightarrow> 'd audit_state \<Rightarrow> (string \<times> 'd out) list" where
  "outState k st = (case st of NoState \<Rightarrow> [] | StFields [] \<Rightarrow> [] | _ \<Rightarrow> [(k, OState st)])"

definition AuditLogFromDomain :: "hasher \<Rightarrow> 'd audit_log \<Rightarrow> 'd out" where
  "AuditLogFromDomain H a = OObject
     ([(''created_at'', OTime (auCreatedAt a))] @
      outState ''before_state'' (auBefore a) @ outState ''after_state'' (auAfter a) @
      [(''id'', OText (auID a)),
       (''user_id'', OText (auUserID a)),
       (''action'', OText (actionText (auAction a))),
       (''resource_type'', OText (auResourceType a)),
       (''resource_id'', OText (auResourceID a))] @
      omitEmpty (auIPAddress a = []) ''ip_address'' (OText (auIPAddress a)) @
      omitEmpty (auUserAgent a = []) ''user_agent'' (OText (auUserAgent a)) @
      omitEmpty (auRequestID a = []) ''request_id'' (OText (auRequestID a)) @
      [(''status'', OText (statusText (auStatus a)))] @
      omitEmpty (errorMessage H a = []) ''error_message'' (OText (errorMessage H a)) @
      omitEmpty (auPrevHash a = []) ''prev_hash'' (OText (auPrevHash a)) @
      omitEmpty (auHash a = []) ''hash'' (OText (auHash a)) @
      omitEmpty (auChainSeq a = 0) ''chain_seq'' (OInt (auChainSeq a)))"

definition AuditLogsFromDomain :: "hasher \<Rightarrow> 'd audit_log list \<Rightarrow> 'd out list" where
  "AuditLogsFromDomain H ls = map (AuditLogFromDomain H) ls"

section \<open>Answering (helpers.go)\<close>

definition writeJSON :: "'d lib \<Rightarrow> int \<Rightarrow> 'd out \<Rightarrow> response" where
  "writeJSON L status data =
     \<lparr>rsStatus = status, rsHeaders = [(''Content-Type'', ''application/json'')], rsBody = encodeJSON L data\<rparr>"

text \<open>The detail is dropped: only the fixed message leaves the server.\<close>

definition writeError :: "'d lib \<Rightarrow> int \<Rightarrow> string \<Rightarrow> response" where
  "writeError L status message = writeJSON L status (OObject [(''error'', OText message)])"

section \<open>Query parameters\<close>

text \<open>\<^verbatim>\<open>strconv.Atoi\<close>: an optional sign, digits, and 64 bits.\<close>

definition digit_value :: "char \<Rightarrow> int" where
  "digit_value c = of_char c - 48"

definition Atoi :: "string \<Rightarrow> int option" where
  "Atoi s =
     (let signed = (s \<noteq> [] \<and> (hd s = CHR ''-'' \<or> hd s = CHR ''+''));
          ds = (if signed then tl s else s)
      in if ds = [] \<or> \<not> list_all is_digit ds then None
         else let n = foldl (\<lambda>n c. 10 * n + digit_value c) 0 ds;
                  v = (if signed \<and> hd s = CHR ''-'' then - n else n)
              in if - (2 ^ 63) \<le> v \<and> v \<le> max_int64 then Some v else None)"

definition parseIntQuery :: "request \<Rightarrow> string \<Rightarrow> int \<Rightarrow> int" where
  "parseIntQuery rq key defaultValue =
     (let val = Query_Get rq key in
      if val = [] then defaultValue
      else case Atoi val of None \<Rightarrow> defaultValue | Some i \<Rightarrow> i)"

section \<open>CSV\<close>

text \<open>\<^verbatim>\<open>encoding/csv\<close>'s writer with its defaults: a field is quoted when it has a comma, a quote or a
  line break, begins with a space, or is \<^verbatim>\<open>\.\<close>; quotes double.\<close>

definition fieldNeedsQuotes :: "string \<Rightarrow> bool" where
  "fieldNeedsQuotes f \<longleftrightarrow> f \<noteq> [] \<and>
     (f = [CHR 0x5C, CHR ''.''] \<or>
      list_ex (\<lambda>c. c \<in> {CHR '','', CHR 0x22, CHR 0x0A, CHR 0x0D}) f \<or>
      list_ex (HasPrefix f) space_encodings)"

definition csvField :: "string \<Rightarrow> string" where
  "csvField f =
     (if fieldNeedsQuotes f
      then [CHR 0x22] @ concat (map (\<lambda>c. if c = CHR 0x22 then [CHR 0x22, CHR 0x22] else [c]) f) @ [CHR 0x22]
      else f)"

fun csvRecord :: "string list \<Rightarrow> string" where
  "csvRecord [] = [CHR 0x0A]"
| "csvRecord [f] = csvField f @ [CHR 0x0A]"
| "csvRecord (f # fs) = csvField f @ '','' @ csvRecord fs"

end
