(* ===== verification/Access.thy ===== *)
theory Access
  imports Server
begin

text \<open>
  Who may call what: the JWT manager (\<^verbatim>\<open>infrastructure/auth/jwt.go\<close>), the HTTP middleware
  (\<^verbatim>\<open>http/middleware/auth.go\<close>) and the gRPC interceptors (\<^verbatim>\<open>grpc/middleware/auth.go\<close>). Signing and
  parsing of tokens is third-party and a parameter: the parser is given the key function, as
  \<^verbatim>\<open>ParseWithClaims\<close> is, and the instant at which it looks at its clock. Instants count
  microseconds.
\<close>

section \<open>Tokens\<close>

record claims =
  clUserID :: string
  clEmail :: string
  clRole :: role
  clExpiresAt :: "int option"
  clIssuedAt :: "int option"
  clNotBefore :: "int option"

datatype sign_method = HMAC string | OtherMethod string

datatype jwt_err = JwtExpired | JwtInvalid

record jwt_lib =
  jwtSign :: "string \<Rightarrow> claims \<Rightarrow> err + string"
  jwtParse :: "(sign_method \<Rightarrow> err + string) \<Rightarrow> int \<Rightarrow> string \<Rightarrow> jwt_err + claims \<times> bool"
  jwtMethod :: "string \<Rightarrow> sign_method"

record jwt_manager =
  jmSecretKey :: string
  jmTokenDuration :: int

definition NewJWTManager :: "string \<Rightarrow> int \<Rightarrow> jwt_manager" where
  "NewJWTManager secret duration = \<lparr>jmSecretKey = secret, jmTokenDuration = duration\<rparr>"

text \<open>\<^verbatim>\<open>jwt.NewNumericDate\<close> truncates to seconds.\<close>

definition NewNumericDate :: "int \<Rightarrow> int" where
  "NewNumericDate t = t div 1000000 * 1000000"

definition JWT_Generate :: "env \<Rightarrow> jwt_lib \<Rightarrow> jwt_manager \<Rightarrow> user \<Rightarrow> ('d, string) act" where
  "JWT_Generate E J m u =
     bindM (Now E) (\<lambda>t1.
     bindM (Now E) (\<lambda>t2.
     bindM (Now E) (\<lambda>t3.
     let claims = \<lparr>clUserID = usID u, clEmail = usEmail u, clRole = usRole u,
       clExpiresAt = Some (NewNumericDate (t1 + jmTokenDuration m)),
       clIssuedAt = Some (NewNumericDate t2), clNotBefore = Some (NewNumericDate t3)\<rparr>
     in (\<lambda>w. (jwtSign J (jmSecretKey m) claims, w)))))"

text \<open>The key function: only HMAC methods get the key.\<close>

definition keyFunc :: "jwt_manager \<Rightarrow> sign_method \<Rightarrow> err + string" where
  "keyFunc m method =
     (case method of
        HMAC a \<Rightarrow> Inr (jmSecretKey m)
      | OtherMethod a \<Rightarrow> Inl (PlainErr (''unexpected signing method: '' @ a)))"

definition Verify :: "env \<Rightarrow> jwt_lib \<Rightarrow> jwt_manager \<Rightarrow> string \<Rightarrow> ('d, claims) act" where
  "Verify E J m token =
     bindM (Now E) (\<lambda>t.
     case jwtParse J (keyFunc m) t token of
       Inl e \<Rightarrow> raiseM (if e = JwtExpired then ErrExpiredToken else ErrInvalidToken)
     | Inr (claims, valid) \<Rightarrow>
         if \<not> valid then raiseM ErrInvalidToken
         else case clExpiresAt claims of
           None \<Rightarrow> returnM claims
         | Some ex \<Rightarrow>
             bindM (Now E) (\<lambda>now.
             if ex < now then raiseM ErrExpiredToken else returnM claims))"

text \<open>The user a token stands for.\<close>

definition claimsUser :: "claims \<Rightarrow> user" where
  "claimsUser c = \<lparr>usID = clUserID c, usEmail = clEmail c, usName = [], usHashedPassword = [],
     usRole = clRole c, usCreatedAt = 0, usUpdatedAt = 0, usActive = False\<rparr>"

section \<open>HTTP\<close>

text \<open>\<^verbatim>\<open>strings.SplitN(authHeader, " ", 2)\<close> in two parts, the first of them \<^verbatim>\<open>Bearer\<close>.\<close>

definition bearerToken :: "string \<Rightarrow> string option" where
  "bearerToken h =
     (if CHR '' '' \<in> set h \<and> takeWhile (\<lambda>c. c \<noteq> CHR '' '') h = ''Bearer''
      then Some (tl (dropWhile (\<lambda>c. c \<noteq> CHR '' '') h)) else None)"

definition AuthMiddleware :: "env \<Rightarrow> jwt_lib \<Rightarrow> jwt_manager \<Rightarrow> 'd middleware" where
  "AuthMiddleware E J m handler rq ctx s =
     (let authHeader = Header_Get rq ''Authorization'' in
      if authHeader = [] then (http_Error ''missing authorization header'' StatusUnauthorized, s)
      else case bearerToken authHeader of
        None \<Rightarrow> (http_Error ''invalid authorization header format'' StatusUnauthorized, s)
      | Some token \<Rightarrow>
          orRespond (onWorld (Verify E J m token))
            (\<lambda>_. http_Error ''invalid or expired token'' StatusUnauthorized)
            (\<lambda>c. handler rq (ctx\<lparr>cxUser := Some (claimsUser c)\<rparr>)) s)"

definition roleAllows :: "role \<Rightarrow> role \<Rightarrow> bool" where
  "roleAllows minRole r =
     (case minRole of
        RoleAdmin \<Rightarrow> r = RoleAdmin
      | RoleOperator \<Rightarrow> r = RoleAdmin \<or> r = RoleOperator
      | _ \<Rightarrow> True)"

definition RequireRole :: "role \<Rightarrow> 'd middleware" where
  "RequireRole minRole handler rq ctx s =
     (case cxUser ctx of
        None \<Rightarrow> (http_Error ''unauthorized'' StatusUnauthorized, s)
      | Some u \<Rightarrow>
          if roleAllows minRole (usRole u) then handler rq ctx s
          else (http_Error ''insufficient permissions'' StatusForbidden, s))"

definition OptionalAuth :: "env \<Rightarrow> jwt_lib \<Rightarrow> jwt_manager \<Rightarrow> 'd middleware" where
  "OptionalAuth E J m handler rq ctx s =
     (let authHeader = Header_Get rq ''Authorization'' in
      if authHeader = [] then handler rq ctx s
      else case bearerToken authHeader of
        None \<Rightarrow> handler rq ctx s
      | Some token \<Rightarrow>
         (case onWorld (Verify E J m token) s of
            (Inl e, s') \<Rightarrow> handler rq ctx s'
          | (Inr c, s') \<Rightarrow> handler rq (ctx\<lparr>cxUser := Some (claimsUser c)\<rparr>) s'))"

section \<open>gRPC\<close>

definition TrimPrefix :: "string \<Rightarrow> string \<Rightarrow> string" where
  "TrimPrefix s p = (if HasPrefix s p then drop (length p) s else s)"

definition AuthInterceptor :: "env \<Rightarrow> jwt_lib \<Rightarrow> jwt_manager \<Rightarrow> ('d, 'q, 'r) interceptor" where
  "AuthInterceptor E J m handler call ctx s =
     (case gcMetadata call of
        None \<Rightarrow> (Inl (CodeUnauthenticated, ''missing metadata''), s)
      | Some md \<Rightarrow>
         (case MD_Get md ''authorization'' of
            [] \<Rightarrow> (Inl (CodeUnauthenticated, ''missing authorization token''), s)
          | v # _ \<Rightarrow>
             (case onWorld (Verify E J m (TrimPrefix v ''Bearer '')) s of
                (Inl e, s') \<Rightarrow> (Inl (CodeUnauthenticated, ''invalid or expired token''), s')
              | (Inr c, s') \<Rightarrow> handler call (ctx\<lparr>cxGrpcUser := Some (claimsUser c)\<rparr>) s')))"

definition GetUserFromContext :: "context_values \<Rightarrow> user option" where
  "GetUserFromContext ctx = cxGrpcUser ctx"

definition RequireRoleInterceptor :: "role \<Rightarrow> ('d, 'q, 'r) interceptor" where
  "RequireRoleInterceptor minRole handler call ctx s =
     (case GetUserFromContext ctx of
        None \<Rightarrow> (Inl (CodeUnauthenticated, ''unauthorized''), s)
      | Some u \<Rightarrow>
          if roleAllows minRole (usRole u) then handler call ctx s
          else (Inl (CodePermissionDenied, ''insufficient permissions''), s))"

definition MethodRoleInterceptor :: "(string \<times> role) list \<Rightarrow> ('d, 'q, 'r) interceptor" where
  "MethodRoleInterceptor roles handler call =
     RequireRoleInterceptor (case map_of roles (gcMethod call) of None \<Rightarrow> RoleViewer | Some r \<Rightarrow> r)
       handler call"

text \<open>The first interceptor is the outermost.\<close>

definition ChainUnaryServer :: "('d, 'q, 'r) interceptor list \<Rightarrow> ('d, 'q, 'r) interceptor" where
  "ChainUnaryServer interceptors handler = foldr (\<lambda>i chain. i chain) interceptors handler"

definition grpcMethodRoles :: "(string \<times> role) list" where
  "grpcMethodRoles =
     [(''/goledger.v1.AccountService/CreateAccount'', RoleAdmin),
      (''/goledger.v1.TransferService/CreateTransfer'', RoleOperator),
      (''/goledger.v1.TransferService/CreateBatchTransfer'', RoleOperator),
      (''/goledger.v1.TransferService/ReverseTransfer'', RoleOperator),
      (''/goledger.v1.HoldService/HoldFunds'', RoleOperator),
      (''/goledger.v1.HoldService/VoidHold'', RoleOperator),
      (''/goledger.v1.HoldService/CaptureHold'', RoleOperator)]"

section \<open>Facts\<close>

lemma keeps_Verify [frame_intros]: "keeps committed (Verify E J m token)"
  unfolding Verify_def by (intro frame_intros) (auto intro!: frame_intros split: sum.split prod.split option.split)

lemma keeps_JWT_Generate [frame_intros]: "keeps committed (JWT_Generate E J m u)"
  unfolding JWT_Generate_def Let_def by (intro frame_intros) (simp add: keeps_def)

text \<open>What an accepted token is: valid for the library, and not past its expiry at the last look at
  the clock.\<close>

lemma Verify_Inr:
  "Verify E J m token w = (Inr c, w') \<longleftrightarrow>
     jwtParse J (keyFunc m) (envNow E (nowCount w)) token = Inr (c, True) \<and>
     (case clExpiresAt c of
        None \<Rightarrow> w' = w\<lparr>nowCount := Suc (nowCount w)\<rparr>
      | Some ex \<Rightarrow> envNow E (Suc (nowCount w)) \<le> ex \<and> w' = w\<lparr>nowCount := Suc (Suc (nowCount w))\<rparr>)"
  by (auto simp: Verify_def bindM_def Now_def not_less split: sum.splits prod.splits option.splits if_splits)

text \<open>What the documentation of the token library promises and the code relies on: a signed token
  parses to its claims between its not-before and its expiry, and a token whose method the key
  function refuses does not parse.\<close>

definition jwt_documented :: "jwt_lib \<Rightarrow> bool" where
  "jwt_documented J \<longleftrightarrow>
     (\<forall>key c token kf now. jwtSign J key c = Inr token \<longrightarrow> kf (HMAC ''HS256'') = Inr key \<longrightarrow>
        (case clNotBefore c of None \<Rightarrow> True | Some t \<Rightarrow> t \<le> now) \<longrightarrow>
        (case clExpiresAt c of None \<Rightarrow> True | Some t \<Rightarrow> now < t) \<longrightarrow>
        jwtParse J kf now token = Inr (c, True)) \<and>
     (\<forall>kf now token e. kf (jwtMethod J token) = Inl e \<longrightarrow> (\<exists>x. jwtParse J kf now token = Inl x))"

lemma AuthMiddleware_cases:
  obtains (refused) resp s' where "AuthMiddleware E J m h rq ctx s = (resp, s')" "rsStatus resp = StatusUnauthorized"
      "committed (svWorld s') = committed (svWorld s)" "svRedis s' = svRedis s"
    | (passed) token c s' where "bearerToken (Header_Get rq ''Authorization'') = Some token"
      "Verify E J m token (svWorld s) = (Inr c, svWorld s')"
      "AuthMiddleware E J m h rq ctx s = h rq (ctx\<lparr>cxUser := Some (claimsUser c)\<rparr>) s'"
      "committed (svWorld s') = committed (svWorld s)" "svRedis s' = svRedis s"
proof (cases "Header_Get rq ''Authorization'' = [] \<or> bearerToken (Header_Get rq ''Authorization'') = None")
  case True
  then have "\<exists>resp. AuthMiddleware E J m h rq ctx s = (resp, s) \<and> rsStatus resp = StatusUnauthorized"
    by (auto simp: AuthMiddleware_def Let_def http_Error_def)
  then show ?thesis using refused by blast
next
  case False
  then obtain token where t: "bearerToken (Header_Get rq ''Authorization'') = Some token" by auto
  obtain r w where v: "Verify E J m token (svWorld s) = (r, w)" by fastforce
  then have c: "committed w = committed (svWorld s)" using keepsD [OF keeps_Verify] by metis
  show ?thesis
  proof (cases r)
    case (Inl e)
    then show ?thesis using False t v c
      by (intro refused [of "http_Error ''invalid or expired token'' StatusUnauthorized" "s\<lparr>svWorld := w\<rparr>"])
        (auto simp: AuthMiddleware_def Let_def http_Error_def orRespond_def onWorld_def)
  next
    case (Inr x)
    then show ?thesis using False t v c
      by (intro passed [of token x "s\<lparr>svWorld := w\<rparr>"]) (auto simp: AuthMiddleware_def Let_def orRespond_def onWorld_def)
  qed
qed

end
