(* ===== verification/Idempotency.thy ===== *)
theory Idempotency
  imports Server
begin

text \<open>
  Idempotency keys: the Redis store (\<^verbatim>\<open>repository/redis/idempotency.go\<close> and the cache beside it,
  \<^verbatim>\<open>cache.go\<close>), the HTTP middleware (\<^verbatim>\<open>http/middleware/idempotency.go\<close>) and the gRPC interceptor
  (\<^verbatim>\<open>grpc/middleware/idempotency.go\<close>). A key lives for its TTL: expiry is one of the things the
  environment may do to the keys before a command.
\<close>

section \<open>Redis commands\<close>

definition redisCmd :: "redis_env \<Rightarrow> (redis \<Rightarrow> (err + 'a) \<times> redis) \<Rightarrow> (err, redis, 'a) go" where
  "redisCmd R f = (\<lambda>s.
     let s' = s\<lparr>rdStore := rdOthers R (rdCalls s) (rdStore s), rdCalls := Suc (rdCalls s)\<rparr>
     in case rdFault R (rdCalls s) of Some e \<Rightarrow> (Inl e, s') | None \<Rightarrow> f s')"

text \<open>\<^verbatim>\<open>GET\<close>; \<open>None\<close> is \<^verbatim>\<open>redis.Nil\<close>.\<close>

definition redis_Get :: "redis_env \<Rightarrow> string \<Rightarrow> (err, redis, string option) go" where
  "redis_Get R k = redisCmd R (\<lambda>s. (Inr (rdStore s k), s))"

definition redis_Set :: "redis_env \<Rightarrow> string \<Rightarrow> string \<Rightarrow> (err, redis, unit) go" where
  "redis_Set R k v = redisCmd R (\<lambda>s. (Inr (), s\<lparr>rdStore := (rdStore s)(k \<mapsto> v)\<rparr>))"

definition redis_SetNX :: "redis_env \<Rightarrow> string \<Rightarrow> string \<Rightarrow> (err, redis, bool) go" where
  "redis_SetNX R k v = redisCmd R (\<lambda>s.
     if rdStore s k = None then (Inr True, s\<lparr>rdStore := (rdStore s)(k \<mapsto> v)\<rparr>) else (Inr False, s))"

definition redis_Del :: "redis_env \<Rightarrow> string \<Rightarrow> (err, redis, unit) go" where
  "redis_Del R k = redisCmd R (\<lambda>s. (Inr (), s\<lparr>rdStore := (rdStore s)(k := None)\<rparr>))"

text \<open>\<^verbatim>\<open>Bytes()\<close> of a value: \<open>None\<close> is the nil slice.\<close>

definition bytesOf :: "redis_env \<Rightarrow> string \<Rightarrow> string option" where
  "bytesOf R v = (if v = [] \<and> rdEmptyNil R then None else Some v)"

section \<open>The cache\<close>

definition cacheKey :: "string \<Rightarrow> string" where
  "cacheKey key = ''cache:'' @ key"

definition Cache_Get :: "redis_env \<Rightarrow> string \<Rightarrow> (err, redis, string option) go" where
  "Cache_Get R key = redis_Get R (cacheKey key)"

definition Cache_Set :: "redis_env \<Rightarrow> string \<Rightarrow> string \<Rightarrow> (err, redis, unit) go" where
  "Cache_Set R key v = redis_Set R (cacheKey key) v"

definition Cache_SetNX :: "redis_env \<Rightarrow> string \<Rightarrow> string \<Rightarrow> (err, redis, bool) go" where
  "Cache_SetNX R key v = redis_SetNX R (cacheKey key) v"

definition Cache_Delete :: "redis_env \<Rightarrow> string \<Rightarrow> (err, redis, unit) go" where
  "Cache_Delete R key = redis_Del R (cacheKey key)"

section \<open>The idempotency store\<close>

definition idempotencyKey :: "string \<Rightarrow> string" where
  "idempotencyKey key = ''idempotency:'' @ key"

definition processing :: string where
  "processing = ''processing''"

definition CheckAndSet ::
  "redis_env \<Rightarrow> string \<Rightarrow> string option \<Rightarrow> (err, redis, bool \<times> string option) go" where
  "CheckAndSet R key resp =
     (let fullKey = idempotencyKey key in
      bindM (redis_Get R fullKey) (\<lambda>found.
      case found of
        Some existing \<Rightarrow> returnM (True, bytesOf R existing)
      | None \<Rightarrow>
         (case resp of
            Some r \<Rightarrow> bindM (redis_Set R fullKey r) (\<lambda>_. returnM (False, None))
          | None \<Rightarrow>
              bindM (redis_SetNX R fullKey processing) (\<lambda>set.
              if \<not> set
              then bindM (redis_Get R fullKey) (\<lambda>now.
                   returnM (True, bytesOf R (case now of None \<Rightarrow> [] | Some v \<Rightarrow> v)))
              else returnM (False, None)))))"

definition Update :: "redis_env \<Rightarrow> string \<Rightarrow> string \<Rightarrow> (err, redis, unit) go" where
  "Update R key resp = redis_Set R (idempotencyKey key) resp"

section \<open>The HTTP middleware\<close>

definition replayed :: "string \<Rightarrow> response" where
  "replayed cached =
     \<lparr>rsStatus = StatusOK,
      rsHeaders = [(''Content-Type'', ''application/json''), (''X-Idempotency-Replay'', ''true'')],
      rsBody = cached\<rparr>"

text \<open>The recorder around the handler, and the update after it.\<close>

definition recordResponse :: "redis_env \<Rightarrow> string \<Rightarrow> 'd middleware" where
  "recordResponse R key handler rq ctx s =
     (case handler rq ctx s of
        (resp, s') \<Rightarrow>
          if 200 \<le> rsStatus resp \<and> rsStatus resp < 300
          then (resp, snd (onRedis (Update R key (rsBody resp)) s'))
          else (resp, s'))"

definition Wrap :: "redis_env \<Rightarrow> 'd middleware" where
  "Wrap R handler rq ctx s =
     (if rqMethod rq \<noteq> ''POST'' \<and> rqMethod rq \<noteq> ''PUT'' then handler rq ctx s
      else let key = Header_Get rq ''Idempotency-Key'' in
        if key = [] then handler rq ctx s
        else case onRedis (CheckAndSet R key None) s of
          (Inl e, s') \<Rightarrow> (http_Error ''idempotency check failed'' StatusInternalServerError, s')
        | (Inr (found, cached), s') \<Rightarrow>
           (case cached of
              Some b \<Rightarrow>
                if found \<and> b \<noteq> processing then (replayed b, s')
                else recordResponse R key handler rq ctx s'
            | None \<Rightarrow> recordResponse R key handler rq ctx s'))"

section \<open>The gRPC interceptor\<close>

definition readOnlyMethods :: "string list" where
  "readOnlyMethods =
     [''/goledger.v1.AccountService/GetAccount'',
      ''/goledger.v1.AccountService/ListAccounts'',
      ''/goledger.v1.TransferService/GetTransfer'',
      ''/goledger.v1.TransferService/ListTransfersByAccount'',
      ''/goledger.v1.HoldService/ListHoldsByAccount'']"

definition isReadOnlyMethod :: "string \<Rightarrow> bool" where
  "isReadOnlyMethod m \<longleftrightarrow> m \<in> set readOnlyMethods"

text \<open>Requests are protobuf messages; marshalling them is third-party.\<close>

definition hashRequest :: "('q \<Rightarrow> err + string) \<Rightarrow> hasher \<Rightarrow> 'q \<Rightarrow> err + string" where
  "hashRequest marshal H q =
     (case marshal q of Inl e \<Rightarrow> Inl e | Inr data \<Rightarrow> Inr (sha256hex H data))"

definition grpcCacheKey :: "string \<Rightarrow> string \<Rightarrow> string" where
  "grpcCacheKey m key = ''grpc:'' @ m @ '':'' @ key"

text \<open>\<open>store = None\<close> is a nil store.\<close>

definition IdempotencyInterceptor ::
  "redis_env option \<Rightarrow> ('q \<Rightarrow> err + string) \<Rightarrow> ('d, 'q, 'r) interceptor" where
  "IdempotencyInterceptor store hash handler call ctx s =
     (if isReadOnlyMethod (gcMethod call) then handler call ctx s
      else case gcMetadata call of
        None \<Rightarrow> handler call ctx s
      | Some md \<Rightarrow>
       (case MD_Get md ''x-idempotency-key'' of
          [] \<Rightarrow> handler call ctx s
        | key # _ \<Rightarrow>
            if key = [] then (Inl (CodeInvalidArgument, ''idempotency key cannot be empty''), s)
            else case hash (gcRequest call) of
              Inl e \<Rightarrow> (Inl (CodeInternal, ''failed to generate request hash''), s)
            | Inr requestHash \<Rightarrow>
               (case store of
                  None \<Rightarrow> handler call ctx s
                | Some R \<Rightarrow>
                   (case onRedis (CheckAndSet R (grpcCacheKey (gcMethod call) key) (Some requestHash)) s of
                      (Inl e, s') \<Rightarrow> handler call ctx s'
                    | (Inr (found, cached), s') \<Rightarrow>
                        if found
                        then if (case cached of None \<Rightarrow> [] | Some b \<Rightarrow> b) \<noteq> requestHash
                             then (Inl (CodeInvalidArgument,
                                      ''idempotency key reused with different request body''), s')
                             else (Inl (CodeAlreadyExists, ''request already processed (idempotent)''), s')
                        else handler call ctx s'))))"

section \<open>What a key remembers\<close>

text \<open>No expiry and no foreign client touches a key that is set.\<close>

definition key_kept :: "redis_env \<Rightarrow> string \<Rightarrow> bool" where
  "key_kept R k \<longleftrightarrow> (\<forall>n st. st k \<noteq> None \<longrightarrow> rdOthers R n st k = st k)"

text \<open>A command that leaves a key that is set as it is.\<close>

definition keeps_key :: "string \<Rightarrow> (err, redis, 'a) go \<Rightarrow> bool" where
  "keeps_key k m \<longleftrightarrow> (\<forall>s. rdStore s k \<noteq> None \<longrightarrow> rdStore (snd (m s)) k = rdStore s k)"

lemma keeps_key_return: "keeps_key k (returnM x)"
  by (simp add: keeps_key_def)

lemma keeps_key_bind: "keeps_key k m \<Longrightarrow> (\<And>x. keeps_key k (f x)) \<Longrightarrow> keeps_key k (bindM m f)"
  unfolding keeps_key_def bindM_def by (fastforce split: prod.splits sum.splits)

lemma keeps_key_cmd:
  "key_kept R k \<Longrightarrow> (\<And>s. rdStore s k \<noteq> None \<Longrightarrow> rdStore (snd (f s)) k = rdStore s k) \<Longrightarrow>
   keeps_key k (redisCmd R f)"
  by (auto simp: keeps_key_def redisCmd_def key_kept_def Let_def split: option.splits)

lemma keeps_key_Get: "key_kept R k \<Longrightarrow> keeps_key k (redis_Get R j)"
  unfolding redis_Get_def by (rule keeps_key_cmd) simp_all

lemma keeps_key_SetNX: "key_kept R k \<Longrightarrow> keeps_key k (redis_SetNX R j v)"
  unfolding redis_SetNX_def by (rule keeps_key_cmd) auto

lemma keeps_key_Set: "key_kept R k \<Longrightarrow> j \<noteq> k \<Longrightarrow> keeps_key k (redis_Set R j v)"
  unfolding redis_Set_def by (rule keeps_key_cmd) auto

lemmas keeps_key_cmds = keeps_key_return keeps_key_bind keeps_key_Get keeps_key_SetNX keeps_key_Set

text \<open>The store looks before it writes: a key that is set is never overwritten by \<^verbatim>\<open>CheckAndSet\<close>.\<close>

lemma redis_Get_run:
  "redis_Get R k s =
     (let s' = s\<lparr>rdStore := rdOthers R (rdCalls s) (rdStore s), rdCalls := Suc (rdCalls s)\<rparr>
      in case rdFault R (rdCalls s) of Some e \<Rightarrow> (Inl e, s') | None \<Rightarrow> (Inr (rdStore s' k), s'))"
  by (simp add: redis_Get_def redisCmd_def Let_def split: option.splits)

lemma CheckAndSet_set:
  assumes "key_kept R (idempotencyKey key)" and "rdStore s (idempotencyKey key) = Some v"
  shows "CheckAndSet R key resp s =
    (case rdFault R (rdCalls s) of Some e \<Rightarrow> Inl e | None \<Rightarrow> Inr (True, bytesOf R v),
     s\<lparr>rdStore := rdOthers R (rdCalls s) (rdStore s), rdCalls := Suc (rdCalls s)\<rparr>)"
  using assms by (simp add: CheckAndSet_def bindM_def redis_Get_run key_kept_def Let_def split: option.splits)

lemma CheckAndSet_keeps:
  assumes "key_kept R k"
  shows "keeps_key k (CheckAndSet R key resp)"
proof (cases "idempotencyKey key = k")
  case True
  then show ?thesis using assms CheckAndSet_set [of R key]
    by (auto simp: keeps_key_def key_kept_def split: option.splits)
next
  case False
  then show ?thesis using assms unfolding CheckAndSet_def Let_def
    by (intro keeps_key_cmds) (auto intro!: keeps_key_cmds split: option.splits)
qed

lemma CheckAndSet_claims:
  assumes "CheckAndSet R key (Some r) s = (Inr (False, c), s')"
  shows "rdStore s' (idempotencyKey key) = Some r"
  using assms
  by (auto simp: CheckAndSet_def run_simps redis_Set_def redisCmd_def Let_def split: option.splits)

lemma CheckAndSet_nil:
  assumes "CheckAndSet R key None s = (Inr (False, c), s')"
  shows "rdStore s' (idempotencyKey key) = Some processing"
  using assms
  by (auto simp: CheckAndSet_def run_simps redis_SetNX_def redisCmd_def Let_def split: option.splits if_splits)

lemma Update_keeps: "key_kept R k \<Longrightarrow> idempotencyKey key \<noteq> k \<Longrightarrow> keeps_key k (Update R key b)"
  unfolding Update_def by (rule keeps_key_Set)

lemma Update_sets:
  "rdFault R (rdCalls s) = None \<Longrightarrow> rdStore (snd (Update R key b s)) (idempotencyKey key) = Some b"
  by (simp add: Update_def redis_Set_def redisCmd_def Let_def)

section \<open>What the middleware does with a key that is set\<close>

text \<open>A handler below the middleware does not speak to Redis.\<close>

definition no_redis :: "('q \<Rightarrow> context_values \<Rightarrow> 'd server \<Rightarrow> 'r \<times> 'd server) \<Rightarrow> bool" where
  "no_redis h \<longleftrightarrow> (\<forall>rq ctx s. svRedis (snd (h rq ctx s)) = svRedis s)"

definition answered :: "redis_env \<Rightarrow> string \<Rightarrow> string \<Rightarrow> 'd server \<Rightarrow> bool" where
  "answered R key b s \<longleftrightarrow> key_kept R (idempotencyKey key) \<and>
     rdStore (svRedis s) (idempotencyKey key) = Some b \<and> b \<noteq> [] \<and> b \<noteq> processing"

definition keyed :: "string \<Rightarrow> request \<Rightarrow> bool" where
  "keyed key rq \<longleftrightarrow> rqMethod rq \<in> {''POST'', ''PUT''} \<and> key \<noteq> [] \<and> Header_Get rq ''Idempotency-Key'' = key"

lemma Wrap_replays:
  assumes "answered R key b s" and "keyed key rq" and "rdFault R (rdCalls (svRedis s)) = None"
  shows "fst (Wrap R h rq ctx s) = replayed b" and "svWorld (snd (Wrap R h rq ctx s)) = svWorld s"
  using assms CheckAndSet_set [of R key "svRedis s" b None]
  by (auto simp: Wrap_def Let_def keyed_def answered_def onRedis_run bytesOf_def)

lemma Wrap_keyed_fault:
  assumes "answered R key b s" and "keyed key rq"
  shows "svWorld (snd (Wrap R h rq ctx s)) = svWorld s \<and>
    rdStore (svRedis (snd (Wrap R h rq ctx s))) (idempotencyKey key) = Some b"
proof -
  have k: "rdOthers R n st (idempotencyKey key) = Some b" if "st (idempotencyKey key) = Some b" for n st
    using assms(1) that by (simp add: answered_def key_kept_def)
  show ?thesis
    using assms CheckAndSet_set [of R key "svRedis s" b None] k
    by (cases "rdFault R (rdCalls (svRedis s))")
      (auto simp: Wrap_def Let_def keyed_def answered_def onRedis_run bytesOf_def)
qed

lemma recordResponse_keeps:
  assumes "key_kept R k" and "idempotencyKey j \<noteq> k" and "no_redis h" and "rdStore (svRedis s) k = Some b"
  shows "rdStore (svRedis (snd (recordResponse R j h rq ctx s))) k = Some b"
proof -
  obtain resp s' where run: "h rq ctx s = (resp, s')" by fastforce
  have "svRedis s' = svRedis s" using assms(3) run by (metis no_redis_def snd_conv)
  then show ?thesis
    using Update_keeps [OF assms(1,2), of "rsBody resp"] assms(4) by (simp add: recordResponse_def run keeps_key_def)
qed

text \<open>Requests below the middleware leave an answered key answered, whatever they are.\<close>

lemma Wrap_answered:
  assumes a: "answered R key b s" and h: "no_redis h"
  shows "answered R key b (snd (Wrap R h rq ctx s))"
proof -
  let ?k = "idempotencyKey key" and ?j = "Header_Get rq ''Idempotency-Key''"
  have kept: "key_kept R ?k" and set: "rdStore (svRedis s) ?k = Some b" using a by (simp_all add: answered_def)
  have red: "rdStore (svRedis (snd (h rq ctx s))) ?k = Some b" using h set by (simp add: no_redis_def)
  obtain r s1 where chk: "onRedis (CheckAndSet R ?j None) s = (r, s1)" by fastforce
  then have s1: "rdStore (svRedis s1) ?k = Some b"
    using CheckAndSet_keeps [OF kept, of ?j None] set by (auto simp: keeps_key_def onRedis_run)
  have "rdStore (svRedis (snd (Wrap R h rq ctx s))) ?k = Some b"
  proof (cases "keyed key rq")
    case True
    then show ?thesis using Wrap_keyed_fault [OF a] by blast
  next
    case False
    show ?thesis
    proof (cases "rqMethod rq \<in> {''POST'', ''PUT''} \<and> ?j \<noteq> []")
      case plain: False
      then have "Wrap R h rq ctx s = h rq ctx s" by (auto simp: Wrap_def Let_def)
      then show ?thesis using red by simp
    next
      case True
      then have "?j \<noteq> key" using False by (auto simp: keyed_def)
      then have "rdStore (svRedis (snd (recordResponse R ?j h rq ctx s1))) ?k = Some b"
        by (intro recordResponse_keeps [OF kept _ h s1]) (simp add: idempotencyKey_def)
      then show ?thesis
        using True chk s1 by (cases r) (auto simp: Wrap_def Let_def split: option.split)
    qed
  qed
  then show ?thesis using a by (simp add: answered_def)
qed

section \<open>The interceptor and a claimed key\<close>

definition grpc_keyed :: "string \<Rightarrow> string \<Rightarrow> 'q grpc_call \<Rightarrow> bool" where
  "grpc_keyed m key call \<longleftrightarrow> gcMethod call = m \<and> \<not> isReadOnlyMethod m \<and> key \<noteq> [] \<and>
     (\<exists>md ks. gcMetadata call = Some md \<and> MD_Get md ''x-idempotency-key'' = key # ks)"

definition claimed :: "redis_env \<Rightarrow> string \<Rightarrow> 'd server \<Rightarrow> bool" where
  "claimed R k s \<longleftrightarrow> key_kept R (idempotencyKey k) \<and> rdStore (svRedis s) (idempotencyKey k) \<noteq> None"

lemma interceptor_refuses:
  assumes "claimed R (grpcCacheKey m key) s" and "grpc_keyed m key call" and "rdFault R (rdCalls (svRedis s)) = None"
  shows "\<exists>e. fst (IdempotencyInterceptor (Some R) hash h call ctx s) = Inl e \<and>
      (\<forall>g. hash (gcRequest call) = Inr g \<longrightarrow> fst e \<in> {CodeAlreadyExists, CodeInvalidArgument})"
    and "svWorld (snd (IdempotencyInterceptor (Some R) hash h call ctx s)) = svWorld s"
proof -
  obtain v where v: "rdStore (svRedis s) (idempotencyKey (grpcCacheKey m key)) = Some v"
    and kept: "key_kept R (idempotencyKey (grpcCacheKey m key))" using assms(1) by (auto simp: claimed_def)
  obtain md ks where md: "gcMetadata call = Some md" "MD_Get md ''x-idempotency-key'' = key # ks"
    using assms(2) by (auto simp: grpc_keyed_def)
  have k: "gcMethod call = m" "\<not> isReadOnlyMethod m" "key \<noteq> []" using assms(2) by (simp_all add: grpc_keyed_def)
  show "\<exists>e. fst (IdempotencyInterceptor (Some R) hash h call ctx s) = Inl e \<and>
      (\<forall>g. hash (gcRequest call) = Inr g \<longrightarrow> fst e \<in> {CodeAlreadyExists, CodeInvalidArgument})"
    and "svWorld (snd (IdempotencyInterceptor (Some R) hash h call ctx s)) = svWorld s"
    using CheckAndSet_set [OF kept v] assms(3) md k
    by (auto simp: IdempotencyInterceptor_def onRedis_run split: sum.split)
qed

lemma interceptor_claims:
  assumes "grpc_keyed m key call" and "hash (gcRequest call) = Inr g"
    and "onRedis (CheckAndSet R (grpcCacheKey m key) (Some g)) s = (Inr (False, c), s1)"
  shows "IdempotencyInterceptor (Some R) hash h call ctx s = h call ctx s1"
    and "rdStore (svRedis s1) (idempotencyKey (grpcCacheKey m key)) = Some g"
proof -
  show "IdempotencyInterceptor (Some R) hash h call ctx s = h call ctx s1"
    using assms by (auto simp: IdempotencyInterceptor_def grpc_keyed_def)
  have "CheckAndSet R (grpcCacheKey m key) (Some g) (svRedis s) = (Inr (False, c), svRedis s1)"
    using assms(3) by (auto simp: onRedis_def split: prod.splits)
  then show "rdStore (svRedis s1) (idempotencyKey (grpcCacheKey m key)) = Some g" by (rule CheckAndSet_claims)
qed

text \<open>What a request may do to Redis below the interceptor: nothing; the interceptor itself only claims.\<close>

lemma interceptor_keeps:
  assumes "key_kept R k" and "rdStore (svRedis s) k \<noteq> None"
    and "\<And>s'. svRedis (snd (h call ctx s')) = svRedis s'"
  shows "rdStore (svRedis (snd (IdempotencyInterceptor (Some R) hash h call ctx s))) k = rdStore (svRedis s) k"
proof -
  have chk: "rdStore (snd (CheckAndSet R j r (svRedis s))) k = rdStore (svRedis s) k" for j r
    using CheckAndSet_keeps [OF assms(1)] assms(2) by (simp add: keeps_key_def)
  show ?thesis
    using chk assms(3) unfolding IdempotencyInterceptor_def
    by (simp add: onRedis_run split: option.split list.split sum.split prod.split)
qed

end
