(* ===== verification/Http.thy ===== *)
theory Http
  imports Dto Access Idempotency
begin

text \<open>
  The HTTP API: the handlers of \<^verbatim>\<open>http/handler\<close>, one definition each with every branch that
  answers, and what a server is built with: the environment, the libraries and the two answers that come from them,
  to a path without a route and for the metrics page.
\<close>

section \<open>What the server is built with\<close>

record 'd deps =
  dpEnv :: env
  dpRetrier :: retrier_impl
  dpLib :: "'d lib"
  dpUsers :: user_lib
  dpJwt :: jwt_lib
  dpManager :: jwt_manager
  dpRedis :: redis_env
  dpAuthEnabled :: bool
  dpMiss :: "request \<Rightarrow> response"
  dpMetrics :: response

section \<open>Accounts (account_handler.go)\<close>

definition AccountHandler_Create :: "'d::linordered_idom deps \<Rightarrow> 'd http_handler" where
  "AccountHandler_Create D rq ctx s =
     (case decodeBody rq decodeCreateAccount
             \<lparr>aiName = [], aiCurrency = [], aiAllowNegative = False, aiAllowPositive = False\<rparr> of
        None \<Rightarrow> (writeError (dpLib D) StatusBadRequest ''invalid request body'', s)
      | Some input \<Rightarrow>
          orRespond (onWorld (CreateAccount (dpEnv D) ctx input))
            (\<lambda>e. writeError (dpLib D) StatusInternalServerError ''failed to create account'')
            (\<lambda>a s. (writeJSON (dpLib D) StatusCreated (AccountFromDomain (dpLib D) a), s)) s)"

definition AccountHandler_Get :: "'d deps \<Rightarrow> string \<Rightarrow> 'd http_handler" where
  "AccountHandler_Get D i rq ctx s =
     (if i = [] then (writeError (dpLib D) StatusBadRequest ''missing account ID'', s)
      else orRespond (onWorld (GetAccount (dpEnv D) i))
        (\<lambda>e. writeError (dpLib D) (mapDomainError e) ''failed to get account'')
        (\<lambda>a s. (writeJSON (dpLib D) StatusOK (AccountFromDomain (dpLib D) a), s)) s)"

definition AccountHandler_List :: "'d deps \<Rightarrow> 'd http_handler" where
  "AccountHandler_List D rq ctx s =
     orRespond (onWorld (ListAccounts (dpEnv D) (parseIntQuery rq ''limit'' 20) (parseIntQuery rq ''offset'' 0)))
       (\<lambda>e. writeError (dpLib D) StatusInternalServerError ''failed to list accounts'')
       (\<lambda>as s. (writeJSON (dpLib D) StatusOK (OObject
          [(''accounts'', OList (AccountsFromDomain (dpLib D) as)),
           (''total'', OInt (int (length as)))]), s)) s"

section \<open>Transfers (transfer_handler.go)\<close>

definition TransferHandler_Create :: "'d::linordered_idom deps \<Rightarrow> 'd http_handler" where
  "TransferHandler_Create D rq ctx s =
     (case decodeBody rq (decodeCreateTransfer (dpLib D))
             \<lparr>ctEventAt = None, ctMetadata = None, ctFrom = [], ctTo = [], ctAmount = []\<rparr> of
        None \<Rightarrow> (writeError (dpLib D) StatusBadRequest ''invalid request body'', s)
      | Some req \<Rightarrow>
         (case CreateTransferRequest_ToUseCaseInput (dpLib D) req of
            None \<Rightarrow> (writeError (dpLib D) StatusBadRequest ''invalid amount'', s)
          | Some input \<Rightarrow>
              orRespond (onWorld (CreateTransfer (dpEnv D) (dpRetrier D) ctx input))
                (\<lambda>e. writeError (dpLib D) (mapDomainError e) ''failed to create transfer'')
                (\<lambda>t s. (writeJSON (dpLib D) StatusCreated (TransferFromDomain (dpLib D) t), s)) s))"

definition TransferHandler_CreateBatch :: "'d::linordered_idom deps \<Rightarrow> 'd http_handler" where
  "TransferHandler_CreateBatch D rq ctx s =
     (case decodeBody rq (decodeCreateBatchTransfer (dpLib D))
             \<lparr>cbrEventAt = None, cbrMetadata = None, cbrArray = [], cbrLength = 0\<rparr> of
        None \<Rightarrow> (writeError (dpLib D) StatusBadRequest ''invalid request body'', s)
      | Some req \<Rightarrow>
         (case CreateBatchTransferRequest_ToUseCaseInput (dpLib D) req of
            None \<Rightarrow> (writeError (dpLib D) StatusBadRequest ''invalid amount'', s)
          | Some input \<Rightarrow>
              orRespond (onWorld (CreateBatchTransfer (dpEnv D) (dpRetrier D) ctx input))
                (\<lambda>e. writeError (dpLib D) (mapDomainError e) ''failed to create transfers'')
                (\<lambda>ts s. (writeJSON (dpLib D) StatusCreated (OList (TransfersFromDomain (dpLib D) ts)), s)) s))"

definition TransferHandler_Get :: "'d deps \<Rightarrow> string \<Rightarrow> 'd http_handler" where
  "TransferHandler_Get D i rq ctx s =
     (if i = [] then (writeError (dpLib D) StatusBadRequest ''missing transfer ID'', s)
      else orRespond (onWorld (GetTransfer (dpEnv D) i))
        (\<lambda>e. writeError (dpLib D) (mapDomainError e) ''failed to get transfer'')
        (\<lambda>t s. (writeJSON (dpLib D) StatusOK (TransferFromDomain (dpLib D) t), s)) s)"

text \<open>\<^verbatim>\<open>next_cursor\<close> comes first in the struct and is left out when empty.\<close>

definition cursorPage :: "'d lib \<Rightarrow> 'd transfer list \<times> string \<Rightarrow> 'd out" where
  "cursorPage L result =
     (case result of (ts, nextCursor) \<Rightarrow> OObject
        (omitEmpty (nextCursor = []) ''next_cursor'' (OText nextCursor) @
         [(''transfers'', OList (TransfersFromDomain L ts))]))"

definition TransferHandler_ListByAccount :: "'d deps \<Rightarrow> string \<Rightarrow> 'd http_handler" where
  "TransferHandler_ListByAccount D acc rq ctx s =
     (if acc = [] then (writeError (dpLib D) StatusBadRequest ''missing account ID'', s)
      else let limit = parseIntQuery rq ''limit'' 20; cursor = Query_Get rq ''cursor'' in
        if cursor \<noteq> [] \<or> Query_Has rq ''cursor''
        then orRespond (onWorld (ListTransfersByAccountCursor (dpEnv D) acc cursor limit))
          (\<lambda>e. writeError (dpLib D) StatusInternalServerError ''failed to list transfers'')
          (\<lambda>result s. (writeJSON (dpLib D) StatusOK (cursorPage (dpLib D) result), s)) s
        else orRespond (onWorld (ListTransfersByAccount (dpEnv D) acc limit (parseIntQuery rq ''offset'' 0)))
          (\<lambda>e. writeError (dpLib D) StatusInternalServerError ''failed to list transfers'')
          (\<lambda>ts s. (writeJSON (dpLib D) StatusOK (OList (TransfersFromDomain (dpLib D) ts)), s)) s)"

definition TransferHandler_Reverse :: "'d::linordered_idom deps \<Rightarrow> string \<Rightarrow> 'd http_handler" where
  "TransferHandler_Reverse D i rq ctx s =
     (if i = [] then (writeError (dpLib D) StatusBadRequest ''missing transfer ID'', s)
      else case decodeBody rq (decodeReverseTransfer (dpLib D)) None of
        None \<Rightarrow> (writeError (dpLib D) StatusBadRequest ''invalid request body'', s)
      | Some md \<Rightarrow>
          orRespond (onWorld (ReverseTransfer (dpEnv D) (dpRetrier D) ctx i md))
            (\<lambda>e. writeError (dpLib D) (mapDomainError e) ''failed to reverse transfer'')
            (\<lambda>t s. (writeJSON (dpLib D) StatusCreated (TransferFromDomain (dpLib D) t), s)) s)"

section \<open>Holds (hold_handler.go)\<close>

definition HoldHandler_Create :: "'d::linordered_idom deps \<Rightarrow> 'd http_handler" where
  "HoldHandler_Create D rq ctx s =
     (case decodeBody rq decodeCreateHold \<lparr>chAccountID = [], chAmount = []\<rparr> of
        None \<Rightarrow> (writeError (dpLib D) StatusBadRequest ''invalid request body'', s)
      | Some req \<Rightarrow>
         (case decFromString (dpLib D) (chAmount req) of
            None \<Rightarrow> (writeError (dpLib D) StatusBadRequest ''invalid amount'', s)
          | Some amount \<Rightarrow>
              orRespond (onWorld (HoldFunds (dpEnv D) ctx (chAccountID req) amount))
                (\<lambda>e. writeError (dpLib D) (mapDomainError e) ''failed to create hold'')
                (\<lambda>h s. (writeJSON (dpLib D) StatusCreated (HoldFromDomain h), s)) s))"

definition HoldHandler_Void :: "'d::linordered_idom deps \<Rightarrow> string \<Rightarrow> 'd http_handler" where
  "HoldHandler_Void D i rq ctx s =
     (if i = [] then (writeError (dpLib D) StatusBadRequest ''missing hold id'', s)
      else orRespond (onWorld (VoidHold (dpEnv D) ctx i))
        (\<lambda>e. writeError (dpLib D) (mapDomainError e) ''failed to void hold'')
        (\<lambda>_ s. (\<lparr>rsStatus = StatusNoContent, rsHeaders = [], rsBody = []\<rparr>, s)) s)"

definition HoldHandler_Capture :: "'d::linordered_idom deps \<Rightarrow> string \<Rightarrow> 'd http_handler" where
  "HoldHandler_Capture D i rq ctx s =
     (if i = [] then (writeError (dpLib D) StatusBadRequest ''missing hold id'', s)
      else case decodeBody rq decodeCaptureHold [] of
        None \<Rightarrow> (writeError (dpLib D) StatusBadRequest ''invalid request body'', s)
      | Some toAccount \<Rightarrow>
          orRespond (onWorld (CaptureHold (dpEnv D) ctx i toAccount))
            (\<lambda>e. writeError (dpLib D) (mapDomainError e) ''failed to capture hold'')
            (\<lambda>t s. (writeJSON (dpLib D) StatusOK (TransferFromDomain (dpLib D) t), s)) s)"

section \<open>Entries (entry_handler.go)\<close>

definition EntryHandler_ListByAccount :: "'d deps \<Rightarrow> string \<Rightarrow> 'd http_handler" where
  "EntryHandler_ListByAccount D acc rq ctx s =
     (if acc = [] then (writeError (dpLib D) StatusBadRequest ''missing account ID'', s)
      else orRespond (onWorld (GetEntriesByAccount (dpEnv D) acc
             (parseIntQuery rq ''limit'' 20) (parseIntQuery rq ''offset'' 0)))
        (\<lambda>e. writeError (dpLib D) StatusInternalServerError ''failed to list entries'')
        (\<lambda>es s. (writeJSON (dpLib D) StatusOK (OList (EntriesFromDomain (dpLib D) es)), s)) s)"

definition EntryHandler_ListByTransfer :: "'d deps \<Rightarrow> string \<Rightarrow> 'd http_handler" where
  "EntryHandler_ListByTransfer D tr rq ctx s =
     (if tr = [] then (writeError (dpLib D) StatusBadRequest ''missing transfer ID'', s)
      else orRespond (onWorld (GetEntriesByTransfer (dpEnv D) tr))
        (\<lambda>e. writeError (dpLib D) StatusInternalServerError ''failed to list entries'')
        (\<lambda>es s. (writeJSON (dpLib D) StatusOK (OList (EntriesFromDomain (dpLib D) es)), s)) s)"

definition EntryHandler_GetHistoricalBalance :: "'d::linordered_idom deps \<Rightarrow> string \<Rightarrow> 'd http_handler" where
  "EntryHandler_GetHistoricalBalance D acc rq ctx s =
     (if acc = [] then (writeError (dpLib D) StatusBadRequest ''missing account ID'', s)
      else let atStr = Query_Get rq ''at'' in
        if atStr = [] then (writeError (dpLib D) StatusBadRequest (''missing '' @ [CHR 0x27] @ ''at'' @ [CHR 0x27] @ '' parameter''), s)
        else case parseRFC3339 (dpLib D) atStr of
          None \<Rightarrow> (writeError (dpLib D) StatusBadRequest
                    (''invalid '' @ [CHR 0x27] @ ''at'' @ [CHR 0x27] @ '' format (use RFC3339)''), s)
        | Some at \<Rightarrow>
            orRespond (onWorld (GetHistoricalBalance (dpEnv D) acc at))
              (\<lambda>e. writeError (dpLib D) StatusInternalServerError ''failed to get historical balance'')
              (\<lambda>b s. (writeJSON (dpLib D) StatusOK (OObject
                 [(''account_id'', OText acc), (''at'', OTime at), (''balance'', ODecimal b)]), s)) s)"

section \<open>The ledger (ledger_handler.go)\<close>

text \<open>A \<^verbatim>\<open>map[string]any\<close> is encoded with its keys sorted.\<close>

definition LedgerHandler_CheckConsistency :: "'d::linordered_idom deps \<Rightarrow> 'd http_handler" where
  "LedgerHandler_CheckConsistency D rq ctx s =
     orRespond (onWorld (CheckConsistency (dpEnv D)))
       (\<lambda>e. if e = ErrInconsistentLedger
            then writeJSON (dpLib D) StatusConflict (OObject
              [(''consistent'', OBool False),
               (''message'', OText (errText (extErrText (envHasher (dpEnv D))) e)),
               (''status'', OText ''inconsistent'')])
            else writeError (dpLib D) StatusInternalServerError ''failed to check consistency'')
       (\<lambda>consistent s. (writeJSON (dpLib D) StatusOK (OObject
          [(''consistent'', OBool consistent), (''status'', OText ''consistent'')]), s)) s"

section \<open>Audit (audit_handler.go)\<close>

text \<open>An unset date passes, a date that does not parse is an error.\<close>

definition dateQuery :: "'d lib \<Rightarrow> request \<Rightarrow> string \<Rightarrow> int option option" where
  "dateQuery L rq key =
     (let v = Query_Get rq key in if v = [] then Some None else map_option Some (parseRFC3339 L v))"

definition filterFromQuery :: "'d lib \<Rightarrow> request \<Rightarrow> audit_filter option" where
  "filterFromQuery L rq =
     (case dateQuery L rq ''start_date'' of
        None \<Rightarrow> None
      | Some startDate \<Rightarrow>
         (case dateQuery L rq ''end_date'' of
            None \<Rightarrow> None
          | Some endDate \<Rightarrow>
              Some \<lparr>fiUserID = Query_Get rq ''user_id'', fiAction = Query_Get rq ''action'',
                    fiResourceType = Query_Get rq ''resource_type'', fiResourceID = Query_Get rq ''resource_id'',
                    fiStartDate = startDate, fiEndDate = endDate,
                    fiLimit = parseIntQuery rq ''limit'' 100, fiOffset = parseIntQuery rq ''offset'' 0\<rparr>))"

definition AuditHandler_List :: "'d deps \<Rightarrow> 'd http_handler" where
  "AuditHandler_List D rq ctx s =
     (case filterFromQuery (dpLib D) rq of
        None \<Rightarrow> (writeError (dpLib D) StatusBadRequest ''invalid filter'', s)
      | Some f \<Rightarrow>
          orRespond (onWorld (auditRepo_List (dpEnv D) f))
            (\<lambda>e. writeError (dpLib D) StatusInternalServerError ''failed to list audit logs'')
            (\<lambda>ls s. (writeJSON (dpLib D) StatusOK
               (OList (AuditLogsFromDomain (envHasher (dpEnv D)) ls)), s)) s)"

definition csvHeader :: "string list" where
  "csvHeader = [''id'', ''created_at'', ''user_id'', ''action'', ''resource_type'', ''resource_id'',
     ''status'', ''ip_address'', ''user_agent'', ''request_id'', ''error_message'']"

definition csvAuditLog :: "'d lib \<Rightarrow> hasher \<Rightarrow> 'd audit_log \<Rightarrow> string list" where
  "csvAuditLog L H l =
     [auID l, formatRFC3339 L (auCreatedAt l), auUserID l, actionText (auAction l), auResourceType l,
      auResourceID l, statusText (auStatus l), auIPAddress l, auUserAgent l, auRequestID l, errorMessage H l]"

definition AuditHandler_Export :: "'d deps \<Rightarrow> 'd http_handler" where
  "AuditHandler_Export D rq ctx s =
     (case filterFromQuery (dpLib D) rq of
        None \<Rightarrow> (writeError (dpLib D) StatusBadRequest ''invalid filter'', s)
      | Some f \<Rightarrow>
          let f = (if fiLimit f \<le> 0 then f\<lparr>fiLimit := 10000\<rparr> else f) in
          orRespond (onWorld (auditRepo_List (dpEnv D) f))
            (\<lambda>e. writeError (dpLib D) StatusInternalServerError ''failed to list audit logs'')
            (\<lambda>ls s. (\<lparr>rsStatus = StatusOK,
               rsHeaders = [(''Content-Type'', ''text/csv''),
                 (''Content-Disposition'', ''attachment; filename='' @ [CHR 0x22] @ ''audit_logs.csv'' @ [CHR 0x22])],
               rsBody = concat (map csvRecord
                 (csvHeader # map (csvAuditLog (dpLib D) (envHasher (dpEnv D))) ls))\<rparr>, s)) s)"

definition AuditHandler_GetByResource :: "'d deps \<Rightarrow> string \<Rightarrow> string \<Rightarrow> 'd http_handler" where
  "AuditHandler_GetByResource D ty i rq ctx s =
     (if ty = [] \<or> i = [] then (writeError (dpLib D) StatusBadRequest ''missing resource type or id'', s)
      else orRespond (onWorld (auditRepo_GetByResourceID (dpEnv D) ty i))
        (\<lambda>e. writeError (dpLib D) StatusInternalServerError ''failed to get audit logs'')
        (\<lambda>ls s. (writeJSON (dpLib D) StatusOK
           (OList (AuditLogsFromDomain (envHasher (dpEnv D)) ls)), s)) s)"

definition AuditHandler_GetByUser :: "'d deps \<Rightarrow> string \<Rightarrow> 'd http_handler" where
  "AuditHandler_GetByUser D u rq ctx s =
     (if u = [] then (writeError (dpLib D) StatusBadRequest ''missing user id'', s)
      else orRespond (onWorld (auditRepo_List (dpEnv D)
             \<lparr>fiUserID = u, fiAction = [], fiResourceType = [], fiResourceID = [], fiStartDate = None,
              fiEndDate = None, fiLimit = parseIntQuery rq ''limit'' 100, fiOffset = parseIntQuery rq ''offset'' 0\<rparr>))
        (\<lambda>e. writeError (dpLib D) StatusInternalServerError ''failed to get audit logs'')
        (\<lambda>ls s. (writeJSON (dpLib D) StatusOK
           (OList (AuditLogsFromDomain (envHasher (dpEnv D)) ls)), s)) s)"

end
