(* ===== verification/Router.thy ===== *)
theory Router
  imports Http
begin

text \<open>
  Login and health (\<^verbatim>\<open>auth_handler.go\<close>, \<^verbatim>\<open>health_handler.go\<close>), the request metadata middleware
  (\<^verbatim>\<open>middleware/requestmeta.go\<close>) and the router (\<^verbatim>\<open>router.go\<close>): which method and path reach which
  handler, under which middleware.
\<close>

section \<open>Authentication (auth_handler.go)\<close>

text \<open>Best effort: whatever the insert returns is dropped.\<close>

definition auditLogin ::
  "'d deps \<Rightarrow> request \<Rightarrow> context_values \<Rightarrow> string \<Rightarrow> string \<Rightarrow> audit_status \<Rightarrow> err option \<Rightarrow> ('d, unit) act" where
  "auditLogin D rq ctx email userID status failure =
     (let resourceID = (if userID = [] then email else userID) in
      if \<not> envAudit (dpEnv D) then returnM ()
      else bindM (Generate (dpEnv D)) (\<lambda>i.
           bindM (Now (dpEnv D)) (\<lambda>at.
           ignoreM (auditRepo_Create (dpEnv D)
             \<lparr>auID = i, auUserID = resourceID, auAction = AuditActionUserLogin, auResourceType = ''user'',
              auResourceID = resourceID, auIPAddress = rqRemoteAddr rq,
              auUserAgent = Header_Get rq ''User-Agent'',
              auRequestID = (case RequestMetaFromContext ctx of None \<Rightarrow> [] | Some m \<Rightarrow> rmRequestID m),
              auBefore = NoState, auAfter = NoState, auStatus = status, auError = failure, auCreatedAt = at,
              auPrevHash = [], auHash = [], auChainSeq = 0\<rparr>))))"

definition userInfo :: "user \<Rightarrow> 'd out" where
  "userInfo u = OObject
     [(''id'', OText (usID u)), (''email'', OText (usEmail u)), (''role'', OText (roleText (usRole u)))]"

definition AuthHandler_Login :: "'d deps \<Rightarrow> 'd http_handler" where
  "AuthHandler_Login D rq ctx s =
     (case decodeBody rq decodeLogin \<lparr>loEmail = [], loPassword = []\<rparr> of
        None \<Rightarrow> (writeError (dpLib D) StatusBadRequest ''invalid request body'', s)
      | Some req \<Rightarrow>
         (case onWorld (Authenticate (dpEnv D) (dpUsers D) (loEmail req) (loPassword req)) s of
            (Inl e, s1) \<Rightarrow>
              (writeError (dpLib D) StatusUnauthorized ''invalid credentials'',
               snd (onWorld (auditLogin D rq ctx (loEmail req) [] AuditStatusFailure (Some e)) s1))
          | (Inr u, s1) \<Rightarrow>
             (case onWorld (JWT_Generate (dpEnv D) (dpJwt D) (dpManager D) u) s1 of
                (Inl e, s2) \<Rightarrow>
                  (writeError (dpLib D) StatusInternalServerError ''failed to generate token'', s2)
              | (Inr token, s2) \<Rightarrow>
                  (writeJSON (dpLib D) StatusOK
                     (OObject [(''token'', OText token), (''user'', userInfo u)]),
                   snd (onWorld (auditLogin D rq ctx (loEmail req) (usID u) AuditStatusSuccess None) s2)))))"

definition AuthHandler_GetCurrentUser :: "'d deps \<Rightarrow> 'd http_handler" where
  "AuthHandler_GetCurrentUser D rq ctx s =
     (case UserFromContext ctx of
        None \<Rightarrow> (writeError (dpLib D) StatusUnauthorized ''unauthorized'', s)
      | Some u \<Rightarrow> (writeJSON (dpLib D) StatusOK (userInfo u), s))"

section \<open>Health (health_handler.go)\<close>

definition HealthHandler_Liveness :: "'d deps \<Rightarrow> 'd http_handler" where
  "HealthHandler_Liveness D rq ctx s =
     (writeJSON (dpLib D) StatusOK (OObject [(''status'', OText ''ok'')]), s)"

definition HealthHandler_Readiness :: "'d deps \<Rightarrow> 'd http_handler" where
  "HealthHandler_Readiness D rq ctx s =
     orRespond (onWorld (poolStmt (dpEnv D) (query (\<lambda>d. ()))))
       (\<lambda>e. writeError (dpLib D) StatusServiceUnavailable ''postgres unhealthy'')
       (\<lambda>_. orRespond (onRedis (redisCmd (dpRedis D) (\<lambda>r. (Inr (), r))))
         (\<lambda>e. writeError (dpLib D) StatusServiceUnavailable ''redis unhealthy'')
         (\<lambda>_ s. (writeJSON (dpLib D) StatusOK (OObject
            [(''postgres'', OText ''ok''), (''redis'', OText ''ok''), (''status'', OText ''ready'')]), s))) s"

section \<open>Request metadata (requestmeta.go)\<close>

definition RequestMeta :: "'d middleware" where
  "RequestMeta handler rq ctx s =
     handler rq (ContextWithRequestMeta ctx
       \<lparr>rmRequestID = rqRequestID rq, rmIPAddress = rqRemoteAddr rq,
        rmUserAgent = Header_Get rq ''User-Agent''\<rparr>) s"

section \<open>The router (router.go)\<close>

definition requireAuth :: "'d deps \<Rightarrow> 'd middleware" where
  "requireAuth D =
     (if dpAuthEnabled D then AuthMiddleware (dpEnv D) (dpJwt D) (dpManager D) else (\<lambda>handler. handler))"

definition requireRole :: "'d deps \<Rightarrow> role \<Rightarrow> 'd middleware" where
  "requireRole D minRole = (if dpAuthEnabled D then RequireRole minRole else (\<lambda>handler. handler))"

text \<open>A pattern is a list of literal segments and parameters; a parameter takes any one segment.\<close>

datatype segment = Lit string | Param

fun matchPath :: "segment list \<Rightarrow> string list \<Rightarrow> string list option" where
  "matchPath [] [] = Some []"
| "matchPath (Lit l # ps) (x # xs) = (if x = l then matchPath ps xs else None)"
| "matchPath (Param # ps) (x # xs) = map_option (\<lambda>vs. x # vs) (matchPath ps xs)"
| "matchPath [] (x # xs) = None"
| "matchPath (p # ps) [] = None"

text \<open>A route: method, pattern, the minimum role its middleware asks for, the handler given the
  captured parameters. The pattern \<^verbatim>\<open>/\<close> of a mounted router answers with and without the trailing
  slash.\<close>

record 'd route =
  rtMethod :: string
  rtPattern :: "segment list"
  rtRole :: "role option"
  rtHandler :: "string list \<Rightarrow> 'd http_handler"

definition rt :: "string \<Rightarrow> segment list \<Rightarrow> role option \<Rightarrow> (string list \<Rightarrow> 'd http_handler) \<Rightarrow> 'd route" where
  "rt m p r h = \<lparr>rtMethod = m, rtPattern = p, rtRole = r, rtHandler = h\<rparr>"

definition viewRoutes :: "'d::linordered_idom deps \<Rightarrow> 'd route list" where
  "viewRoutes D =
     [rt ''GET'' [Lit ''auth'', Lit ''me''] None (\<lambda>_. AuthHandler_GetCurrentUser D),
      rt ''GET'' [Lit ''ledger'', Lit ''consistency''] None (\<lambda>_. LedgerHandler_CheckConsistency D),
      rt ''GET'' [Lit ''accounts''] None (\<lambda>_. AccountHandler_List D),
      rt ''GET'' [Lit ''accounts'', Lit ''''] None (\<lambda>_. AccountHandler_List D),
      rt ''GET'' [Lit ''accounts'', Param] None (\<lambda>ps. AccountHandler_Get D (hd ps)),
      rt ''GET'' [Lit ''accounts'', Param, Lit ''entries''] None (\<lambda>ps. EntryHandler_ListByAccount D (hd ps)),
      rt ''GET'' [Lit ''accounts'', Param, Lit ''transfers''] None (\<lambda>ps. TransferHandler_ListByAccount D (hd ps)),
      rt ''GET'' [Lit ''accounts'', Param, Lit ''balance'', Lit ''history''] None
        (\<lambda>ps. EntryHandler_GetHistoricalBalance D (hd ps)),
      rt ''GET'' [Lit ''transfers'', Param] None (\<lambda>ps. TransferHandler_Get D (hd ps)),
      rt ''GET'' [Lit ''transfers'', Param, Lit ''entries''] None (\<lambda>ps. EntryHandler_ListByTransfer D (hd ps)),
      rt ''GET'' [Lit ''audit''] (Some RoleAdmin) (\<lambda>_. AuditHandler_List D),
      rt ''GET'' [Lit ''audit'', Lit ''''] (Some RoleAdmin) (\<lambda>_. AuditHandler_List D),
      rt ''GET'' [Lit ''audit'', Lit ''export''] (Some RoleAdmin) (\<lambda>_. AuditHandler_Export D),
      rt ''GET'' [Lit ''audit'', Lit ''resource'', Param, Param] (Some RoleAdmin)
        (\<lambda>ps. AuditHandler_GetByResource D (ps ! 0) (ps ! 1)),
      rt ''GET'' [Lit ''audit'', Lit ''user'', Param] (Some RoleAdmin) (\<lambda>ps. AuditHandler_GetByUser D (hd ps))]"

definition writeRoutes :: "'d::linordered_idom deps \<Rightarrow> 'd route list" where
  "writeRoutes D =
     [rt ''POST'' [Lit ''accounts''] (Some RoleAdmin) (\<lambda>_. AccountHandler_Create D),
      rt ''POST'' [Lit ''accounts'', Lit ''''] (Some RoleAdmin) (\<lambda>_. AccountHandler_Create D),
      rt ''POST'' [Lit ''transfers''] (Some RoleOperator) (\<lambda>_. TransferHandler_Create D),
      rt ''POST'' [Lit ''transfers'', Lit ''''] (Some RoleOperator) (\<lambda>_. TransferHandler_Create D),
      rt ''POST'' [Lit ''transfers'', Lit ''batch''] (Some RoleOperator) (\<lambda>_. TransferHandler_CreateBatch D),
      rt ''POST'' [Lit ''transfers'', Param, Lit ''reverse''] (Some RoleOperator)
        (\<lambda>ps. TransferHandler_Reverse D (hd ps)),
      rt ''POST'' [Lit ''holds''] (Some RoleOperator) (\<lambda>_. HoldHandler_Create D),
      rt ''POST'' [Lit ''holds'', Lit ''''] (Some RoleOperator) (\<lambda>_. HoldHandler_Create D),
      rt ''POST'' [Lit ''holds'', Param, Lit ''void''] (Some RoleOperator) (\<lambda>ps. HoldHandler_Void D (hd ps)),
      rt ''POST'' [Lit ''holds'', Param, Lit ''capture''] (Some RoleOperator)
        (\<lambda>ps. HoldHandler_Capture D (hd ps))]"

fun findRoute :: "string \<Rightarrow> string list \<Rightarrow> 'd route list \<Rightarrow> ('d route \<times> string list) option" where
  "findRoute m p [] = None"
| "findRoute m p (r # rs) =
     (case if rtMethod r = m then matchPath (rtPattern r) p else None of
        Some vs \<Rightarrow> Some (r, vs)
      | None \<Rightarrow> findRoute m p rs)"

definition optionalRole :: "'d deps \<Rightarrow> role option \<Rightarrow> 'd middleware" where
  "optionalRole D r = (case r of None \<Rightarrow> (\<lambda>handler. handler) | Some minRole \<Rightarrow> requireRole D minRole)"

text \<open>A path below a mounted router that has no route still runs that router's middleware.\<close>

definition notFound :: "'d deps \<Rightarrow> 'd http_handler" where
  "notFound D rq ctx s = (dpMiss D rq, s)"

definition missRoute :: "'d deps \<Rightarrow> string list \<Rightarrow> 'd http_handler" where
  "missRoute D p rq ctx s =
     (if p \<noteq> [] \<and> hd p \<in> {''accounts'', ''transfers'', ''holds''} then requireAuth D (notFound D) rq ctx s
      else if p \<noteq> [] \<and> hd p = ''audit''
      then requireAuth D (requireRole D RoleAdmin (notFound D)) rq ctx s
      else notFound D rq ctx s)"

definition apiRoutes :: "'d::linordered_idom deps \<Rightarrow> string list \<Rightarrow> 'd http_handler" where
  "apiRoutes D p rq ctx s =
     (if rqMethod rq = ''POST'' \<and> p = [''auth'', ''login''] then AuthHandler_Login D rq ctx s
      else case findRoute (rqMethod rq) p (viewRoutes D @ writeRoutes D) of
        Some (r, vs) \<Rightarrow> requireAuth D (optionalRole D (rtRole r) (rtHandler r vs)) rq ctx s
      | None \<Rightarrow> missRoute D p rq ctx s)"

definition NewRouter :: "'d::linordered_idom deps \<Rightarrow> 'd http_handler" where
  "NewRouter D = RequestMeta (\<lambda>rq ctx s.
     if rqMethod rq = ''GET'' \<and> rqPath rq = [''health''] then HealthHandler_Liveness D rq ctx s
     else if rqMethod rq = ''GET'' \<and> rqPath rq = [''ready''] then HealthHandler_Readiness D rq ctx s
     else if rqPath rq = [''metrics''] then (dpMetrics D, s)
     else if take 2 (rqPath rq) = [''api'', ''v1'']
     then Wrap (dpRedis D) (apiRoutes D (drop 2 (rqPath rq))) rq ctx s
     else notFound D rq ctx s)"

end
