(* ===== verification/Grpc.thy ===== *)
theory Grpc
  imports Http
begin

text \<open>
  The gRPC API: messages (the fields of the protobuf types), the converters of
  \<^verbatim>\<open>grpc/converter/converter.go\<close>, the three servers of \<^verbatim>\<open>grpc/server\<close> with every branch, and the
  interceptor chain \<^verbatim>\<open>cmd/server/main.go\<close> builds. The framework hands a method its own message type:
  a call is well formed when its method name is that of its message.
\<close>

section \<open>Messages\<close>

record pb_account =
  paId :: string
  paName :: string
  paCurrency :: string
  paBalance :: string
  paEncumberedBalance :: string
  paVersion :: int
  paAllowNegative :: bool
  paAllowPositive :: bool
  paCreatedAt :: int
  paUpdatedAt :: int

record pb_transfer =
  ptId :: string
  ptFrom :: string
  ptTo :: string
  ptAmount :: string
  ptCreatedAt :: int
  ptEventAt :: int
  ptMetadata :: "(string \<times> string) list"
  ptReversed :: "string option"

record pb_hold =
  phId :: string
  phAccount :: string
  phAmount :: string
  phStatus :: string
  phExpiresAt :: "int option"
  phCreatedAt :: int
  phUpdatedAt :: int
  phMetadata :: "(string \<times> string) list"

record pb_entry =
  peId :: string
  peAccount :: string
  peTransfer :: string
  peAmount :: string
  pePrevious :: string
  peCurrent :: string
  peVersion :: int
  peCreatedAt :: int

type_synonym pb_metadata = "(string \<times> string) list option"

record pb_transfer_request =
  qtFrom :: string
  qtTo :: string
  qtAmount :: string
  qtEventAt :: "int option"
  qtMetadata :: pb_metadata

datatype grpc_request =
    CreateAccountReq string string bool bool
  | GetAccountReq string
  | ListAccountsReq int int
  | CreateTransferReq pb_transfer_request
  | CreateBatchTransferReq "pb_transfer_request list" "int option" pb_metadata
  | GetTransferReq string
  | ListTransfersByAccountReq string int int
  | ReverseTransferReq string pb_metadata
  | HoldFundsReq string string
  | VoidHoldReq string
  | CaptureHoldReq string string
  | ListHoldsByAccountReq string int int

datatype grpc_response =
    AccountResp pb_account
  | AccountsResp "pb_account list"
  | TransferResp pb_transfer
  | TransfersResp "pb_transfer list"
  | HoldResp pb_hold
  | HoldsResp "pb_hold list"
  | EmptyResp

fun FullMethod :: "grpc_request \<Rightarrow> string" where
  "FullMethod (CreateAccountReq n c an ap) = ''/goledger.v1.AccountService/CreateAccount''"
| "FullMethod (GetAccountReq i) = ''/goledger.v1.AccountService/GetAccount''"
| "FullMethod (ListAccountsReq l off) = ''/goledger.v1.AccountService/ListAccounts''"
| "FullMethod (CreateTransferReq t) = ''/goledger.v1.TransferService/CreateTransfer''"
| "FullMethod (CreateBatchTransferReq ts e m) = ''/goledger.v1.TransferService/CreateBatchTransfer''"
| "FullMethod (GetTransferReq i) = ''/goledger.v1.TransferService/GetTransfer''"
| "FullMethod (ListTransfersByAccountReq a l off) = ''/goledger.v1.TransferService/ListTransfersByAccount''"
| "FullMethod (ReverseTransferReq i m) = ''/goledger.v1.TransferService/ReverseTransfer''"
| "FullMethod (HoldFundsReq a m) = ''/goledger.v1.HoldService/HoldFunds''"
| "FullMethod (VoidHoldReq i) = ''/goledger.v1.HoldService/VoidHold''"
| "FullMethod (CaptureHoldReq i t) = ''/goledger.v1.HoldService/CaptureHold''"
| "FullMethod (ListHoldsByAccountReq a l off) = ''/goledger.v1.HoldService/ListHoldsByAccount''"

section \<open>Converters (converter.go)\<close>

definition AccountToPb :: "'d lib \<Rightarrow> 'd account \<Rightarrow> pb_account" where
  "AccountToPb L a = \<lparr>paId = accID a, paName = accName a, paCurrency = accCurrency a,
     paBalance = decString L (accBalance a), paEncumberedBalance = decString L (accEncumbered a),
     paVersion = accVersion a, paAllowNegative = accAllowNegative a, paAllowPositive = accAllowPositive a,
     paCreatedAt = accCreatedAt a, paUpdatedAt = accUpdatedAt a\<rparr>"

text \<open>Only values that are strings are kept.\<close>

fun stringEntries :: "(string \<times> any) list \<Rightarrow> (string \<times> string) list" where
  "stringEntries [] = []"
| "stringEntries ((k, AnyStr s) # kvs) = (k, s) # stringEntries kvs"
| "stringEntries ((k, AnyOther s) # kvs) = stringEntries kvs"

definition metadataToPb :: "metadata \<Rightarrow> (string \<times> string) list" where
  "metadataToPb m = (case m of None \<Rightarrow> [] | Some kvs \<Rightarrow> stringEntries kvs)"

definition TransferToPb :: "'d lib \<Rightarrow> 'd transfer \<Rightarrow> pb_transfer" where
  "TransferToPb L t = \<lparr>ptId = trID t, ptFrom = trFrom t, ptTo = trTo t, ptAmount = decString L (trAmount t),
     ptCreatedAt = trCreatedAt t, ptEventAt = trEventAt t, ptMetadata = metadataToPb (trMetadata t),
     ptReversed = trReversed t\<rparr>"

definition EntryToPb :: "'d lib \<Rightarrow> 'd entry \<Rightarrow> pb_entry" where
  "EntryToPb L e = \<lparr>peId = enID e, peAccount = enAccount e, peTransfer = enTransfer e,
     peAmount = decString L (enAmount e), pePrevious = decString L (enPrevious e),
     peCurrent = decString L (enCurrent e), peVersion = enVersion e, peCreatedAt = enCreatedAt e\<rparr>"

definition HoldToPb :: "'d lib \<Rightarrow> 'd hold \<Rightarrow> pb_hold" where
  "HoldToPb L h = \<lparr>phId = hoID h, phAccount = hoAccount h, phAmount = decString L (hoAmount h),
     phStatus = holdStatusText (hoStatus h), phExpiresAt = hoExpiresAt h, phCreatedAt = hoCreatedAt h,
     phUpdatedAt = hoUpdatedAt h, phMetadata = metadataToPb (hoMetadata h)\<rparr>"

definition ParseDecimal :: "'d lib \<Rightarrow> string \<Rightarrow> 'd option" where
  "ParseDecimal L s = decFromString L s"

definition MetadataToMap :: "pb_metadata \<Rightarrow> metadata" where
  "MetadataToMap m = map_option (map (\<lambda>(k, v). (k, AnyStr v))) m"

section \<open>Servers\<close>

type_synonym 'd grpc_method = "context_values \<Rightarrow> (grpc_status, 'd server, grpc_response) go"

definition answer :: "('a \<Rightarrow> grpc_response) \<Rightarrow> ('d, 'a) act \<Rightarrow> (grpc_status, 'd server, grpc_response) go" where
  "answer f m = bindM (withStatus MapDomainError (onWorld m)) (\<lambda>x. returnM (f x))"

definition AccountServer_CreateAccount ::
  "'d::linordered_idom deps \<Rightarrow> string \<Rightarrow> string \<Rightarrow> bool \<Rightarrow> bool \<Rightarrow> 'd grpc_method" where
  "AccountServer_CreateAccount D name cur neg pos ctx =
     answer (\<lambda>a. AccountResp (AccountToPb (dpLib D) a))
       (CreateAccount (dpEnv D) ctx
          \<lparr>aiName = name, aiCurrency = cur, aiAllowNegative = neg, aiAllowPositive = pos\<rparr>)"

definition AccountServer_GetAccount :: "'d deps \<Rightarrow> string \<Rightarrow> 'd grpc_method" where
  "AccountServer_GetAccount D i ctx =
     answer (\<lambda>a. AccountResp (AccountToPb (dpLib D) a)) (GetAccount (dpEnv D) i)"

definition AccountServer_ListAccounts :: "'d deps \<Rightarrow> int \<Rightarrow> int \<Rightarrow> 'd grpc_method" where
  "AccountServer_ListAccounts D lim off ctx =
     answer (\<lambda>as. AccountsResp (map (AccountToPb (dpLib D)) as)) (ListAccounts (dpEnv D) lim off)"

definition transferInput :: "'d lib \<Rightarrow> pb_transfer_request \<Rightarrow> 'd CreateTransferInput option" where
  "transferInput L t =
     map_option (\<lambda>amount. \<lparr>ciEventAt = qtEventAt t, ciMetadata = MetadataToMap (qtMetadata t),
        ciFrom = qtFrom t, ciTo = qtTo t, ciAmount = amount, ciReversed = None\<rparr>)
       (ParseDecimal L (qtAmount t))"

definition TransferServer_CreateTransfer ::
  "'d::linordered_idom deps \<Rightarrow> pb_transfer_request \<Rightarrow> 'd grpc_method" where
  "TransferServer_CreateTransfer D req ctx =
     (case transferInput (dpLib D) req of
        None \<Rightarrow> raiseM (CodeInvalidArgument, ''invalid amount format'')
      | Some input \<Rightarrow>
          answer (\<lambda>t. TransferResp (TransferToPb (dpLib D) t))
            (CreateTransfer (dpEnv D) (dpRetrier D) ctx input))"

text \<open>The first amount that does not parse, by index.\<close>

fun transferInputs ::
  "'d lib \<Rightarrow> nat \<Rightarrow> pb_transfer_request list \<Rightarrow> nat + 'd CreateTransferInput list" where
  "transferInputs L i [] = Inr []"
| "transferInputs L i (t # ts) =
     (case transferInput L t of
        None \<Rightarrow> Inl i
      | Some input \<Rightarrow> (case transferInputs L (Suc i) ts of Inl j \<Rightarrow> Inl j | Inr inputs \<Rightarrow> Inr (input # inputs)))"

definition TransferServer_CreateBatchTransfer ::
  "'d::linordered_idom deps \<Rightarrow> pb_transfer_request list \<Rightarrow> int option \<Rightarrow> pb_metadata \<Rightarrow> 'd grpc_method" where
  "TransferServer_CreateBatchTransfer D reqs eventAt md ctx =
     (case transferInputs (dpLib D) 0 reqs of
        Inl i \<Rightarrow> raiseM (CodeInvalidArgument, ''invalid amount format at index '' @ itoa i)
      | Inr inputs \<Rightarrow>
          answer (\<lambda>ts. TransfersResp (map (TransferToPb (dpLib D)) ts))
            (CreateBatchTransfer (dpEnv D) (dpRetrier D) ctx
              \<lparr>cbEventAt = eventAt, cbMetadata = MetadataToMap md, cbTransfers = inputs\<rparr>))"

definition TransferServer_GetTransfer :: "'d deps \<Rightarrow> string \<Rightarrow> 'd grpc_method" where
  "TransferServer_GetTransfer D i ctx =
     answer (\<lambda>t. TransferResp (TransferToPb (dpLib D) t)) (GetTransfer (dpEnv D) i)"

definition TransferServer_ListTransfersByAccount ::
  "'d deps \<Rightarrow> string \<Rightarrow> int \<Rightarrow> int \<Rightarrow> 'd grpc_method" where
  "TransferServer_ListTransfersByAccount D acc lim off ctx =
     answer (\<lambda>ts. TransfersResp (map (TransferToPb (dpLib D)) ts))
       (ListTransfersByAccount (dpEnv D) acc lim off)"

definition TransferServer_ReverseTransfer ::
  "'d::linordered_idom deps \<Rightarrow> string \<Rightarrow> pb_metadata \<Rightarrow> 'd grpc_method" where
  "TransferServer_ReverseTransfer D i md ctx =
     answer (\<lambda>t. TransferResp (TransferToPb (dpLib D) t))
       (ReverseTransfer (dpEnv D) (dpRetrier D) ctx i (MetadataToMap md))"

definition HoldServer_HoldFunds :: "'d::linordered_idom deps \<Rightarrow> string \<Rightarrow> string \<Rightarrow> 'd grpc_method" where
  "HoldServer_HoldFunds D acc amountText ctx =
     (case ParseDecimal (dpLib D) amountText of
        None \<Rightarrow> raiseM (CodeInvalidArgument, ''invalid amount format'')
      | Some amount \<Rightarrow>
          answer (\<lambda>h. HoldResp (HoldToPb (dpLib D) h)) (HoldFunds (dpEnv D) ctx acc amount))"

definition HoldServer_VoidHold :: "'d::linordered_idom deps \<Rightarrow> string \<Rightarrow> 'd grpc_method" where
  "HoldServer_VoidHold D i ctx = answer (\<lambda>_. EmptyResp) (VoidHold (dpEnv D) ctx i)"

definition HoldServer_CaptureHold :: "'d::linordered_idom deps \<Rightarrow> string \<Rightarrow> string \<Rightarrow> 'd grpc_method" where
  "HoldServer_CaptureHold D i toAccount ctx =
     answer (\<lambda>t. TransferResp (TransferToPb (dpLib D) t)) (CaptureHold (dpEnv D) ctx i toAccount)"

definition HoldServer_ListHoldsByAccount :: "'d deps \<Rightarrow> string \<Rightarrow> int \<Rightarrow> int \<Rightarrow> 'd grpc_method" where
  "HoldServer_ListHoldsByAccount D acc lim off ctx =
     answer (\<lambda>hs. HoldsResp (map (HoldToPb (dpLib D)) hs)) (ListHoldsByAccount (dpEnv D) acc lim off)"

section \<open>Dispatch and interceptors\<close>

fun serve :: "'d::linordered_idom deps \<Rightarrow> grpc_request \<Rightarrow> 'd grpc_method" where
  "serve D (CreateAccountReq n c an ap) = AccountServer_CreateAccount D n c an ap"
| "serve D (GetAccountReq i) = AccountServer_GetAccount D i"
| "serve D (ListAccountsReq l off) = AccountServer_ListAccounts D l off"
| "serve D (CreateTransferReq t) = TransferServer_CreateTransfer D t"
| "serve D (CreateBatchTransferReq ts e m) = TransferServer_CreateBatchTransfer D ts e m"
| "serve D (GetTransferReq i) = TransferServer_GetTransfer D i"
| "serve D (ListTransfersByAccountReq a l off) = TransferServer_ListTransfersByAccount D a l off"
| "serve D (ReverseTransferReq i m) = TransferServer_ReverseTransfer D i m"
| "serve D (HoldFundsReq a m) = HoldServer_HoldFunds D a m"
| "serve D (VoidHoldReq i) = HoldServer_VoidHold D i"
| "serve D (CaptureHoldReq i t) = HoldServer_CaptureHold D i t"
| "serve D (ListHoldsByAccountReq a l off) = HoldServer_ListHoldsByAccount D a l off"

definition unaryInterceptors ::
  "'d deps \<Rightarrow> (grpc_request \<Rightarrow> err + string) \<Rightarrow> ('d, grpc_request, grpc_response) interceptor list" where
  "unaryInterceptors D marshal =
     IdempotencyInterceptor (Some (dpRedis D)) (hashRequest marshal (envHasher (dpEnv D))) #
     (if dpAuthEnabled D
      then [AuthInterceptor (dpEnv D) (dpJwt D) (dpManager D), MethodRoleInterceptor grpcMethodRoles]
      else [])"

definition grpcServe ::
  "'d::linordered_idom deps \<Rightarrow> (grpc_request \<Rightarrow> err + string) \<Rightarrow>
   ('d, grpc_request, grpc_response) grpc_handler" where
  "grpcServe D marshal =
     ChainUnaryServer (unaryInterceptors D marshal) (\<lambda>call. serve D (gcRequest call))"

end
