(* ===== verification/Api.thy ===== *)
theory Api
  imports System Router Grpc
begin

text \<open>
  What a request can do, whichever transport it comes over. Handlers and middleware are sorted into
  those that only read the database, those that do one effect of the ledger and then audit rows,
  and those that leave Redis alone; the rules compose along the shape of the code, up to the whole
  router and the whole interceptor chain. The server as a step relation follows: HTTP requests, gRPC
  calls, publisher passes, reconciliation runs and user administration, in any order.
\<close>

section \<open>Readers\<close>

definition reads :: "('d server \<Rightarrow> 'x \<times> 'd server) \<Rightarrow> bool" where
  "reads f \<longleftrightarrow> (\<forall>s. committed (svWorld (snd (f s))) = committed (svWorld s))"

definition quiet :: "('d server \<Rightarrow> 'x \<times> 'd server) \<Rightarrow> bool" where
  "quiet f \<longleftrightarrow> (\<forall>s. svRedis (snd (f s)) = svRedis s)"

named_theorems api_intros "how readers, effects and quiet computations compose"

text \<open>What these and the later classes share: each says something of every single run, so each goes
  through branches.\<close>

locale pointwise =
  fixes ok :: "('d server \<Rightarrow> 'x \<times> 'd server) \<Rightarrow> bool" and Q :: "'d server \<Rightarrow> 'x \<times> 'd server \<Rightarrow> bool"
  assumes ok_iff: "ok f \<longleftrightarrow> (\<forall>s. Q s (f s))"
begin

lemma ok_pure: "(\<And>s. Q s (r, s)) \<Longrightarrow> ok (\<lambda>s. (r, s))"
  by (simp add: ok_iff)

lemma ok_if: "ok f \<Longrightarrow> ok g \<Longrightarrow> ok (\<lambda>s. if c then f s else g s)"
  by (simp add: ok_iff)

lemma ok_option: "ok f \<Longrightarrow> (\<And>y. ok (g y)) \<Longrightarrow> ok (\<lambda>s. case x of None \<Rightarrow> f s | Some y \<Rightarrow> g y s)"
  by (cases x) simp_all

end

interpretation reading: pointwise reads "\<lambda>s r. committed (svWorld (snd r)) = committed (svWorld s)"
  by unfold_locales (simp add: reads_def)

interpretation quieting: pointwise quiet "\<lambda>s r. svRedis (snd r) = svRedis s"
  by unfold_locales (simp add: quiet_def)

lemma unchanged_intros [api_intros]: "reads (\<lambda>s. (r, s))" "quiet (\<lambda>s. (r, s))"
  by (simp_all add: reading.ok_pure quieting.ok_pure)

lemmas branch_intros [api_intros] =
  reading.ok_if reading.ok_option quieting.ok_if quieting.ok_option

lemma reads_onWorld [api_intros]: "keeps committed m \<Longrightarrow> reads (onWorld m)"
  by (simp add: reads_def keeps_def)

lemma quiet_onWorld [api_intros]: "quiet (onWorld m)"
  by (simp add: quiet_def)

lemma reads_onRedis [api_intros]: "reads (onRedis m)"
  by (simp add: reads_def)

lemma orRespond_snd:
  "snd (orRespond m e k s) = (case fst (m s) of Inl x \<Rightarrow> snd (m s) | Inr x \<Rightarrow> snd (k x (snd (m s))))"
  by (simp add: orRespond_def split: prod.splits sum.splits)

lemma reads_orRespond [api_intros]: "reads m \<Longrightarrow> (\<And>x. reads (k x)) \<Longrightarrow> reads (orRespond m e k)"
  by (simp add: reads_def orRespond_snd split: sum.splits)

lemma quiet_orRespond [api_intros]: "quiet m \<Longrightarrow> (\<And>x. quiet (k x)) \<Longrightarrow> quiet (orRespond m e k)"
  by (simp add: quiet_def orRespond_snd split: sum.splits)

text \<open>The reading statements and the repository methods over them.\<close>

definition st_reads :: "('d, 'a) stmt \<Rightarrow> bool" where
  "st_reads st \<longleftrightarrow> (\<forall>d x d'. st d = Inr (x, d') \<longrightarrow> d' = d)"

lemma st_reads_intros:
  "st_reads (query f)" "st_reads (\<lambda>d. one_row (g d) d)" "st_reads (\<lambda>d. rows (h d) d)"
  by (auto simp: st_reads_def query_Inr one_row_Inr rows_Inr)

lemma keeps_pool_read: "st_reads st \<Longrightarrow> keeps committed (poolStmt E st)"
  by (auto simp: keeps_def st_reads_def poolStmt_def dbCall_def Let_def split: option.splits sum.splits)

lemma sql_reads:
  "st_reads (sql_GetAccountByID i)" "st_reads (sql_ListAccounts lim off)" "st_reads (sql_GetTransferByID i)"
  "st_reads (sql_ListTransfersByAccount acc lim off)" "st_reads (sql_ListTransfersByAccountCursor acc cursor lim)"
  "st_reads (sql_GetEntriesByAccount acc lim off)" "st_reads (sql_GetEntriesByTransfer tr)"
  "st_reads (sql_ListHoldsByAccount acc lim off)" "st_reads (sql_GetAccountBalanceAtTime acc at)"
  "st_reads (sql_SumEntryAmountsByAccount acc)" "st_reads (sql_GetEntriesByAccountOrdered acc)"
  "st_reads sql_CheckLedgerConsistency" "st_reads sql_CheckLedgerConsistencyByCurrency"
  by (auto simp: st_reads_def run_simps sql_GetAccountByID_def sql_ListAccounts_def sql_GetTransferByID_def
      sql_ListTransfersByAccount_def sql_ListTransfersByAccountCursor_def sql_GetEntriesByAccount_def
      sql_GetEntriesByTransfer_def sql_ListHoldsByAccount_def sql_GetAccountBalanceAtTime_def
      sql_SumEntryAmountsByAccount_def sql_GetEntriesByAccountOrdered_def sql_CheckLedgerConsistency_def
      sql_CheckLedgerConsistencyByCurrency_def)

lemma keeps_queries:
  "keeps committed (GetAccount E i)" "keeps committed (ListAccounts E lim off)"
  "keeps committed (GetTransfer E i)" "keeps committed (ListTransfersByAccount E acc lim off)"
  "keeps committed (ListTransfersByAccountCursor E acc cursor lim)"
  "keeps committed (GetEntriesByAccount E acc lim off)" "keeps committed (GetEntriesByTransfer E tr)"
  "keeps committed (GetHistoricalBalance E acc at)" "keeps committed (ListHoldsByAccount E acc lim off)"
  "keeps committed (CheckConsistency E)"
  "keeps committed (auditRepo_List E f)" "keeps committed (auditRepo_GetByResourceID E ty i)"
  unfolding GetAccount_def ListAccounts_def GetTransfer_def ListTransfersByAccount_def
    ListTransfersByAccountCursor_def GetEntriesByAccount_def GetEntriesByTransfer_def GetHistoricalBalance_def
    ListHoldsByAccount_def CheckConsistency_def accountRepo_GetByID_def accountRepo_List_def
    transferRepo_GetByID_def transferRepo_ListByAccount_def transferRepo_ListByAccountCursor_def
    entryRepo_GetByAccount_def entryRepo_GetByTransfer_def entryRepo_GetBalanceAtTime_def
    holdRepo_ListByAccount_def ledgerRepo_CheckConsistency_def auditRepo_List_def
    auditRepo_GetByResourceID_def sql_GetAuditLogsByResource_def Let_def
  by (auto intro!: frame_intros keeps_pool_read sql_reads st_reads_intros split: prod.splits)

section \<open>Effects\<close>

definition ledger_effect :: "hasher \<Rightarrow> 'd::linordered_idom db \<Rightarrow> 'd db \<Rightarrow> bool" where
  "ledger_effect H d d' \<longleftrightarrow> (\<exists>d1. effect d d1 \<and> audits_only H d1 d')"

definition does :: "hasher \<Rightarrow> ('d::linordered_idom server \<Rightarrow> 'x \<times> 'd server) \<Rightarrow> bool" where
  "does H f \<longleftrightarrow> (\<forall>s. sys_inv H (committed (svWorld s)) \<longrightarrow>
     ledger_effect H (committed (svWorld s)) (committed (svWorld (snd (f s)))))"

interpretation doing: pointwise "does H" "\<lambda>s r. sys_inv H (committed (svWorld s)) \<longrightarrow>
    ledger_effect H (committed (svWorld s)) (committed (svWorld (snd r)))" for H
  by unfold_locales (simp add: does_def)

lemmas does_branches [api_intros] = doing.ok_if doing.ok_option

lemma ledger_effect_refl: "ledger_effect H d d"
  unfolding ledger_effect_def using no_effect audits_only_refl by blast

lemma ledger_effect_inv:
  assumes "ledger_effect H d d'" and "sys_inv H d"
  shows "sys_inv H d'"
proof -
  obtain d1 where e: "effect d d1" and a: "audits_only H d1 d'" using assms(1) by (auto simp: ledger_effect_def)
  have "ledger_inv d1 \<and> same_audit d d1"
    using e sys_ledger [OF assms(2)]
    by (elim effectE) (auto simp: same_audit_def intro: posted_inv held_inv released_inv captured_inv opened_inv pass_inv
        dest: effects_same_audit)
  then show ?thesis using effect_inv a assms(2) by blast
qed

lemma ledger_effect_users: "ledger_effect H d d' \<Longrightarrow> usersT d' = usersT d"
  by (auto simp: ledger_effect_def audits_only_def same_ledger_def dest: effect_users)

lemma does_pure [api_intros]: "does H (\<lambda>s. (r, s))"
  by (simp add: doing.ok_pure ledger_effect_refl)

lemma does_reads: "reads f \<Longrightarrow> does H f"
  by (simp add: does_def reads_def ledger_effect_refl)

lemma does_step: "(\<And>w r w'. m w = (r, w') \<Longrightarrow> step H w w') \<Longrightarrow> does H (onWorld m)"
  unfolding does_def ledger_effect_def using step_effect by (metis onWorld_frame(2) prod.collapse)

lemma does_orRespond [api_intros]: "does H m \<Longrightarrow> (\<And>x. reads (k x)) \<Longrightarrow> does H (orRespond m e k)"
  by (simp add: does_def reads_def orRespond_snd split: sum.splits)

lemma does_after_reads:
  assumes "reads m" and "\<And>x. does H (k x)"
  shows "does H (orRespond m e k)"
proof -
  have "committed (svWorld (snd (m s))) = committed (svWorld s)" for s using assms(1) by (simp add: reads_def)
  then show ?thesis using assms(2) unfolding does_def orRespond_snd
    by (metis (no_types, lifting) ledger_effect_refl sum.case_eq_if)
qed

lemma does_use_cases:
  assumes "envHasher E = H"
  shows "does H (onWorld (CreateAccount E ctx ai))" "does H (onWorld (CreateBatchTransfer E R ctx bi))"
    "does H (onWorld (CreateTransfer E R ctx ti))" "does H (onWorld (ReverseTransfer E R ctx i md))"
    "does H (onWorld (HoldFunds E ctx acc amount))" "does H (onWorld (VoidHold E ctx hid))"
    "does H (onWorld (CaptureHold E ctx hid to))"
  using assms by (auto intro!: does_step intro: step.intros elim: CreateTransfer_batch)

lemma does_only_audits: "only_audits H m \<Longrightarrow> does H (onWorld m)"
  unfolding does_def only_audits_def ledger_effect_def using no_effect by (metis onWorld_frame(2))

section \<open>Handlers\<close>

lemmas view_defs =
  AccountHandler_Get_def AccountHandler_List_def TransferHandler_Get_def TransferHandler_ListByAccount_def
  EntryHandler_ListByAccount_def EntryHandler_ListByTransfer_def EntryHandler_GetHistoricalBalance_def
  LedgerHandler_CheckConsistency_def AuditHandler_List_def AuditHandler_Export_def AuditHandler_GetByResource_def
  AuditHandler_GetByUser_def AuthHandler_GetCurrentUser_def

lemmas write_defs =
  AccountHandler_Create_def TransferHandler_Create_def TransferHandler_CreateBatch_def TransferHandler_Reverse_def
  HoldHandler_Create_def HoldHandler_Void_def HoldHandler_Capture_def

lemma reads_handlers [api_intros]:
  "reads (AccountHandler_Get D i rq ctx)" "reads (AccountHandler_List D rq ctx)"
  "reads (TransferHandler_Get D i rq ctx)" "reads (TransferHandler_ListByAccount D i rq ctx)"
  "reads (EntryHandler_ListByAccount D i rq ctx)" "reads (EntryHandler_ListByTransfer D i rq ctx)"
  "reads (EntryHandler_GetHistoricalBalance D i rq ctx)" "reads (LedgerHandler_CheckConsistency D rq ctx)"
  "reads (AuditHandler_List D rq ctx)" "reads (AuditHandler_Export D rq ctx)"
  "reads (AuditHandler_GetByResource D ty i rq ctx)" "reads (AuditHandler_GetByUser D i rq ctx)"
  "reads (AuthHandler_GetCurrentUser D rq ctx)"
  unfolding view_defs Let_def by (intro api_intros keeps_queries)+

lemma reads_health [api_intros]: "reads (HealthHandler_Liveness D rq ctx)" "reads (HealthHandler_Readiness D rq ctx)"
  unfolding HealthHandler_Liveness_def HealthHandler_Readiness_def
  by (intro api_intros keeps_pool_read st_reads_intros)+

lemma does_handlers [api_intros]:
  assumes "envHasher (dpEnv D) = H"
  shows "does H (AccountHandler_Create D rq ctx)" "does H (TransferHandler_Create D rq ctx)"
    "does H (TransferHandler_CreateBatch D rq ctx)" "does H (TransferHandler_Reverse D i rq ctx)"
    "does H (HoldHandler_Create D rq ctx)" "does H (HoldHandler_Void D i rq ctx)"
    "does H (HoldHandler_Capture D i rq ctx)"
  unfolding write_defs by (intro api_intros does_use_cases assms)+

lemma quiet_handlers [api_intros]:
  "quiet (AccountHandler_Get D i rq ctx)" "quiet (AccountHandler_List D rq ctx)"
  "quiet (TransferHandler_Get D i rq ctx)" "quiet (TransferHandler_ListByAccount D i rq ctx)"
  "quiet (EntryHandler_ListByAccount D i rq ctx)" "quiet (EntryHandler_ListByTransfer D i rq ctx)"
  "quiet (EntryHandler_GetHistoricalBalance D i rq ctx)" "quiet (LedgerHandler_CheckConsistency D rq ctx)"
  "quiet (AuditHandler_List D rq ctx)" "quiet (AuditHandler_Export D rq ctx)"
  "quiet (AuditHandler_GetByResource D ty i rq ctx)" "quiet (AuditHandler_GetByUser D i rq ctx)"
  "quiet (AuthHandler_GetCurrentUser D rq ctx)"
  "quiet (AccountHandler_Create D rq ctx)" "quiet (TransferHandler_Create D rq ctx)"
  "quiet (TransferHandler_CreateBatch D rq ctx)" "quiet (TransferHandler_Reverse D i rq ctx)"
  "quiet (HoldHandler_Create D rq ctx)" "quiet (HoldHandler_Void D i rq ctx)" "quiet (HoldHandler_Capture D i rq ctx)"
  unfolding view_defs write_defs Let_def by (intro api_intros)+

section \<open>Login\<close>

lemma auditLogin_audits:
  "envHasher (dpEnv D) = H \<Longrightarrow> only_audits H (auditLogin D rq ctx email uid st failure)"
  unfolding auditLogin_def Let_def
  by (auto intro!: only_audits_intros)

lemma login_stages:
  obtains v where "committed v = committed (svWorld s)"
    "svWorld (snd (AuthHandler_Login D rq ctx s)) = v \<or>
     (\<exists>email uid st failure. svWorld (snd (AuthHandler_Login D rq ctx s)) = snd (auditLogin D rq ctx email uid st failure v))"
proof (cases "decodeBody rq decodeLogin \<lparr>loEmail = [], loPassword = []\<rparr>")
  case None
  then show ?thesis by (intro that [of "svWorld s"]) (simp_all add: AuthHandler_Login_def)
next
  case (Some req)
  obtain r1 w1 where a: "Authenticate (dpEnv D) (dpUsers D) (loEmail req) (loPassword req) (svWorld s) = (r1, w1)" by fastforce
  have c1: "committed w1 = committed (svWorld s)" using keepsD [OF Authenticate_keeps a] .
  show ?thesis
  proof (cases r1)
    case (Inl e)
    then show ?thesis using Some a c1
      by (intro that [of w1]) (simp_all add: AuthHandler_Login_def onWorld_run, blast)
  next
    case (Inr u)
    obtain r2 w2 where g: "JWT_Generate (dpEnv D) (dpJwt D) (dpManager D) u w1 = (r2, w2)" by fastforce
    have "committed w2 = committed (svWorld s)" using keepsD [OF keeps_JWT_Generate g] c1 by simp
    then show ?thesis using Some a g Inr
      by (intro that [of w2]) (simp, cases r2, simp_all add: AuthHandler_Login_def onWorld_run, blast)
  qed
qed

lemma does_Login [api_intros]:
  assumes "envHasher (dpEnv D) = H"
  shows "does H (AuthHandler_Login D rq ctx)"
  unfolding does_def
proof (intro allI impI)
  fix s
  obtain v where v: "committed v = committed (svWorld s)"
    "svWorld (snd (AuthHandler_Login D rq ctx s)) = v \<or>
     (\<exists>email uid st failure. svWorld (snd (AuthHandler_Login D rq ctx s)) = snd (auditLogin D rq ctx email uid st failure v))"
    using login_stages by blast
  have "audits_only H (committed v) (committed (snd (auditLogin D rq ctx email uid st failure v)))" for email uid st failure
    using auditLogin_audits [OF assms] by (simp add: only_audits_def)
  then have "audits_only H (committed (svWorld s)) (committed (svWorld (snd (AuthHandler_Login D rq ctx s))))"
    using v by auto
  then show "ledger_effect H (committed (svWorld s)) (committed (svWorld (snd (AuthHandler_Login D rq ctx s))))"
    unfolding ledger_effect_def using no_effect by blast
qed

lemma quiet_Login [api_intros]: "quiet (AuthHandler_Login D rq ctx)"
  by (auto simp: quiet_def AuthHandler_Login_def onWorld_def split: option.split prod.split sum.split)

section \<open>The router\<close>

lemma reads_AuthMiddleware: "(\<And>ctx. reads (h rq ctx)) \<Longrightarrow> reads (AuthMiddleware E J m h rq ctx)"
  unfolding AuthMiddleware_def Let_def by (intro api_intros frame_intros) simp_all

lemma does_AuthMiddleware: "(\<And>ctx. does H (h rq ctx)) \<Longrightarrow> does H (AuthMiddleware E J m h rq ctx)"
  unfolding AuthMiddleware_def Let_def
  by (intro doing.ok_if doing.ok_option does_pure does_after_reads reads_onWorld frame_intros) simp_all

lemma quiet_AuthMiddleware: "(\<And>ctx. quiet (h rq ctx)) \<Longrightarrow> quiet (AuthMiddleware E J m h rq ctx)"
  unfolding AuthMiddleware_def Let_def by (intro api_intros) simp_all

lemma requireAuth_intros [api_intros]:
  "(\<And>ctx. reads (h rq ctx)) \<Longrightarrow> reads (requireAuth D h rq ctx)"
  "(\<And>ctx. does H (h rq ctx)) \<Longrightarrow> does H (requireAuth D h rq ctx)"
  "(\<And>ctx. quiet (h rq ctx)) \<Longrightarrow> quiet (requireAuth D h rq ctx)"
  by (simp_all add: requireAuth_def reads_AuthMiddleware does_AuthMiddleware quiet_AuthMiddleware)

lemma requireRole_intros [api_intros]:
  "reads (h rq ctx) \<Longrightarrow> reads (requireRole D r h rq ctx)"
  "does H (h rq ctx) \<Longrightarrow> does H (requireRole D r h rq ctx)"
  "quiet (h rq ctx) \<Longrightarrow> quiet (requireRole D r h rq ctx)"
  unfolding requireRole_def RequireRole_def
  by (cases "dpAuthEnabled D"; simp; intro api_intros; assumption)+

lemma optionalRole_intros [api_intros]:
  "reads (h rq ctx) \<Longrightarrow> reads (optionalRole D r h rq ctx)"
  "does H (h rq ctx) \<Longrightarrow> does H (optionalRole D r h rq ctx)"
  "quiet (h rq ctx) \<Longrightarrow> quiet (optionalRole D r h rq ctx)"
  unfolding optionalRole_def by (auto intro: api_intros split: option.split)

lemma notFound_intros [api_intros]: "reads (notFound D rq ctx)" "quiet (notFound D rq ctx)" "does H (notFound D rq ctx)"
  by (simp_all add: notFound_def reads_def quiet_def does_def ledger_effect_refl)

lemma miss_intros [api_intros]:
  fixes D :: "'d::linordered_idom deps"
  shows "reads (missRoute D p rq ctx)" "quiet (missRoute D p rq ctx)"
  unfolding missRoute_def by (intro api_intros)+

lemma viewRoutes_read:
  "r \<in> set (viewRoutes D) \<Longrightarrow> rtMethod r = ''GET'' \<and> reads (rtHandler r vs rq ctx) \<and> quiet (rtHandler r vs rq ctx)"
  unfolding viewRoutes_def rt_def by (simp only: set_simps insert_iff empty_iff)
    (elim disjE FalseE; simp only: route.select_convs simp_thms; intro conjI api_intros)

lemma writeRoutes_do:
  "r \<in> set (writeRoutes D) \<Longrightarrow> rtMethod r = ''POST'' \<and> quiet (rtHandler r vs rq ctx) \<and>
     (envHasher (dpEnv D) = H \<longrightarrow> does H (rtHandler r vs rq ctx))"
  unfolding writeRoutes_def rt_def by (simp only: set_simps insert_iff empty_iff)
    (elim disjE FalseE; simp only: route.select_convs simp_thms; intro conjI impI api_intros; assumption)

lemma findRoute_Some:
  "findRoute m p rs = Some (r, vs) \<Longrightarrow> r \<in> set rs \<and> rtMethod r = m \<and> matchPath (rtPattern r) p = Some vs"
  by (induction rs) (auto split: option.splits if_splits)

lemma routes_intros:
  assumes "findRoute m p (viewRoutes D @ writeRoutes D) = Some (r, vs)"
  shows "quiet (rtHandler r vs rq ctx)" "envHasher (dpEnv D) = H \<Longrightarrow> does H (rtHandler r vs rq ctx)"
    "m = ''GET'' \<Longrightarrow> reads (rtHandler r vs rq ctx)"
proof -
  have r: "r \<in> set (viewRoutes D) \<or> r \<in> set (writeRoutes D)" "rtMethod r = m"
    using findRoute_Some [OF assms] by auto
  show "quiet (rtHandler r vs rq ctx)" "envHasher (dpEnv D) = H \<Longrightarrow> does H (rtHandler r vs rq ctx)"
    using r viewRoutes_read [of r D vs rq ctx] writeRoutes_do [of r D vs rq ctx H] does_reads by blast+
  show "m = ''GET'' \<Longrightarrow> reads (rtHandler r vs rq ctx)"
    using r viewRoutes_read [of r D vs rq ctx] writeRoutes_do [of r D vs rq ctx H] by auto
qed

lemma apiRoutes_cases:
  obtains (login) "apiRoutes D p rq ctx = AuthHandler_Login D rq ctx" "rqMethod rq = ''POST''" "p = [''auth'', ''login'']"
    | (miss) "apiRoutes D p rq ctx = missRoute D p rq ctx"
    | (route) r vs where "findRoute (rqMethod rq) p (viewRoutes D @ writeRoutes D) = Some (r, vs)"
        "apiRoutes D p rq ctx = requireAuth D (optionalRole D (rtRole r) (rtHandler r vs)) rq ctx"
proof (cases "rqMethod rq = ''POST'' \<and> p = [''auth'', ''login'']")
  case True
  then show ?thesis by (intro login) (simp_all add: apiRoutes_def fun_eq_iff)
next
  case False
  show ?thesis
  proof (cases "findRoute (rqMethod rq) p (viewRoutes D @ writeRoutes D)")
    case None
    then show ?thesis using False by (intro miss) (auto simp: apiRoutes_def fun_eq_iff)
  next
    case (Some x)
    then show ?thesis using False by (cases x) (auto simp: apiRoutes_def fun_eq_iff intro!: route)
  qed
qed

lemma quiet_apiRoutes: "quiet (apiRoutes D p rq ctx)"
  by (cases rule: apiRoutes_cases [of D p rq ctx]) (simp_all add: api_intros routes_intros(1))

lemma does_apiRoutes: "envHasher (dpEnv D) = H \<Longrightarrow> does H (apiRoutes D p rq ctx)"
  by (cases rule: apiRoutes_cases [of D p rq ctx])
    (simp_all add: does_Login does_reads [OF miss_intros(1)] requireAuth_intros(2) optionalRole_intros(2) routes_intros(2))

lemma reads_apiRoutes: "rqMethod rq = ''GET'' \<Longrightarrow> reads (apiRoutes D p rq ctx)"
  by (cases rule: apiRoutes_cases [of D p rq ctx])
    (simp_all add: miss_intros(1) requireAuth_intros(1) optionalRole_intros(1) routes_intros(3))

lemma recordResponse_world:
  "svWorld (snd (recordResponse R key h rq ctx s)) = svWorld (snd (h rq ctx s))"
  "fst (recordResponse R key h rq ctx s) = fst (h rq ctx s)"
  by (simp_all add: recordResponse_def split: prod.split)

text \<open>The middleware answers by itself or hands on a state with the same database.\<close>

lemma Wrap_world:
  obtains (answered) "svWorld (snd (Wrap R h rq ctx s)) = svWorld s"
    | (handled) s' where "svWorld s' = svWorld s" "svWorld (snd (Wrap R h rq ctx s)) = svWorld (snd (h rq ctx s'))"
      "fst (Wrap R h rq ctx s) = fst (h rq ctx s')"
proof -
  let ?key = "Header_Get rq ''Idempotency-Key''"
  obtain r s1 where chk: "onRedis (CheckAndSet R ?key None) s = (r, s1)" by fastforce
  then have w: "svWorld s1 = svWorld s" by (auto simp: onRedis_run)
  consider (plain) "Wrap R h rq ctx s = h rq ctx s"
    | (failed) e where "Wrap R h rq ctx s = (http_Error ''idempotency check failed'' StatusInternalServerError, s1)"
    | (cached) b where "Wrap R h rq ctx s = (replayed b, s1)"
    | (run) "Wrap R h rq ctx s = recordResponse R ?key h rq ctx s1"
  proof (cases "rqMethod rq \<noteq> ''POST'' \<and> rqMethod rq \<noteq> ''PUT'' \<or> ?key = []")
    case True
    then show ?thesis by (intro plain) (auto simp: Wrap_def Let_def)
  next
    case False
    show ?thesis
    proof (cases r)
      case (Inl e)
      then show ?thesis using False chk by (intro failed) (auto simp: Wrap_def Let_def)
    next
      case (Inr x)
      obtain found c where x: "x = (found, c)" by fastforce
      show ?thesis
      proof (cases "found \<and> c \<noteq> None \<and> c \<noteq> Some processing")
        case True
        then obtain b where "c = Some b" "b \<noteq> processing" by auto
        then show ?thesis using False True Inr x chk by (intro cached [of b]) (auto simp: Wrap_def Let_def)
      next
        case no: False
        then show ?thesis using False Inr x chk
          by (intro run) (auto simp: Wrap_def Let_def split: option.split)
      qed
    qed
  qed
  then show ?thesis using answered handled w by cases (simp_all add: recordResponse_world)
qed

lemma reads_Wrap: "reads (h rq ctx) \<Longrightarrow> reads (Wrap R h rq ctx)"
  unfolding reads_def
proof
  fix s :: "'a server" assume h: "\<forall>s. committed (svWorld (snd (h rq ctx s))) = committed (svWorld s)"
  show "committed (svWorld (snd (Wrap R h rq ctx s))) = committed (svWorld s)"
    by (rule Wrap_world [of R h rq ctx s]) (simp_all add: h)
qed

lemma does_Wrap: "does H (h rq ctx) \<Longrightarrow> does H (Wrap R h rq ctx)"
  unfolding does_def
proof (intro allI impI)
  fix s :: "'a server" assume h: "\<forall>s. sys_inv H (committed (svWorld s)) \<longrightarrow>
      ledger_effect H (committed (svWorld s)) (committed (svWorld (snd (h rq ctx s))))"
    and i: "sys_inv H (committed (svWorld s))"
  show "ledger_effect H (committed (svWorld s)) (committed (svWorld (snd (Wrap R h rq ctx s))))"
  proof (rule Wrap_world [of R h rq ctx s])
    fix s' assume "svWorld s' = svWorld s" "svWorld (snd (Wrap R h rq ctx s)) = svWorld (snd (h rq ctx s'))"
      "fst (Wrap R h rq ctx s) = fst (h rq ctx s')"
    then show ?thesis using h i by metis
  qed (simp add: ledger_effect_refl)
qed

lemma NewRouter_intros:
  "envHasher (dpEnv D) = H \<Longrightarrow> does H (NewRouter D rq ctx)"
  "rqMethod rq = ''GET'' \<Longrightarrow> reads (NewRouter D rq ctx)"
  unfolding NewRouter_def RequestMeta_def
  by (intro doing.ok_if does_pure does_reads [OF reads_health(1)] does_reads [OF reads_health(2)]
      reads_Wrap does_Wrap does_apiRoutes reads_apiRoutes notFound_intros; assumption)
    (intro reading.ok_if unchanged_intros(1) reads_health reads_Wrap does_Wrap does_apiRoutes reads_apiRoutes notFound_intros; assumption)

section \<open>gRPC\<close>

lemma answer_snd: "snd (answer f m s) = snd (onWorld m s)"
  by (simp add: answer_def bindM_def withStatus_def split: prod.split sum.split)

lemma answer_intros [api_intros]:
  "keeps committed m \<Longrightarrow> reads (answer f m)" "does H (onWorld m) \<Longrightarrow> does H (answer f m)" "quiet (answer f m)"
  by (simp_all add: reads_def does_def quiet_def answer_snd keeps_def)

lemma raise_intros [api_intros]: "reads (raiseM e)" "does H (raiseM e)" "quiet (raiseM e)"
  by (simp_all add: reads_def does_def quiet_def ledger_effect_refl)

lemmas server_defs =
  AccountServer_CreateAccount_def AccountServer_GetAccount_def AccountServer_ListAccounts_def
  TransferServer_CreateTransfer_def TransferServer_CreateBatchTransfer_def TransferServer_GetTransfer_def
  TransferServer_ListTransfersByAccount_def TransferServer_ReverseTransfer_def HoldServer_HoldFunds_def
  HoldServer_VoidHold_def HoldServer_CaptureHold_def HoldServer_ListHoldsByAccount_def

lemma does_serve:
  assumes "envHasher (dpEnv D) = H"
  shows "does H (serve D q ctx)"
proof -
  note u = does_use_cases [OF assms]
  show ?thesis
    by (cases q) (simp_all add: server_defs answer_intros(2) u raise_intros(2) does_reads [OF answer_intros(1)] keeps_queries
        split: option.split sum.split)
qed

lemma quiet_serve:
  fixes D :: "'d::linordered_idom deps"
  shows "quiet (serve D q ctx)"
  by (cases q) (simp_all add: server_defs answer_intros(3) raise_intros(3) split: option.split sum.split)

lemma reads_serve:
  fixes D :: "'d::linordered_idom deps"
  shows "isReadOnlyMethod (FullMethod q) \<Longrightarrow> reads (serve D q ctx)"
  by (cases q) (simp_all add: server_defs answer_intros(1) keeps_queries isReadOnlyMethod_def readOnlyMethods_def)

text \<open>Interceptors answer by themselves, with an error, or hand on a state with the same database.\<close>

definition passes_on :: "('d, 'q, 'r) interceptor \<Rightarrow> bool" where
  "passes_on i \<longleftrightarrow> (\<forall>h call ctx s.
     (\<exists>e s'. i h call ctx s = (Inl e, s') \<and> committed (svWorld s') = committed (svWorld s)) \<or>
     (\<exists>ctx' s'. i h call ctx s = h call ctx' s' \<and> committed (svWorld s') = committed (svWorld s)))"

lemma passes_onE:
  assumes "passes_on i"
  obtains (refused) e s' where "i h call ctx s = (Inl e, s')" "committed (svWorld s') = committed (svWorld s)"
    | (handled) ctx' s' where "i h call ctx s = h call ctx' s'" "committed (svWorld s') = committed (svWorld s)"
  using assms unfolding passes_on_def by blast

lemma passes_on_Auth: "passes_on (AuthInterceptor E J m)"
  unfolding passes_on_def
proof (intro allI)
  fix h call ctx s
  show "(\<exists>e s'. AuthInterceptor E J m h call ctx s = (Inl e, s') \<and> committed (svWorld s') = committed (svWorld s)) \<or>
     (\<exists>ctx' s'. AuthInterceptor E J m h call ctx s = h call ctx' s' \<and> committed (svWorld s') = committed (svWorld s))"
  proof (cases "gcMetadata call")
    case (Some md)
    show ?thesis
    proof (cases "MD_Get md ''authorization''")
      case (Cons v vs)
      obtain r w where v: "Verify E J m (TrimPrefix v ''Bearer '') (svWorld s) = (r, w)" by fastforce
      then have "committed w = committed (svWorld s)" using keepsD [OF keeps_Verify] by metis
      then show ?thesis using Some Cons v
        by (cases r) (auto simp: AuthInterceptor_def onWorld_def intro!: exI [of _ "s\<lparr>svWorld := w\<rparr>"])
    qed (use Some in \<open>auto simp: AuthInterceptor_def\<close>)
  qed (auto simp: AuthInterceptor_def)
qed

lemma passes_on_MethodRole: "passes_on (MethodRoleInterceptor roles)"
  by (auto simp: passes_on_def MethodRoleInterceptor_def RequireRoleInterceptor_def GetUserFromContext_def
      split: option.split)

lemma passes_on_Idempotency: "passes_on (IdempotencyInterceptor store hash)"
  unfolding passes_on_def
proof (intro allI)
  fix h call ctx s
  let ?I = "IdempotencyInterceptor store hash h call ctx s"
  consider (plain) "?I = h call ctx s" | (refused) e where "?I = (Inl e, s)"
    | (store) R key g where "?I = (case onRedis (CheckAndSet R key (Some g)) s of
          (Inl e, s') \<Rightarrow> h call ctx s'
        | (Inr (found, cached), s') \<Rightarrow>
            if found
            then if (case cached of None \<Rightarrow> [] | Some b \<Rightarrow> b) \<noteq> g
                 then (Inl (CodeInvalidArgument, ''idempotency key reused with different request body''), s')
                 else (Inl (CodeAlreadyExists, ''request already processed (idempotent)''), s')
            else h call ctx s')"
    unfolding IdempotencyInterceptor_def
    by (cases "isReadOnlyMethod (gcMethod call)"; cases "gcMetadata call"; simp; rename_tac md;
        case_tac "MD_Get md ''x-idempotency-key''"; simp; rename_tac k ks;
        case_tac "k = []"; simp; case_tac "hash (gcRequest call)"; simp; case_tac store; simp)
  then show "(\<exists>e s'. ?I = (Inl e, s') \<and> committed (svWorld s') = committed (svWorld s)) \<or>
     (\<exists>ctx' s'. ?I = h call ctx' s' \<and> committed (svWorld s') = committed (svWorld s))"
  proof cases
    case (store R key g)
    obtain r s1 where c: "onRedis (CheckAndSet R key (Some g)) s = (r, s1)" by fastforce
    then have w: "svWorld s1 = svWorld s" by (auto simp: onRedis_run)
    have "?I = h call ctx s1 \<or> (\<exists>e. ?I = (Inl e, s1))"
      using store c by (cases r) (auto split: if_splits)
    then show ?thesis using w by metis
  qed auto
qed

lemma does_passes_on:
  fixes i :: "('d::linordered_idom, 'q, 'r) interceptor"
  assumes "passes_on i" and "\<And>ctx. does H (h call ctx)"
  shows "does H (i h call ctx)"
  unfolding does_def
proof (intro allI impI)
  fix s :: "'d server" assume inv: "sys_inv H (committed (svWorld s))"
  show "ledger_effect H (committed (svWorld s)) (committed (svWorld (snd (i h call ctx s))))"
  proof (rule passes_onE [OF assms(1), of h call ctx s])
    fix ctx' s' assume s': "i h call ctx s = h call ctx' s'" "committed (svWorld s') = committed (svWorld s)"
    then show ?thesis using assms(2) [of ctx'] inv unfolding does_def by (metis s')
  qed (simp add: ledger_effect_refl)
qed

lemma does_grpcServe:
  assumes "envHasher (dpEnv D) = H"
  shows "does H (grpcServe D marshal call ctx)"
  unfolding grpcServe_def ChainUnaryServer_def unaryInterceptors_def
  by (cases "dpAuthEnabled D")
    (simp_all add: does_passes_on passes_on_Idempotency passes_on_Auth passes_on_MethodRole does_serve assms)

section \<open>The server as a step relation\<close>

text \<open>Reconciliation reads.\<close>

lemma keeps_succeeds: "keeps committed m \<Longrightarrow> keeps committed (succeeds m)"
  by (simp add: keeps_def succeeds_def split: prod.split sum.split) (metis snd_conv)

lemma keeps_prefixErr: "keeps committed m \<Longrightarrow> keeps committed (prefixErr s m)"
  unfolding prefixErr_def by (intro frame_intros)

lemma keeps_reconciliation:
  "keeps committed (ReconcileAccount E i)" "keeps committed (VerifyEntryChain E i)"
  "keeps committed (ReconcileAllAccounts E)" "keeps committed (CheckLedgerConsistency E dec)"
proof -
  show *: "keeps committed (ReconcileAccount E i)" for E :: env and i
    unfolding ReconcileAccount_def accountRepo_GetByID_def entryRepo_SumAmountsByAccount_def Let_def
    by (intro frame_intros keeps_pool_read sql_reads)
  show "keeps committed (VerifyEntryChain E i)"
    unfolding VerifyEntryChain_def entryRepo_GetAllByAccountOrdered_def Let_def
    by (intro frame_intros keeps_pool_read sql_reads)
  show "keeps committed (CheckLedgerConsistency E dec)"
    unfolding CheckLedgerConsistency_def ledgerRepo_CheckConsistencyByCurrency_def Let_def
    by (intro frame_intros keeps_pool_read sql_reads)
  show "keeps committed (ReconcileAllAccounts E)"
    unfolding ReconcileAllAccounts_def accountRepo_List_def
    by (auto intro!: frame_intros keeps_pool_read sql_reads keeps_prefixErr * split: prod.split)
qed

lemma keeps_report: "keeps committed (GenerateReconciliationReport E dec)"
  unfolding GenerateReconciliationReport_def
  by (intro frame_intros keeps_succeeds keeps_prefixErr keeps_reconciliation)

lemma runOnce_reads: "committed (snd (runOnce E dec w)) = committed w"
  by (auto simp: runOnce_def dest: keepsD [OF keeps_report] split: prod.split sum.split)

end
