(* ===== verification/Service.thy ===== *)
theory Service
  imports Api
begin

text \<open>
  The server as a step relation: HTTP requests, gRPC calls, publisher passes, reconciliation runs
  and user administration, in any order, each with the outside it happens to meet. What any of them may do
  to the database, and the invariant of the states they reach.
\<close>

section \<open>Steps of the server\<close>

inductive serves :: "hasher \<Rightarrow> 'd::linordered_idom server \<Rightarrow> 'd server \<Rightarrow> bool" for H where
  serves_http: "envHasher (dpEnv D) = H \<Longrightarrow> NewRouter D rq Background s = (resp, s') \<Longrightarrow> serves H s s'"
| serves_grpc: "envHasher (dpEnv D) = H \<Longrightarrow> gcMethod call = FullMethod (gcRequest call) \<Longrightarrow>
    grpcServe D marshal call Background s = (r, s') \<Longrightarrow> serves H s s'"
| serves_publisher: "onWorld (processEvents E publish cfg) s = (ru, s') \<Longrightarrow> serves H s s'"
| serves_reconciliation: "runOnce E dec (svWorld s) = (out, w) \<Longrightarrow> serves H s (s\<lparr>svWorld := w\<rparr>)"
| serves_create_user: "onWorld (CreateUser E U ui) s = (rs, s') \<Longrightarrow> serves H s s'"
| serves_update_user: "onWorld (UpdateUser E U uu) s = (rs, s') \<Longrightarrow> serves H s s'"
| serves_delete_user: "onWorld (DeleteUser E i) s = (ru, s') \<Longrightarrow> serves H s s'"

inductive_cases servesE: "serves H s s'"

text \<open>What a step does to the database: an effect of the ledger with its audit rows, or a change of the
  table of users and of nothing else.\<close>

definition user_effect :: "'d db \<Rightarrow> 'd db \<Rightarrow> bool" where
  "user_effect d d' \<longleftrightarrow> but_users d' = but_users d \<and> user_change (usersT d) (usersT d')"

lemma does_run:
  assumes "does H f" and "f s = (r, s')" and "sys_inv H (committed (svWorld s))"
  shows "ledger_effect H (committed (svWorld s)) (committed (svWorld s'))"
  using assms unfolding does_def by (metis snd_conv)

lemma onWorld_result: "onWorld m s = (r, s') \<Longrightarrow> m (svWorld s) = (r, svWorld s') \<and> svRedis s' = svRedis s"
  by (auto simp: onWorld_def split: prod.splits)

lemma user_step:
  assumes "\<And>us. changes_users us m" and "onWorld m s = (r, s')"
  shows "user_effect (committed (svWorld s)) (committed (svWorld s'))"
  using changes_usersD [OF assms(1)] onWorld_result [OF assms(2)] unfolding user_effect_def by blast

lemma serves_effect:
  assumes "serves H s s'" and inv: "sys_inv H (committed (svWorld s))"
  shows "ledger_effect H (committed (svWorld s)) (committed (svWorld s')) \<or>
    user_effect (committed (svWorld s)) (committed (svWorld s'))"
  using assms(1)
proof cases
  case (serves_http D rq resp)
  then show ?thesis using does_run [OF NewRouter_intros(1) _ inv] by blast
next
  case (serves_grpc D call marshal r)
  then show ?thesis using does_run [OF does_grpcServe _ inv] by blast
next
  case (serves_publisher E publish cfg ru)
  then have "step H (svWorld s) (svWorld s')" using onWorld_result step_publish by blast
  then show ?thesis using step_effect inv unfolding ledger_effect_def by blast
next
  case (serves_reconciliation E dec out w)
  then have "committed w = committed (svWorld s)" using runOnce_reads [of E dec "svWorld s"] by simp
  then show ?thesis using serves_reconciliation(1) by (simp add: ledger_effect_refl)
next
  case (serves_create_user E U ui rs)
  then show ?thesis using user_step CreateUser_changes by blast
next
  case (serves_update_user E U uu rs)
  then show ?thesis using user_step UpdateUser_changes by blast
next
  case (serves_delete_user E i ru)
  then show ?thesis using user_step DeleteUser_changes by blast
qed

section \<open>The invariant of the server\<close>

definition server_inv :: "hasher \<Rightarrow> 'd::linordered_idom server \<Rightarrow> bool" where
  "server_inv H s \<longleftrightarrow> sys_inv H (committed (svWorld s)) \<and> users_ok (committed (svWorld s))"

definition fresh :: "'d server \<Rightarrow> bool" where
  "fresh s \<longleftrightarrow> committed (svWorld s) = empty_db"

definition server_reachable :: "hasher \<Rightarrow> 'd::linordered_idom server \<Rightarrow> bool" where
  "server_reachable H s \<longleftrightarrow> (\<exists>s0. fresh s0 \<and> (serves H)\<^sup>*\<^sup>* s0 s)"

lemma ledger_inv_but_users: "ledger_inv (but_users d) = ledger_inv d"
  by (simp add: but_users_def ledger_inv_def keys_ok_def checks_ok_def chains_ok_def transfers_ok_def reversals_ok_def
      holds_ok_def outbox_ok_def double_entry_def currency_of_def account_entries_def transfer_entries_def)

lemma sys_inv_but_users: "sys_inv H (but_users d) = sys_inv H d"
  unfolding sys_inv_def ledger_inv_but_users by (simp add: but_users_def audit_ok_def)

lemma user_effect_inv:
  assumes "user_effect d d'" and "sys_inv H d" and "users_ok d"
  shows "sys_inv H d' \<and> users_ok d'"
proof
  have b: "but_users d' = but_users d" and c: "user_change (usersT d) (usersT d')"
    using assms(1) by (simp_all add: user_effect_def)
  show "sys_inv H d'" using assms(2) sys_inv_but_users [of H d] sys_inv_but_users [of H d'] b by simp
  show "users_ok d'" using user_change_ok [OF c] assms(3) by (simp add: users_ok_def)
qed

lemma serves_inv:
  assumes "serves H s s'" and "server_inv H s"
  shows "server_inv H s'"
proof -
  have inv: "sys_inv H (committed (svWorld s))" "users_ok (committed (svWorld s))"
    using assms(2) by (simp_all add: server_inv_def)
  from serves_effect [OF assms(1) inv(1)] show ?thesis
  proof
    assume e: "ledger_effect H (committed (svWorld s)) (committed (svWorld s'))"
    show ?thesis using ledger_effect_inv [OF e inv(1)] ledger_effect_users [OF e] inv(2)
      by (simp add: server_inv_def users_ok_def)
  next
    assume "user_effect (committed (svWorld s)) (committed (svWorld s'))"
    from user_effect_inv [OF this inv] show ?thesis by (simp add: server_inv_def)
  qed
qed

interpretation service: step_invariant fresh "serves H" "server_inv H" for H
proof
  show "fresh s \<Longrightarrow> server_inv H s" for s
    by (simp add: fresh_def server_inv_def sys_inv_def ledger_inv_empty audit_ok_empty users_ok_empty)
qed (rule serves_inv)

lemma server_reachable_inv: "server_reachable H s \<Longrightarrow> server_inv H s"
  unfolding server_reachable_def using service.reachable_ok by blast

lemma server_reachable_step: "server_reachable H s \<Longrightarrow> serves H s s' \<Longrightarrow> server_reachable H s'"
  unfolding server_reachable_def by (meson rtranclp.rtrancl_into_rtrancl)

section \<open>The record of the past\<close>

lemma ledger_effect_past:
  assumes "ledger_effect H d d'" and "sys_inv H d"
  shows "past_kept d d'"
  using assms effect_past_kept audits_past_kept sys_ledger unfolding ledger_effect_def by blast

lemma but_users_past:
  assumes "but_users d' = but_users d"
  shows "past_kept d d'"
proof -
  have "transfersT d' = transfersT d" "entriesT d' = entriesT d" "holdsT d' = holdsT d" "auditT d' = auditT d"
    using arg_cong [OF assms, of auditT] arg_cong [OF assms, of transfersT] arg_cong [OF assms, of entriesT] arg_cong [OF assms, of holdsT]
    by (simp_all add: but_users_def)
  then show ?thesis by (simp add: past_kept_def)
qed

lemma serves_past_kept:
  assumes "serves H s s'" and "server_inv H s"
  shows "past_kept (committed (svWorld s)) (committed (svWorld s'))"
proof -
  have inv: "sys_inv H (committed (svWorld s))" using assms(2) by (simp add: server_inv_def)
  from serves_effect [OF assms(1) inv] show ?thesis
    by (auto intro: ledger_effect_past [OF _ inv] but_users_past simp: user_effect_def)
qed

interpretation service_history: step_history fresh "serves H" "server_inv H"
    "\<lambda>s s'. past_kept (committed (svWorld s)) (committed (svWorld s'))" for H
  by unfold_locales (auto intro: past_kept_refl past_kept_trans serves_past_kept)

end
