(* ===== verification/Guards.thy ===== *)
theory Guards
  imports Service
begin

text \<open>
  What the outcome and the caller of a request say about its effect: a request answered with an error left
  the ledger alone, and with authentication on only the right roles change it. Both follow the shape of
  the code, handler by handler and route by route.
\<close>

section \<open>Errors change nothing\<close>

definition fails_clean :: "('d server \<Rightarrow> ('e + 'x) \<times> 'd server) \<Rightarrow> bool" where
  "fails_clean f \<longleftrightarrow> (\<forall>s e s'. f s = (Inl e, s') \<longrightarrow> same_ledger (committed (svWorld s)) (committed (svWorld s')))"

definition success_status :: "response \<Rightarrow> bool" where
  "success_status resp \<longleftrightarrow> 200 \<le> rsStatus resp \<and> rsStatus resp < 300"

definition faithful :: "('d server \<Rightarrow> response \<times> 'd server) \<Rightarrow> bool" where
  "faithful f \<longleftrightarrow> (\<forall>s. success_status (fst (f s)) \<or>
     same_ledger (committed (svWorld s)) (committed (svWorld (snd (f s)))))"

named_theorems clean_intros "how clean failures compose"

interpretation being_faithful: pointwise faithful "\<lambda>s r. success_status (fst r) \<or>
    same_ledger (committed (svWorld s)) (committed (svWorld (snd r)))"
  by unfold_locales (simp add: faithful_def)

lemmas faithful_branches [clean_intros] = being_faithful.ok_if being_faithful.ok_option

lemma faithful_pure [clean_intros]: "faithful (\<lambda>s. (r, s))"
  by (simp add: being_faithful.ok_pure)

lemma faithful_reads: "reads f \<Longrightarrow> faithful f"
  by (simp add: faithful_def reads_def)

lemma faithful_orRespond [clean_intros]:
  "fails_clean m \<Longrightarrow> (\<And>x s. success_status (fst (k x s))) \<Longrightarrow> faithful (orRespond m e k)"
  unfolding faithful_def fails_clean_def orRespond_def
  by (auto split: prod.splits sum.splits)

lemma clean_onWorld: "(\<And>w e w'. m w = (Inl e, w') \<Longrightarrow> same_ledger (committed w) (committed w')) \<Longrightarrow> fails_clean (onWorld m)"
  unfolding fails_clean_def using onWorld_result by blast

lemma clean_reads: "reads f \<Longrightarrow> fails_clean f"
  unfolding fails_clean_def reads_def by (metis same_ledger_refl snd_conv)

lemma batch_clean: "CreateBatchTransfer E R ctx bi w = (Inl e, w') \<Longrightarrow> same_ledger (committed w) (committed w')"
  using CreateBatchTransfer_failed effect_audited by blast

lemma clean_use_cases [clean_intros]:
  "fails_clean (onWorld (CreateAccount E ctx ai))" "fails_clean (onWorld (CreateBatchTransfer E R ctx bi))"
  "fails_clean (onWorld (CreateTransfer E R ctx ti))" "fails_clean (onWorld (ReverseTransfer E R ctx i md))"
  "fails_clean (onWorld (HoldFunds E ctx acc amount))" "fails_clean (onWorld (VoidHold E ctx hid))"
  "fails_clean (onWorld (CaptureHold E ctx hid to))"
proof -
  show "fails_clean (onWorld (CreateTransfer E R ctx ti))"
    by (rule clean_onWorld, erule CreateTransfer_batch) (auto split: sum.splits dest: batch_clean)
  show "fails_clean (onWorld (ReverseTransfer E R ctx i md))"
    by (rule clean_onWorld, drule ReverseTransfer_batch, elim disjE exE conjE)
      (auto split: sum.splits dest!: batch_clean)
qed (rule clean_onWorld; blast dest: CreateAccount_failed batch_clean HoldFunds_failed VoidHold_failed
    CaptureHold_failed effect_audited)+

lemma success_writeJSON [simp]: "success_status (writeJSON L st d) \<longleftrightarrow> 200 \<le> st \<and> st < 300"
  by (simp add: success_status_def writeJSON_def)

lemma faithful_writes [clean_intros]:
  "faithful (AccountHandler_Create D rq ctx)" "faithful (TransferHandler_Create D rq ctx)"
  "faithful (TransferHandler_CreateBatch D rq ctx)" "faithful (TransferHandler_Reverse D i rq ctx)"
  "faithful (HoldHandler_Create D rq ctx)" "faithful (HoldHandler_Void D i rq ctx)"
  "faithful (HoldHandler_Capture D i rq ctx)"
  unfolding write_defs
  by ((intro clean_intros; simp add: status_defs); simp add: success_status_def status_defs)+

text \<open>Login writes audit rows only.\<close>

lemma same_ledger_Login: "same_ledger (committed (svWorld s)) (committed (svWorld (snd (AuthHandler_Login D rq ctx s))))"
proof -
  obtain v where v: "committed v = committed (svWorld s)"
    "svWorld (snd (AuthHandler_Login D rq ctx s)) = v \<or>
     (\<exists>email uid st failure. svWorld (snd (AuthHandler_Login D rq ctx s)) = snd (auditLogin D rq ctx email uid st failure v))"
    using login_stages by blast
  have "same_ledger (committed v) (committed (snd (auditLogin D rq ctx email uid st failure v)))" for email uid st failure
    using auditLogin_audits [OF refl, of D rq ctx email uid st failure] effect_audited by (fastforce simp: only_audits_def)
  then show ?thesis using v by auto
qed

lemma faithful_AuthMiddleware:
  assumes "\<And>ctx. faithful (h rq ctx)"
  shows "faithful (AuthMiddleware E J m h rq ctx)"
  unfolding faithful_def
proof
  fix s
  show "success_status (fst (AuthMiddleware E J m h rq ctx s)) \<or>
     same_ledger (committed (svWorld s)) (committed (svWorld (snd (AuthMiddleware E J m h rq ctx s))))"
  proof (cases rule: AuthMiddleware_cases [of E J m h rq ctx s])
    case (passed token c s')
    then show ?thesis using assms [of "ctx\<lparr>cxUser := Some (claimsUser c)\<rparr>"] unfolding faithful_def by metis
  qed auto
qed

lemma faithful_route:
  assumes "faithful (h rq ctx)"
  shows "faithful (optionalRole D r h rq ctx)"
  using assms unfolding optionalRole_def requireRole_def RequireRole_def [abs_def]
  by (cases r; cases "dpAuthEnabled D"; simp; intro clean_intros; assumption)

lemma writeRoutes_faithful: "r \<in> set (writeRoutes D) \<Longrightarrow> faithful (rtHandler r vs rq ctx)"
  unfolding writeRoutes_def rt_def by (simp only: set_simps insert_iff empty_iff)
    (elim disjE FalseE; simp only: route.select_convs simp_thms; intro clean_intros)

lemma faithful_apiRoutes: "faithful (apiRoutes D p rq ctx)"
proof (cases rule: apiRoutes_cases [of D p rq ctx])
  case login
  then show ?thesis by (simp add: faithful_def same_ledger_Login)
next
  case miss
  then show ?thesis by (simp add: faithful_reads miss_intros(1))
next
  case (route r vs)
  have "r \<in> set (viewRoutes D) \<or> r \<in> set (writeRoutes D)" using findRoute_Some [OF route(1)] by auto
  then have "faithful (rtHandler r vs rq c)" for c
    using viewRoutes_read [of r D vs rq c] writeRoutes_faithful faithful_reads by blast
  then have "faithful (optionalRole D (rtRole r) (rtHandler r vs) rq c)" for c by (rule faithful_route)
  then show ?thesis using route(2) by (simp add: requireAuth_def faithful_AuthMiddleware)
qed

text \<open>The middleware: what it answers by itself left the world alone; what it hands on it hands back.\<close>

lemma faithful_Wrap: "faithful (h rq ctx) \<Longrightarrow> faithful (Wrap R h rq ctx)"
  unfolding faithful_def
proof
  fix s :: "'a server" assume h: "\<forall>s. success_status (fst (h rq ctx s)) \<or>
      same_ledger (committed (svWorld s)) (committed (svWorld (snd (h rq ctx s))))"
  show "success_status (fst (Wrap R h rq ctx s)) \<or>
      same_ledger (committed (svWorld s)) (committed (svWorld (snd (Wrap R h rq ctx s))))"
    by (rule Wrap_world [of R h rq ctx s]) (simp, metis h)
qed

lemma faithful_NewRouter: "faithful (NewRouter D rq ctx)"
  unfolding NewRouter_def RequestMeta_def
  by (intro clean_intros faithful_Wrap faithful_apiRoutes faithful_reads reads_health notFound_intros)

section \<open>Clean failures over gRPC\<close>

lemma clean_answer: "fails_clean (onWorld m) \<Longrightarrow> fails_clean (answer f m)"
  unfolding fails_clean_def answer_def bindM_def withStatus_def
  by (auto split: prod.splits sum.splits)

lemma clean_raise: "fails_clean (raiseM e)"
  by (auto simp: fails_clean_def)

lemma clean_serve: "fails_clean (serve D q ctx)"
  by (cases q) (simp_all add: server_defs clean_answer clean_use_cases clean_raise clean_reads [OF answer_intros(1)]
      keeps_queries split: option.split sum.split)

lemma clean_passes_on:
  assumes "passes_on i" and "\<And>ctx. fails_clean (h call ctx)"
  shows "fails_clean (i h call ctx)"
  unfolding fails_clean_def
proof (intro allI impI)
  fix s e s' assume run: "i h call ctx s = (Inl e, s')"
  show "same_ledger (committed (svWorld s)) (committed (svWorld s'))"
  proof (rule passes_onE [OF assms(1), of h call ctx s])
    fix ctx' v assume v: "i h call ctx s = h call ctx' v" "committed (svWorld v) = committed (svWorld s)"
    then show ?thesis using assms(2) [of ctx'] run unfolding fails_clean_def by metis
  qed (simp add: run)
qed

lemma clean_grpcServe: "fails_clean (grpcServe D marshal call ctx)"
  unfolding grpcServe_def ChainUnaryServer_def unaryInterceptors_def
  by (cases "dpAuthEnabled D")
    (simp_all add: clean_passes_on passes_on_Idempotency passes_on_Auth passes_on_MethodRole clean_serve)

section \<open>Who may change the ledger over HTTP\<close>

text \<open>The request carries a token the library finds valid, with these claims.\<close>

definition http_token :: "'d deps \<Rightarrow> request \<Rightarrow> claims \<Rightarrow> bool" where
  "http_token D rq c \<longleftrightarrow> (\<exists>token t. bearerToken (Header_Get rq ''Authorization'') = Some token \<and>
     jwtParse (dpJwt D) (keyFunc (dpManager D)) t token = Inr (c, True))"

lemma writeRoutes_roles:
  "r \<in> set (writeRoutes D) \<Longrightarrow> matchPath (rtPattern r) p = Some vs \<Longrightarrow>
   rtRole r = Some RoleAdmin \<and> hd p = ''accounts'' \<or>
   rtRole r = Some RoleOperator \<and> hd p \<in> {''transfers'', ''holds''}"
  unfolding writeRoutes_def rt_def
  by (cases p) (auto split: if_splits)

lemma guarded_route:
  assumes auth: "dpAuthEnabled D" and r: "findRoute m p (viewRoutes D @ writeRoutes D) = Some (r, vs)"
    and diff: "\<not> same_ledger (committed (svWorld s))
      (committed (svWorld (snd (requireAuth D (optionalRole D (rtRole r) (rtHandler r vs)) rq ctx s))))"
  shows "\<exists>c. http_token D rq c \<and>
    (clRole c = RoleAdmin \<or> clRole c = RoleOperator \<and> hd p \<in> {''transfers'', ''holds''})"
proof -
  let ?h = "optionalRole D (rtRole r) (rtHandler r vs)"
  show ?thesis
  proof (cases rule: AuthMiddleware_cases [of "dpEnv D" "dpJwt D" "dpManager D" ?h rq ctx s])
    case (refused resp s')
    then show ?thesis using diff auth by (simp add: requireAuth_def)
  next
    case (passed token c s')
    let ?ctx = "ctx\<lparr>cxUser := Some (claimsUser c)\<rparr>"
    have tok: "http_token D rq c" using passed(1,2) by (auto simp: http_token_def Verify_Inr)
    have d: "\<not> same_ledger (committed (svWorld s')) (committed (svWorld (snd (?h rq ?ctx s'))))"
      using diff auth passed(3,4) by (simp add: requireAuth_def)
    then have "\<not> reads (rtHandler r vs rq ?ctx)"
      using optionalRole_intros(1) unfolding reads_def by (metis same_ledger_refl)
    then have "r \<in> set (writeRoutes D)" using findRoute_Some [OF r] viewRoutes_read [of r D vs rq ?ctx] by auto
    then have roles: "rtRole r = Some RoleAdmin \<and> hd p = ''accounts'' \<or>
        rtRole r = Some RoleOperator \<and> hd p \<in> {''transfers'', ''holds''}"
      using writeRoutes_roles findRoute_Some [OF r] by blast
    have "roleAllows m (clRole c)" if "rtRole r = Some m" for m
      using d that auth by (auto simp: optionalRole_def requireRole_def RequireRole_def claimsUser_def split: if_splits)
    then show ?thesis using roles tok by (auto simp: roleAllows_def)
  qed
qed

text \<open>A request is answered by a route that only reads, or by the API under the idempotency middleware.\<close>

definition with_meta :: "request \<Rightarrow> context_values \<Rightarrow> context_values" where
  "with_meta rq ctx = ContextWithRequestMeta ctx
     \<lparr>rmRequestID = rqRequestID rq, rmIPAddress = rqRemoteAddr rq, rmUserAgent = Header_Get rq ''User-Agent''\<rparr>"

definition below_api :: "request \<Rightarrow> bool" where
  "below_api rq \<longleftrightarrow> take 2 (rqPath rq) = [''api'', ''v1'']"

lemma NewRouter_api:
  "below_api rq \<Longrightarrow> NewRouter D rq ctx s = Wrap (dpRedis D) (apiRoutes D (drop 2 (rqPath rq))) rq (with_meta rq ctx) s"
  by (auto simp: NewRouter_def RequestMeta_def below_api_def with_meta_def)

lemma NewRouter_local: "\<not> below_api rq \<Longrightarrow> reads (NewRouter D rq ctx)"
  unfolding NewRouter_def RequestMeta_def below_api_def
  by (simp only: if_False) (intro reading.ok_if unchanged_intros(1) reads_health notFound_intros)

lemma http_change_needs_role:
  assumes auth: "dpAuthEnabled D" and run: "NewRouter D rq ctx s = (resp, s')"
    and diff: "\<not> same_ledger (committed (svWorld s)) (committed (svWorld s'))"
  shows "\<exists>c. http_token D rq c \<and>
    (clRole c = RoleAdmin \<or> clRole c = RoleOperator \<and> rqPath rq ! 2 \<in> {''transfers'', ''holds''})"
proof -
  let ?p = "drop 2 (rqPath rq)" and ?c = "with_meta rq ctx"
  have "committed (svWorld s') \<noteq> committed (svWorld s)" using diff by auto
  then have "below_api rq" using NewRouter_local [of rq D ctx] run unfolding reads_def by (metis snd_conv)
  then have "Wrap (dpRedis D) (apiRoutes D ?p) rq ?c s = (resp, s')" using run NewRouter_api by metis
  then obtain v where v: "committed (svWorld v) = committed (svWorld s)" "svWorld s' = svWorld (snd (apiRoutes D ?p rq ?c v))"
    using diff by (cases rule: Wrap_world [of "dpRedis D" "apiRoutes D ?p" rq ?c s]) (simp, metis snd_conv)
  have d: "\<not> same_ledger (committed (svWorld v)) (committed (svWorld (snd (apiRoutes D ?p rq ?c v))))"
    using v diff by simp
  show ?thesis
  proof (cases rule: apiRoutes_cases [of D ?p rq ?c])
    case login
    then show ?thesis using d same_ledger_Login by metis
  next
    case miss
    then show ?thesis using d miss_intros(1) unfolding reads_def by (metis same_ledger_refl)
  next
    case (route r vs)
    then have p: "?p \<noteq> []"
      using findRoute_Some [OF route(1)] by (auto simp: viewRoutes_def writeRoutes_def rt_def)
    show ?thesis using guarded_route [OF auth route(1)] d p unfolding route(2) by (auto simp: hd_drop_conv_nth)
  qed
qed

section \<open>Who may change it over gRPC\<close>

definition grpc_token :: "'d deps \<Rightarrow> 'q grpc_call \<Rightarrow> claims \<Rightarrow> bool" where
  "grpc_token D call c \<longleftrightarrow> (\<exists>md v vs t. gcMetadata call = Some md \<and> MD_Get md ''authorization'' = v # vs \<and>
     jwtParse (dpJwt D) (keyFunc (dpManager D)) t (TrimPrefix v ''Bearer '') = Inr (c, True))"

lemma AuthInterceptor_cases:
  obtains (refused) e s' where "AuthInterceptor E J m h call ctx s = (Inl e, s')" "fst e = CodeUnauthenticated"
      "committed (svWorld s') = committed (svWorld s)" "svRedis s' = svRedis s"
    | (passed) md v vs t c s' where "gcMetadata call = Some md" "MD_Get md ''authorization'' = v # vs"
      "jwtParse J (keyFunc m) t (TrimPrefix v ''Bearer '') = Inr (c, True)"
      "AuthInterceptor E J m h call ctx s = h call (ctx\<lparr>cxGrpcUser := Some (claimsUser c)\<rparr>) s'"
      "committed (svWorld s') = committed (svWorld s)" "svRedis s' = svRedis s"
proof (cases "\<exists>md v vs. gcMetadata call = Some md \<and> MD_Get md ''authorization'' = v # vs")
  case False
  then show ?thesis
    by (cases "gcMetadata call"; cases "MD_Get (the (gcMetadata call)) ''authorization''")
      (auto simp: AuthInterceptor_def intro: refused)
next
  case True
  then obtain md v vs where md: "gcMetadata call = Some md" "MD_Get md ''authorization'' = v # vs" by blast
  obtain r w where run: "Verify E J m (TrimPrefix v ''Bearer '') (svWorld s) = (r, w)" by fastforce
  then have w: "committed w = committed (svWorld s)" using keepsD [OF keeps_Verify] by metis
  show ?thesis
  proof (cases r)
    case (Inl e)
    then show ?thesis using md run w
      by (intro refused [of "(CodeUnauthenticated, ''invalid or expired token'')" "s\<lparr>svWorld := w\<rparr>"])
        (simp_all add: AuthInterceptor_def onWorld_run)
  next
    case (Inr c)
    then obtain t where "jwtParse J (keyFunc m) t (TrimPrefix v ''Bearer '') = Inr (c, True)"
      using run by (auto simp: Verify_Inr)
    then show ?thesis using md run w Inr
      by (intro passed [of md v vs t c "s\<lparr>svWorld := w\<rparr>"]) (simp_all add: AuthInterceptor_def onWorld_run)
  qed
qed

definition method_role :: "string \<Rightarrow> role" where
  "method_role m = (case map_of grpcMethodRoles m of None \<Rightarrow> RoleViewer | Some r \<Rightarrow> r)"

lemma MethodRole_cases:
  obtains (refused) e where "MethodRoleInterceptor grpcMethodRoles h call ctx s = (Inl e, s)"
      "fst e \<in> {CodeUnauthenticated, CodePermissionDenied}"
    | (passed) u where "cxGrpcUser ctx = Some u" "roleAllows (method_role (gcMethod call)) (usRole u)"
      "MethodRoleInterceptor grpcMethodRoles h call ctx s = h call ctx s"
proof (cases "cxGrpcUser ctx")
  case None
  then show ?thesis
    by (intro refused [of "(CodeUnauthenticated, ''unauthorized'')"])
      (simp_all add: MethodRoleInterceptor_def RequireRoleInterceptor_def GetUserFromContext_def)
next
  case (Some u)
  show ?thesis
  proof (cases "roleAllows (method_role (gcMethod call)) (usRole u)")
    case True
    then show ?thesis using Some
      by (intro passed [of u])
        (simp_all add: MethodRoleInterceptor_def RequireRoleInterceptor_def GetUserFromContext_def method_role_def)
  next
    case False
    then show ?thesis using Some
      by (intro refused [of "(CodePermissionDenied, ''insufficient permissions'')"])
        (simp_all add: MethodRoleInterceptor_def RequireRoleInterceptor_def GetUserFromContext_def method_role_def)
  qed
qed

lemma write_methods:
  "\<not> isReadOnlyMethod (FullMethod q) \<Longrightarrow>
   FullMethod q = ''/goledger.v1.AccountService/CreateAccount'' \<and> method_role (FullMethod q) = RoleAdmin \<or>
   FullMethod q \<noteq> ''/goledger.v1.AccountService/CreateAccount'' \<and> method_role (FullMethod q) = RoleOperator"
  by (cases q) (simp_all add: method_role_def grpcMethodRoles_def isReadOnlyMethod_def readOnlyMethods_def)

lemma grpc_change_needs_role:
  fixes D :: "'d::linordered_idom deps"
  assumes auth: "dpAuthEnabled D" and m: "gcMethod call = FullMethod (gcRequest call)"
    and run: "grpcServe D marshal call ctx s = (r, s')"
    and diff: "committed (svWorld s') \<noteq> committed (svWorld s)"
  shows "\<exists>c. grpc_token D call c \<and> (clRole c = RoleAdmin \<or> clRole c = RoleOperator \<and>
    gcMethod call \<noteq> ''/goledger.v1.AccountService/CreateAccount'')"
proof -
  let ?serve = "\<lambda>call. serve D (gcRequest call)"
  let ?roles = "MethodRoleInterceptor grpcMethodRoles ?serve"
  let ?inner = "AuthInterceptor (dpEnv D) (dpJwt D) (dpManager D) ?roles"
  obtain ctx1 v where v: "(r, s') = ?inner call ctx1 v" "committed (svWorld v) = committed (svWorld s)"
    using passes_onE [OF passes_on_Idempotency, of "Some (dpRedis D)" "hashRequest marshal (envHasher (dpEnv D))" ?inner call ctx s]
      run diff auth unfolding grpcServe_def ChainUnaryServer_def unaryInterceptors_def
    by (simp add: comp_def) (metis snd_conv)
  show ?thesis
  proof (cases rule: AuthInterceptor_cases [of "dpEnv D" "dpJwt D" "dpManager D" ?roles call ctx1 v])
    case (refused e s1)
    then show ?thesis using v diff by simp
  next
    case (passed md x xs t c s1)
    let ?ctx = "ctx1\<lparr>cxGrpcUser := Some (claimsUser c)\<rparr>"
    have tok: "grpc_token D call c" using passed(1,2,3) unfolding grpc_token_def by blast
    show ?thesis
    proof (cases rule: MethodRole_cases [of ?serve call ?ctx s1])
      case (refused e)
      then show ?thesis using passed v diff by simp
    next
      case (passed u)
      have "(r, s') = serve D (gcRequest call) ?ctx s1" using \<open>?roles call ?ctx s1 = ?serve call ?ctx s1\<close> v
          \<open>?inner call ctx1 v = ?roles call ?ctx s1\<close> by simp
      then have "\<not> reads (serve D (gcRequest call) ?ctx)"
        using diff v(2) \<open>committed (svWorld s1) = committed (svWorld v)\<close> unfolding reads_def by (metis snd_conv)
      then have "\<not> isReadOnlyMethod (FullMethod (gcRequest call))" using reads_serve by blast
      from write_methods [OF this] show ?thesis using passed m tok
        by (auto simp: roleAllows_def claimsUser_def)
    qed
  qed
qed

end
