(* ===== verification/Answers.thy ===== *)
theory Answers
  imports Guards
begin

text \<open>
  What an HTTP answer looks like, whoever asks for what: a status from a short list, a content type unless
  there is no content. The rules follow the shape of the handlers and of the middleware, up to the router.
\<close>

definition well_formed :: "response \<Rightarrow> bool" where
  "well_formed r \<longleftrightarrow>
     rsStatus r = StatusNoContent \<and> rsHeaders r = [] \<and> rsBody r = [] \<or>
     rsStatus r \<in> {StatusOK, StatusCreated, StatusBadRequest, StatusUnauthorized, StatusForbidden, StatusNotFound,
       StatusConflict, StatusInternalServerError, StatusServiceUnavailable} \<and>
     map_of (rsHeaders r) ''Content-Type'' \<noteq> None"

definition answers :: "(response \<Rightarrow> bool) \<Rightarrow> ('d server \<Rightarrow> response \<times> 'd server) \<Rightarrow> bool" where
  "answers P f \<longleftrightarrow> (\<forall>s. P (fst (f s)))"

named_theorems answer_intros "how answers compose"

interpretation answering: pointwise "answers P" "\<lambda>s r. P (fst r)" for P
  by unfold_locales (simp add: answers_def)

lemmas answer_branches [answer_intros] = answering.ok_if answering.ok_option

lemma answers_pure [answer_intros]: "P r \<Longrightarrow> answers P (\<lambda>s. (r, s))"
  by (simp add: answering.ok_pure)

lemma answers_orRespond [answer_intros]:
  "(\<And>x. P (e x)) \<Longrightarrow> (\<And>x. answers P (k x)) \<Longrightarrow> answers P (orRespond m e k)"
  by (auto simp: answers_def orRespond_def split: prod.splits sum.splits)

lemma mapDomainError_status: "mapDomainError e \<in> {StatusBadRequest, StatusNotFound, StatusInternalServerError}"
  by (simp add: mapDomainError_root status_defs split: err.split)

lemma well_formed_json:
  "well_formed (writeJSON L st d) \<longleftrightarrow> st \<in> {StatusOK, StatusCreated, StatusBadRequest, StatusUnauthorized,
     StatusForbidden, StatusNotFound, StatusConflict, StatusInternalServerError, StatusServiceUnavailable}"
  by (auto simp: well_formed_def writeJSON_def)

lemma well_formed_answers [answer_intros]:
  "well_formed (writeError L (mapDomainError e) msg)"
  "well_formed (writeError L StatusBadRequest msg)" "well_formed (writeError L StatusUnauthorized msg)"
  "well_formed (writeError L StatusInternalServerError msg)" "well_formed (writeError L StatusServiceUnavailable msg)"
  "well_formed (writeJSON L StatusOK d)" "well_formed (writeJSON L StatusCreated d)"
  "well_formed (writeJSON L StatusConflict d)"
  "well_formed (http_Error msg StatusUnauthorized)" "well_formed (http_Error msg StatusForbidden)"
  "well_formed (http_Error msg StatusInternalServerError)"
  "well_formed \<lparr>rsStatus = StatusNoContent, rsHeaders = [], rsBody = []\<rparr>" "well_formed (replayed b)"
  using mapDomainError_status [of e]
  by (auto simp: writeError_def well_formed_json) (simp_all add: well_formed_def http_Error_def replayed_def)

section \<open>Handlers\<close>

lemma well_formed_views [answer_intros]:
  "answers well_formed (AccountHandler_Get D i rq ctx)" "answers well_formed (AccountHandler_List D rq ctx)"
  "answers well_formed (TransferHandler_Get D i rq ctx)" "answers well_formed (TransferHandler_ListByAccount D i rq ctx)"
  "answers well_formed (EntryHandler_ListByAccount D i rq ctx)" "answers well_formed (EntryHandler_ListByTransfer D i rq ctx)"
  "answers well_formed (EntryHandler_GetHistoricalBalance D i rq ctx)"
  "answers well_formed (AuditHandler_List D rq ctx)"
  "answers well_formed (AuditHandler_GetByResource D ty i rq ctx)" "answers well_formed (AuditHandler_GetByUser D i rq ctx)"
  "answers well_formed (AuthHandler_GetCurrentUser D rq ctx)"
  unfolding view_defs Let_def by (intro answer_intros)+

lemma well_formed_Export [answer_intros]: "answers well_formed (AuditHandler_Export D rq ctx)"
  unfolding AuditHandler_Export_def Let_def
  by (intro answer_intros) (simp add: well_formed_def)

lemma well_formed_Consistency [answer_intros]: "answers well_formed (LedgerHandler_CheckConsistency D rq ctx)"
  unfolding LedgerHandler_CheckConsistency_def
  by (intro answers_orRespond answer_intros) (simp add: well_formed_answers)

lemma well_formed_writes [answer_intros]:
  "answers well_formed (AccountHandler_Create D rq ctx)" "answers well_formed (TransferHandler_Create D rq ctx)"
  "answers well_formed (TransferHandler_CreateBatch D rq ctx)" "answers well_formed (TransferHandler_Reverse D i rq ctx)"
  "answers well_formed (HoldHandler_Create D rq ctx)" "answers well_formed (HoldHandler_Void D i rq ctx)"
  "answers well_formed (HoldHandler_Capture D i rq ctx)"
  unfolding write_defs by (intro answer_intros)+

lemma well_formed_health [answer_intros]:
  "answers well_formed (HealthHandler_Liveness D rq ctx)" "answers well_formed (HealthHandler_Readiness D rq ctx)"
  unfolding HealthHandler_Liveness_def HealthHandler_Readiness_def by (intro answer_intros)+

lemma well_formed_Login [answer_intros]: "answers well_formed (AuthHandler_Login D rq ctx)"
  by (auto simp: answers_def AuthHandler_Login_def well_formed_answers split: option.split prod.split sum.split)

section \<open>Middleware and router\<close>

lemma answers_Auth [answer_intros]:
  "(\<And>ctx. answers well_formed (h rq ctx)) \<Longrightarrow> answers well_formed (AuthMiddleware E J m h rq ctx)"
  unfolding AuthMiddleware_def Let_def by (intro answer_intros)

lemma answers_requireAuth:
  "(\<And>ctx. answers well_formed (h rq ctx)) \<Longrightarrow> answers well_formed (requireAuth D h rq ctx)"
  unfolding requireAuth_def by (simp add: answers_Auth)

lemma answers_requireRole: "answers well_formed (h rq ctx) \<Longrightarrow> answers well_formed (requireRole D r h rq ctx)"
  unfolding requireRole_def RequireRole_def [abs_def] by (cases "dpAuthEnabled D"; simp) (intro answer_intros)

lemma viewRoutes_answer: "r \<in> set (viewRoutes D) \<Longrightarrow> answers well_formed (rtHandler r vs rq ctx)"
  unfolding viewRoutes_def rt_def by (simp only: set_simps insert_iff empty_iff)
    (elim disjE FalseE; simp only: route.select_convs simp_thms; intro answer_intros)

lemma writeRoutes_answer: "r \<in> set (writeRoutes D) \<Longrightarrow> answers well_formed (rtHandler r vs rq ctx)"
  unfolding writeRoutes_def rt_def by (simp only: set_simps insert_iff empty_iff)
    (elim disjE FalseE; simp only: route.select_convs simp_thms; intro answer_intros)

lemma answers_miss:
  assumes "well_formed (dpMiss D rq)"
  shows "answers well_formed (notFound D rq ctx)" "answers well_formed (missRoute D p rq ctx)"
proof -
  show n: "answers well_formed (notFound D rq c)" for c using assms by (simp add: answers_def notFound_def)
  show "answers well_formed (missRoute D p rq ctx)" unfolding missRoute_def
    by (intro answer_intros answers_requireAuth answers_requireRole n)
qed

lemma answers_apiRoutes:
  assumes "well_formed (dpMiss D rq)"
  shows "answers well_formed (apiRoutes D p rq ctx)"
proof (cases rule: apiRoutes_cases [of D p rq ctx])
  case (route r vs)
  have "r \<in> set (viewRoutes D) \<or> r \<in> set (writeRoutes D)" using findRoute_Some [OF route(1)] by auto
  then have "answers well_formed (rtHandler r vs rq c)" for c using viewRoutes_answer writeRoutes_answer by blast
  then show ?thesis
    unfolding route(2) optionalRole_def by (cases "rtRole r") (simp_all add: answers_requireAuth answers_requireRole)
qed (simp_all add: well_formed_Login answers_miss assms)

lemma answers_Wrap:
  assumes "answers well_formed (h rq ctx)"
  shows "answers well_formed (Wrap R h rq ctx)"
  using assms unfolding answers_def Wrap_def
  by (auto simp: Let_def recordResponse_world(2) well_formed_answers split: prod.split sum.split option.split)

lemma answers_NewRouter:
  assumes "well_formed (dpMiss D rq)" and "well_formed (dpMetrics D)"
  shows "answers well_formed (NewRouter D rq ctx)"
  unfolding NewRouter_def RequestMeta_def
  by (intro answer_intros answers_Wrap answers_apiRoutes answers_miss assms)

end
