(* ===== verification/Replays.thy ===== *)
theory Replays
  imports Guards
begin

text \<open>
  Retried requests. Over HTTP a keyed request that succeeded is answered from the store for as long as
  the store keeps the key, whatever is requested in between; over gRPC a key is spent by the first call that
  carries it, whatever came of the call.
\<close>

section \<open>Redis that answers\<close>

definition redis_up :: "redis_env \<Rightarrow> bool" where
  "redis_up R \<longleftrightarrow> (\<forall>n. rdFault R n = None)"

lemma redis_up_run [simp]:
  "redis_up R \<Longrightarrow> redis_Get R k s = (Inr (rdOthers R (rdCalls s) (rdStore s) k),
     s\<lparr>rdStore := rdOthers R (rdCalls s) (rdStore s), rdCalls := Suc (rdCalls s)\<rparr>)"
  by (simp add: redis_up_def redis_Get_run Let_def)

lemma CheckAndSet_total:
  assumes "redis_up R"
  obtains found c s' where "CheckAndSet R key resp s = (Inr (found, c), s')"
proof -
  have "\<exists>found c s'. CheckAndSet R key resp s = (Inr (found, c), s')"
    using assms by (auto simp: CheckAndSet_def bindM_def redis_Set_def redis_SetNX_def redisCmd_def redis_up_def
        Let_def returnM_def split: option.split)
  then show ?thesis using that by blast
qed

lemma CheckAndSet_cached:
  assumes "CheckAndSet R key None s = (Inr (True, Some b), s')" and "b \<noteq> []"
  shows "rdStore s' (idempotencyKey key) = Some b"
  using assms by (auto simp: CheckAndSet_def run_simps redis_Get_def redis_SetNX_def redisCmd_def bytesOf_def Let_def
      split: option.splits if_splits)

lemma CheckAndSet_sets:
  assumes "redis_up R"
  shows "rdStore (snd (CheckAndSet R key (Some g) s)) (idempotencyKey key) \<noteq> None"
  using assms by (auto simp: CheckAndSet_def bindM_def redis_Set_def redisCmd_def redis_up_def Let_def returnM_def
      split: option.split)

section \<open>HTTP\<close>

lemma Wrap_records:
  assumes up: "redis_up R" and kept: "key_kept R (idempotencyKey key)" and key: "keyed key rq"
    and run: "Wrap R h rq ctx s = (resp, s')"
    and ok: "success_status resp" "rsBody resp \<noteq> []" "rsBody resp \<noteq> processing"
  shows "answered R key (rsBody resp) s'"
proof -
  let ?j = "Header_Get rq ''Idempotency-Key''"
  have j: "?j = key" "key \<noteq> []" "rqMethod rq = ''POST'' \<or> rqMethod rq = ''PUT''" using key by (auto simp: keyed_def)
  obtain found c d where chk: "CheckAndSet R key None (svRedis s) = (Inr (found, c), d)"
    using CheckAndSet_total [OF up] by blast
  have "rdStore (svRedis s') (idempotencyKey key) = Some (rsBody resp)"
  proof (cases "found \<and> c \<noteq> None \<and> c \<noteq> Some processing")
    case True
    then obtain b where b: "c = Some b" "b \<noteq> processing" by auto
    then have "resp = replayed b" "s' = s\<lparr>svRedis := d\<rparr>"
      using run j chk True by (auto simp: Wrap_def Let_def onRedis_def)
    then show ?thesis using CheckAndSet_cached [of R key "svRedis s" b d] chk True b ok(2) by (simp add: replayed_def)
  next
    case False
    then have "Wrap R h rq ctx s = recordResponse R key h rq ctx (s\<lparr>svRedis := d\<rparr>)"
      using j chk by (auto simp: Wrap_def Let_def onRedis_def split: option.split)
    then show ?thesis using run ok(1) up Update_sets
      by (auto simp: recordResponse_def success_status_def redis_up_def onRedis_run split: prod.splits if_splits)
  qed
  then show ?thesis using kept ok by (simp add: answered_def)
qed

lemma no_redis_api: "no_redis (apiRoutes D p)"
  unfolding no_redis_def using quiet_apiRoutes [of D p] unfolding quiet_def by blast

lemma quiet_notFound: "quiet (notFound D rq ctx)"
  by (simp add: notFound_def quiet_def)

text \<open>Requests outside the API touch Redis at most by the readiness ping.\<close>

lemma redis_local:
  assumes "key_kept (dpRedis D) k" and "\<not> below_api rq" and "rdStore (svRedis s) k \<noteq> None"
  shows "rdStore (svRedis (snd (NewRouter D rq ctx s))) k = rdStore (svRedis s) k"
proof -
  have ping: "keeps_key k (redisCmd (dpRedis D) (\<lambda>r. (Inr (), r)))" by (rule keeps_key_cmd [OF assms(1)]) simp
  have "rdStore (svRedis (snd (HealthHandler_Readiness D rq c s))) k = rdStore (svRedis s) k" for c
    using ping assms(3) by (auto simp: HealthHandler_Readiness_def orRespond_snd keeps_key_def split: sum.split)
  then show ?thesis using assms(2)
    by (auto simp: NewRouter_def RequestMeta_def below_api_def HealthHandler_Liveness_def notFound_def)
qed

lemma NewRouter_answered:
  assumes "answered (dpRedis D) key b s"
  shows "answered (dpRedis D) key b (snd (NewRouter D rq ctx s))"
proof (cases "below_api rq")
  case True
  then show ?thesis using Wrap_answered [OF assms no_redis_api] by (simp add: NewRouter_api)
next
  case False
  then show ?thesis using assms redis_local [of D "idempotencyKey key" rq s] by (auto simp: answered_def)
qed

definition http_run :: "'d::linordered_idom deps \<Rightarrow> request list \<Rightarrow> 'd server \<Rightarrow> 'd server" where
  "http_run D rqs s = fold (\<lambda>rq s. snd (NewRouter D rq Background s)) rqs s"

lemma http_run_answered: "answered (dpRedis D) key b s \<Longrightarrow> answered (dpRedis D) key b (http_run D rqs s)"
  by (induction rqs arbitrary: s) (simp_all add: http_run_def NewRouter_answered)

section \<open>gRPC\<close>

lemma quiet_Auth:
  assumes "\<And>ctx. quiet (h call ctx)"
  shows "quiet (AuthInterceptor E J m h call ctx)"
  unfolding quiet_def
proof
  fix s show "svRedis (snd (AuthInterceptor E J m h call ctx s)) = svRedis s"
    by (rule AuthInterceptor_cases [of E J m h call ctx s]) (use assms in \<open>simp_all add: quiet_def\<close>)
qed

lemma quiet_MethodRole:
  assumes "quiet (h call ctx)"
  shows "quiet (MethodRoleInterceptor grpcMethodRoles h call ctx)"
  unfolding quiet_def
proof
  fix s show "svRedis (snd (MethodRoleInterceptor grpcMethodRoles h call ctx s)) = svRedis s"
    by (rule MethodRole_cases [of h call ctx s]) (use assms in \<open>simp_all add: quiet_def\<close>)
qed

lemma grpcServe_chain:
  fixes D :: "'d::linordered_idom deps"
  obtains h where "grpcServe D marshal =
      IdempotencyInterceptor (Some (dpRedis D)) (hashRequest marshal (envHasher (dpEnv D))) h"
    and "\<And>call ctx s. svRedis (snd (h call ctx s)) = svRedis s"
proof
  let ?h = "if dpAuthEnabled D
    then AuthInterceptor (dpEnv D) (dpJwt D) (dpManager D)
      (MethodRoleInterceptor grpcMethodRoles (\<lambda>call. serve D (gcRequest call)))
    else (\<lambda>call. serve D (gcRequest call))"
  show "grpcServe D marshal = IdempotencyInterceptor (Some (dpRedis D)) (hashRequest marshal (envHasher (dpEnv D))) ?h"
    by (simp add: grpcServe_def ChainUnaryServer_def unaryInterceptors_def)
  have "quiet (?h call ctx)" for call ctx by (simp add: quiet_Auth quiet_MethodRole quiet_serve)
  then show "svRedis (snd (?h call ctx s)) = svRedis s" for call ctx s unfolding quiet_def by blast
qed

lemma grpcServe_claims:
  fixes D :: "'d::linordered_idom deps"
  assumes up: "redis_up (dpRedis D)" and kept: "key_kept (dpRedis D) (idempotencyKey (grpcCacheKey m key))"
    and call: "grpc_keyed m key call" and hash: "marshal (gcRequest call) = Inr data"
  shows "claimed (dpRedis D) (grpcCacheKey m key) (snd (grpcServe D marshal call ctx s))"
proof -
  let ?k = "idempotencyKey (grpcCacheKey m key)" and ?g = "sha256hex (envHasher (dpEnv D)) data"
  obtain h where g: "grpcServe D marshal =
      IdempotencyInterceptor (Some (dpRedis D)) (hashRequest marshal (envHasher (dpEnv D))) h"
    and q: "\<And>call ctx s. svRedis (snd (h call ctx s)) = svRedis s" using grpcServe_chain by blast
  obtain md ks where md: "gcMetadata call = Some md" "MD_Get md ''x-idempotency-key'' = key # ks"
    using call by (auto simp: grpc_keyed_def)
  let ?c = "CheckAndSet (dpRedis D) (grpcCacheKey m key) (Some ?g) (svRedis s)"
  have "svRedis (snd (grpcServe D marshal call ctx s)) = snd ?c"
    using call hash md q unfolding g by (auto simp: IdempotencyInterceptor_def grpc_keyed_def hashRequest_def onRedis_run
        split: sum.split)
  then show ?thesis using kept CheckAndSet_sets [OF up] by (simp add: claimed_def)
qed

lemma grpcServe_keeps:
  fixes D :: "'d::linordered_idom deps"
  assumes "claimed (dpRedis D) k s"
  shows "claimed (dpRedis D) k (snd (grpcServe D marshal call ctx s))"
proof -
  obtain h where g: "grpcServe D marshal =
      IdempotencyInterceptor (Some (dpRedis D)) (hashRequest marshal (envHasher (dpEnv D))) h"
    and q: "\<And>call ctx s. svRedis (snd (h call ctx s)) = svRedis s" using grpcServe_chain by blast
  then show ?thesis using assms interceptor_keeps [of "dpRedis D" "idempotencyKey k" s h call ctx] unfolding claimed_def g
    by simp
qed

definition grpc_run ::
  "'d::linordered_idom deps \<Rightarrow> (grpc_request \<Rightarrow> err + string) \<Rightarrow> grpc_request grpc_call list \<Rightarrow> 'd server \<Rightarrow> 'd server" where
  "grpc_run D marshal calls s = fold (\<lambda>call s. snd (grpcServe D marshal call Background s)) calls s"

lemma grpc_run_claimed: "claimed (dpRedis D) k s \<Longrightarrow> claimed (dpRedis D) k (grpc_run D marshal calls s)"
  by (induction calls arbitrary: s) (simp_all add: grpc_run_def grpcServe_keeps)

lemma grpcServe_refuses:
  fixes D :: "'d::linordered_idom deps"
  assumes "redis_up (dpRedis D)" and "claimed (dpRedis D) (grpcCacheKey m key) s" and "grpc_keyed m key call"
    and "marshal (gcRequest call) = Inr data" and "grpcServe D marshal call ctx s = (r, s')"
  shows "(\<exists>e. r = Inl e \<and> fst e \<in> {CodeAlreadyExists, CodeInvalidArgument}) \<and> svWorld s' = svWorld s"
proof -
  obtain h where g: "grpcServe D marshal =
      IdempotencyInterceptor (Some (dpRedis D)) (hashRequest marshal (envHasher (dpEnv D))) h"
    and q: "\<And>call ctx s. svRedis (snd (h call ctx s)) = svRedis s" using grpcServe_chain by blast
  have f: "rdFault (dpRedis D) (rdCalls (svRedis s)) = None" using assms(1) by (simp add: redis_up_def)
  let ?H = "hashRequest marshal (envHasher (dpEnv D))"
  have hash: "?H (gcRequest call) = Inr (sha256hex (envHasher (dpEnv D)) data)" using assms(4) by (simp add: hashRequest_def)
  have run: "IdempotencyInterceptor (Some (dpRedis D)) ?H h call ctx s = (r, s')" using assms(5) by (simp only: g)
  obtain e where "r = Inl e" "fst e \<in> {CodeAlreadyExists, CodeInvalidArgument}"
    using interceptor_refuses(1) [OF assms(2,3) f, of ?H h ctx] hash unfolding run fst_conv by blast
  moreover have "svWorld s' = svWorld s"
    using interceptor_refuses(2) [OF assms(2,3) f, of ?H h ctx] unfolding run snd_conv .
  ultimately show ?thesis by blast
qed

end
