(* ===== verification/ApiDemo.thy ===== *)
theory ApiDemo
  imports Replays Demo
begin

text \<open>
  A concrete server over the demo run: a JSON encoder, a token library, a bcrypt and a Redis that
  compute, and a few requests. The theorems about the transports are applied to them.
\<close>

section \<open>Its parts\<close>

text \<open>The encoder need only answer something; amounts are decimal integers.\<close>

definition demoLib :: "int lib" where
  "demoLib = \<lparr>decFromString = Atoi, decString = (\<lambda>n. itoa (nat n)), parseRFC3339 = Atoi, unmarshalTime = Atoi,
     formatRFC3339 = (\<lambda>t. itoa (nat t)), anyText = (\<lambda>j. Some []), encodeJSON = (\<lambda>x. ''{}'')\<rparr>"

definition demoUserLib :: user_lib where
  "demoUserLib = \<lparr>bcryptGenerate = (\<lambda>n p. Inr (''$'' @ p)),
     bcryptCompare = (\<lambda>h p. h = ''$'' @ p),
     unixNano = (\<lambda>t. t * 1000), formatStamp = (\<lambda>t. itoa (nat t))\<rparr>"

definition demoRedis :: redis_env where
  "demoRedis = \<lparr>rdFault = (\<lambda>n. None), rdOthers = (\<lambda>n st. st), rdEmptyNil = False\<rparr>"

definition demoManager :: jwt_manager where
  "demoManager = NewJWTManager ''k'' 3600000000"

text \<open>A library for one token: that of the operator.\<close>

definition demoUser :: user where
  "demoUser = \<lparr>usID = ''u1'', usEmail = ''op@example.com'', usName = [], usHashedPassword = [],
     usRole = RoleOperator, usCreatedAt = 0, usUpdatedAt = 0, usActive = True\<rparr>"

definition demoClaims :: claims where
  "demoClaims = \<lparr>clUserID = ''u1'', clEmail = ''op@example.com'', clRole = RoleOperator,
     clExpiresAt = Some 3600000000, clIssuedAt = Some 0, clNotBefore = Some 0\<rparr>"

definition demoJwt :: jwt_lib where
  "demoJwt = \<lparr>
     jwtSign = (\<lambda>key c. if key = ''k'' \<and> c = demoClaims then Inr ''tok'' else Inl (PlainErr ''sign'')),
     jwtParse = (\<lambda>kf now token.
       if token = ''tok'' \<and> kf (HMAC ''HS256'') = Inr ''k'' \<and> 0 \<le> now
       then if now < 3600000000 then Inr (demoClaims, True) else Inl JwtExpired
       else Inl JwtInvalid),
     jwtMethod = (\<lambda>token. if token = ''tok'' then HMAC ''HS256'' else OtherMethod ''none'')\<rparr>"

definition demoDeps :: "bool \<Rightarrow> int deps" where
  "demoDeps auth = \<lparr>dpEnv = demoEnv, dpRetrier = NoopRetrier, dpLib = demoLib, dpUsers = demoUserLib, dpJwt = demoJwt,
     dpManager = demoManager, dpRedis = demoRedis, dpAuthEnabled = auth,
     dpMiss = (\<lambda>rq. http_Error ''404 page not found'' 404),
     dpMetrics = \<lparr>rsStatus = 200, rsHeaders = [], rsBody = []\<rparr>\<rparr>"

definition demoMetrics :: response where
  "demoMetrics = \<lparr>rsStatus = 200, rsHeaders = [(''Content-Type'', ''text/plain'')], rsBody = []\<rparr>"

definition demoServer :: "int world \<Rightarrow> int server" where
  "demoServer w = \<lparr>svWorld = w, svRedis = \<lparr>rdStore = (\<lambda>k. None), rdCalls = 0\<rparr>\<rparr>"

section \<open>Requests\<close>

definition demoRequest :: "string \<Rightarrow> string list \<Rightarrow> (string \<times> string) list \<Rightarrow> json option \<Rightarrow> request" where
  "demoRequest m p hs b = \<lparr>rqMethod = m, rqPath = [''api'', ''v1''] @ p,
     rqHeaders = (''Authorization'', ''Bearer tok'') # hs, rqQuery = [], rqBody = b,
     rqRemoteAddr = ''10.0.0.1'', rqRequestID = ''r1''\<rparr>"

definition demoPost :: request where
  "demoPost = demoRequest ''POST'' [''transfers''] [(''Idempotency-Key'', ''key1'')]
     (Some (JObject [(''from_account_id'', JString ''id0''), (''to_account_id'', JString ''id2''),
        (''amount'', JString ''100'')]))"

definition demoGet :: request where
  "demoGet = demoRequest ''GET'' [''accounts'', ''id2''] [] None"

definition demoCall :: "grpc_request grpc_call" where
  "demoCall = \<lparr>gcMethod = ''/goledger.v1.TransferService/CreateTransfer'',
     gcMetadata = Some [(''authorization'', [''Bearer tok'']), (''x-idempotency-key'', [''key1''])],
     gcRequest = CreateTransferReq \<lparr>qtFrom = ''id0'', qtTo = ''id2'', qtAmount = ''100'', qtEventAt = None,
       qtMetadata = Some [(''note'', ''rent'')]\<rparr>\<rparr>"

definition demoMarshal :: "grpc_request \<Rightarrow> err + string" where
  "demoMarshal q = Inr (FullMethod q)"

definition demoNewUser :: CreateUserInput where
  "demoNewUser = \<lparr>uiEmail = ''ann@example.com'', uiName = ''Ann'', uiPassword = ''Passw0rd!'', uiRole = RoleOperator\<rparr>"

section \<open>What they lead to\<close>

lemma demo_deps [simp]:
  "dpEnv (demoDeps auth) = demoEnv" "dpAuthEnabled (demoDeps auth) = auth" "dpRedis (demoDeps auth) = demoRedis"
  "dpJwt (demoDeps auth) = demoJwt" "dpManager (demoDeps auth) = demoManager" "dpUsers (demoDeps auth) = demoUserLib"
  by (simp_all add: demoDeps_def)

lemma demo_redis: "redis_up demoRedis" "key_kept demoRedis k"
  by (simp_all add: redis_up_def key_kept_def demoRedis_def)

lemma demo_jwt: "jwt_documented demoJwt"
  by (auto simp: jwt_documented_def demoJwt_def demoClaims_def split: if_splits)

text \<open>The transfer over HTTP and over gRPC: one transfer each.\<close>

lemma demoPost_effect:
  "rsStatus (fst (NewRouter (demoDeps True) demoPost Background (demoServer demo2))) = 201 \<and>
   rsBody (fst (NewRouter (demoDeps True) demoPost Background (demoServer demo2))) = ''{}'' \<and>
   length (transfersT (committed (svWorld (snd (NewRouter (demoDeps True) demoPost Background (demoServer demo2)))))) = 1"
  by code_simp

lemma demoCall_effect:
  "length (transfersT (committed (svWorld
     (snd (grpcServe (demoDeps True) demoMarshal demoCall Background (demoServer demo2)))))) = 1"
  by code_simp

lemma demo_no_transfers: "transfersT (committed demo2) = []"
  by code_simp

section \<open>A user is created\<close>

definition demoUserRow :: user where
  "demoUserRow = \<lparr>usID = ''user-0-2ume6yqi'', usEmail = ''ann@example.com'', usName = ''Ann'',
     usHashedPassword = ''$Passw0rd!'', usRole = RoleOperator, usCreatedAt = 9, usUpdatedAt = 10, usActive = True\<rparr>"

definition demoUserWorld :: "int world" where
  "demoUserWorld = demo0\<lparr>committed := empty_db\<lparr>usersT := [demoUserRow]\<rparr>, callCount := 2, nowCount := 11\<rparr>"

lemma demo_email_free: "userRepo_GetByEmail demoEnv ''ann@example.com'' demo0 = (Inl (PlainErr ''user not found''), demo0\<lparr>callCount := Suc 0\<rparr>)" 
  by (simp add: userRepo_GetByEmail_def translateM_def poolStmt_def dbCall_def demoEnv_def Let_def one_row_def demo0_def demoDb0_def empty_db_def userNotFound_def noRowsAs_def find_row_def)

lemma demo_generated:
  "generateID demoEnv demoUserLib (demo0\<lparr>callCount := Suc 0\<rparr>) = (Inr ''user-0-2ume6yqi'', demo0\<lparr>callCount := Suc 0, nowCount := 9\<rparr>)"
  by code_simp

lemma demo_valid: "ValidateEmail ''ann@example.com'' = None" "ValidatePassword ''Passw0rd!'' = None" "Role_IsValid RoleOperator"
  by code_simp+

lemma demo_stored: "userRepo_Create demoEnv demoUserRow (demo0\<lparr>callCount := Suc 0, nowCount := 11\<rparr>) = (Inr (), demoUserWorld)"
  by code_simp

lemma demo_lib [simp]: "envNow demoEnv n = int n" "envFault demoEnv n = None" "bcryptGenerate demoUserLib n p = Inr (''$'' @ p)"
  "bcryptCompare demoUserLib h p \<longleftrightarrow> h = ''$'' @ p"
  by (simp_all add: demoEnv_def demoUserLib_def)

lemma demo_user_run:
  "CreateUser demoEnv demoUserLib demoNewUser demo0 = (Inr (without_hash demoUserRow), demoUserWorld)"
  using demo_stored
  by (simp add: CreateUser_def bindM_def checkM_def returnM_def tryM_def demoNewUser_def demo_valid demo_email_free
      demo_generated hashPassword_def demoUserRow_def Now_def Let_def)

end
