(* ===== verification/ApiChecks.thy ===== *)
theory ApiChecks
  imports Answers ApiDemo
begin

text \<open>
  The properties of the server as a whole: what requests, calls and background work can do to the
  ledger, who may make them do it, what a retried request does, and what the users and tokens in front promise.
\<close>

section \<open>States and history\<close>

text \<open>In every state the server reaches from an empty database by HTTP requests, gRPC calls, publisher
  passes, reconciliation runs and user administration, in any order and with any failures, the ledger invariant holds,
  the audit chain verifies, and users have distinct identifiers, distinct addresses and one of the three roles.\<close>

theorem server_keeps_invariants:
  assumes "server_reachable H s"
  shows "ledger_inv (committed (svWorld s)) \<and>
    verify_audit_log_chain H (auditT (committed (svWorld s))) = [] \<and>
    distinct (map usID (usersT (committed (svWorld s)))) \<and> distinct (map usEmail (usersT (committed (svWorld s)))) \<and>
    list_all (\<lambda>u. Role_IsValid (usRole u)) (usersT (committed (svWorld s)))"
  using server_reachable_inv [OF assms] by (auto simp: server_inv_def sys_inv_def users_ok_def intro: audit_ok_verify)

theorem server_keeps_invariants_witness:
  "verify_audit_log_chain demoHasher (auditT (committed demoUserWorld)) = [] \<and>
   map usEmail (usersT (committed demoUserWorld)) = [''ann@example.com'']"
proof
  have "server_reachable demoHasher (demoServer demo0)"
    unfolding server_reachable_def
    by (rule exI [of _ "demoServer demo0"]) (simp add: fresh_def demoServer_def demo0_def demoDb0_def)
  moreover have "serves demoHasher (demoServer demo0) (demoServer demoUserWorld)"
    by (rule serves_create_user [of demoEnv demoUserLib demoNewUser])
      (simp add: onWorld_def demo_user_run demoServer_def)
  ultimately have "server_reachable demoHasher (demoServer demoUserWorld)" by (rule server_reachable_step)
  from server_keeps_invariants [OF this]
  show "verify_audit_log_chain demoHasher (auditT (committed demoUserWorld)) = []" by (simp add: demoServer_def)
qed (simp add: demoUserWorld_def demoUserRow_def)

text \<open>A GET request, whatever its path, headers and caller, leaves the database exactly as it was.\<close>

theorem get_is_read_only:
  assumes "rqMethod rq = ''GET''" and "NewRouter D rq ctx s = (resp, s')"
  shows "committed (svWorld s') = committed (svWorld s)"
  using NewRouter_intros(2) [OF assms(1), of D ctx] assms(2) unfolding reads_def by (metis snd_conv)

theorem get_is_read_only_witness:
  "committed (svWorld (snd (NewRouter (demoDeps True) demoGet Background (demoServer demo4)))) = committed demo4"
proof -
  have "committed (svWorld (snd (NewRouter (demoDeps True) demoGet Background (demoServer demo4)))) =
      committed (svWorld (demoServer demo4))"
    by (rule get_is_read_only [OF _ prod.collapse [symmetric]]) (simp add: demoGet_def demoRequest_def)
  then show ?thesis by (simp add: demoServer_def)
qed

text \<open>C27: The answer tells the truth about failure: an HTTP response outside the 2xx range, and a gRPC
  call that returns an error, left accounts, transfers, entries, holds and events as they were.\<close>

theorem error_answers_change_nothing:
  "(NewRouter D rq ctx s = (resp, s1) \<and> \<not> (200 \<le> rsStatus resp \<and> rsStatus resp < 300) \<longrightarrow>
      same_ledger (committed (svWorld s)) (committed (svWorld s1))) \<and>
   (grpcServe D marshal call ctx s = (Inl e, s2) \<longrightarrow>
      same_ledger (committed (svWorld s)) (committed (svWorld s2)))"
proof (intro conjI impI)
  assume "NewRouter D rq ctx s = (resp, s1) \<and> \<not> (200 \<le> rsStatus resp \<and> rsStatus resp < 300)"
  then show "same_ledger (committed (svWorld s)) (committed (svWorld s1))"
    using faithful_NewRouter [of D rq ctx] unfolding faithful_def success_status_def by (metis fst_conv snd_conv)
next
  assume "grpcServe D marshal call ctx s = (Inl e, s2)"
  then show "same_ledger (committed (svWorld s)) (committed (svWorld s2))"
    using clean_grpcServe [of D marshal call ctx] unfolding fails_clean_def by blast
qed

theorem error_answers_change_nothing_witness:
  "same_ledger (committed demo2)
     (committed (svWorld (snd (NewRouter (demoDeps True) (demoPost\<lparr>rqHeaders := []\<rparr>) Background (demoServer demo2)))))"
proof -
  let ?run = "NewRouter (demoDeps True) (demoPost\<lparr>rqHeaders := []\<rparr>) Background (demoServer demo2)"
  have "rsStatus (fst ?run) = 401" by code_simp
  then have "same_ledger (committed (svWorld (demoServer demo2))) (committed (svWorld (snd ?run)))"
    using error_answers_change_nothing [of "demoDeps True" "demoPost\<lparr>rqHeaders := []\<rparr>" Background "demoServer demo2"
      "fst ?run" "snd ?run"] by simp
  then show ?thesis by (simp add: demoServer_def)
qed

section \<open>Answers\<close>



section \<open>Roles\<close>

text \<open>C28: With authentication on, an HTTP request changes the ledger only if it carries a bearer token that the
  token library finds valid under the manager's key, and the claimed role is administrator, or operator on a
  path below transfers or holds.\<close>

theorem http_writes_need_role:
  assumes "dpAuthEnabled D" and "NewRouter D rq ctx s = (resp, s')"
    and "\<not> same_ledger (committed (svWorld s)) (committed (svWorld s'))"
  shows "\<exists>c token t. bearerToken (Header_Get rq ''Authorization'') = Some token \<and>
    jwtParse (dpJwt D) (keyFunc (dpManager D)) t token = Inr (c, True) \<and>
    (clRole c = RoleAdmin \<or> clRole c = RoleOperator \<and> rqPath rq ! 2 \<in> {''transfers'', ''holds''})"
  using http_change_needs_role [OF assms] unfolding http_token_def by blast

theorem http_writes_need_role_witness:
  "\<exists>c token t. bearerToken (Header_Get demoPost ''Authorization'') = Some token \<and>
    jwtParse demoJwt (keyFunc demoManager) t token = Inr (c, True) \<and>
    (clRole c = RoleAdmin \<or> clRole c = RoleOperator \<and> rqPath demoPost ! 2 \<in> {''transfers'', ''holds''})"
proof -
  let ?s = "snd (NewRouter (demoDeps True) demoPost Background (demoServer demo2))"
  have "\<not> same_ledger (committed (svWorld (demoServer demo2))) (committed (svWorld ?s))"
    using demoPost_effect demo_no_transfers by (auto simp: same_ledger_def demoServer_def)
  then show ?thesis
    using http_writes_need_role [of "demoDeps True" demoPost Background "demoServer demo2" _ ?s] prod.collapse
    by (metis demo_deps(2,4,5))
qed

text \<open>C29: The same over gRPC: a call that changes the database carries a valid token of an administrator, or of an
  operator for any method but the creation of accounts.\<close>

theorem grpc_writes_need_role:
  fixes D :: "'d::linordered_idom deps"
  assumes "dpAuthEnabled D" and "gcMethod call = FullMethod (gcRequest call)"
    and "grpcServe D marshal call ctx s = (r, s')" and "committed (svWorld s') \<noteq> committed (svWorld s)"
  shows "\<exists>c md v vs t. gcMetadata call = Some md \<and> MD_Get md ''authorization'' = v # vs \<and>
    jwtParse (dpJwt D) (keyFunc (dpManager D)) t (TrimPrefix v ''Bearer '') = Inr (c, True) \<and>
    (clRole c = RoleAdmin \<or> clRole c = RoleOperator \<and>
       gcMethod call \<noteq> ''/goledger.v1.AccountService/CreateAccount'')"
  using grpc_change_needs_role [OF assms] unfolding grpc_token_def by blast

theorem grpc_writes_need_role_witness:
  "\<exists>c t. jwtParse demoJwt (keyFunc demoManager) t (TrimPrefix ''Bearer tok'' ''Bearer '') = Inr (c, True) \<and>
    (clRole c = RoleAdmin \<or> clRole c = RoleOperator \<and>
       gcMethod demoCall \<noteq> ''/goledger.v1.AccountService/CreateAccount'')"
proof -
  let ?s = "snd (grpcServe (demoDeps True) demoMarshal demoCall Background (demoServer demo2))"
  have m: "gcMethod demoCall = FullMethod (gcRequest demoCall)" by (simp add: demoCall_def)
  have "committed (svWorld ?s) \<noteq> committed (svWorld (demoServer demo2))"
    using demoCall_effect demo_no_transfers by (auto simp: demoServer_def)
  from grpc_writes_need_role [OF _ m prod.collapse [symmetric] this] show ?thesis
    by (auto simp: demoCall_def MD_Get_def)
qed

text \<open>The two transports ask for the same role: for each of the seven operations that write, the route of the
  HTTP API demands what the table of the gRPC interceptor demands.\<close>

theorem transports_agree_on_roles:
  "let role = (\<lambda>p. map_option (\<lambda>(r, vs). rtRole r) (findRoute ''POST'' p (viewRoutes D @ writeRoutes D)));
       table = (\<lambda>q. Some (map_of grpcMethodRoles (FullMethod q)))
   in role [''accounts''] = table (CreateAccountReq n c an ap) \<and>
      role [''transfers''] = table (CreateTransferReq t) \<and>
      role [''transfers'', ''batch''] = table (CreateBatchTransferReq ts ea md) \<and>
      role [''transfers'', i, ''reverse''] = table (ReverseTransferReq i md) \<and>
      role [''holds''] = table (HoldFundsReq i a) \<and>
      role [''holds'', i, ''void''] = table (VoidHoldReq i) \<and>
      role [''holds'', i, ''capture''] = table (CaptureHoldReq i to)"
  by (simp add: viewRoutes_def writeRoutes_def rt_def grpcMethodRoles_def)

section \<open>Retries\<close>

text \<open>C30: While Redis answers and keeps the key, an HTTP request with an idempotency key that was answered with a
  2xx status and a body is answered from then on with that body, without touching the database, whatever
  requests come between and whoever sends it again.\<close>

theorem keyed_request_replays:
  assumes "redis_up (dpRedis D)" and "key_kept (dpRedis D) (idempotencyKey key)"
    and "below_api rq" and "keyed key rq" and "NewRouter D rq Background s = (resp, s1)"
    and "200 \<le> rsStatus resp" and "rsStatus resp < 300" and "rsBody resp \<noteq> []" and "rsBody resp \<noteq> processing"
    and "below_api again" and "keyed key again"
  shows "fst (NewRouter D again Background (http_run D others s1)) = replayed (rsBody resp) \<and>
    svWorld (snd (NewRouter D again Background (http_run D others s1))) = svWorld (http_run D others s1)"
proof -
  have "answered (dpRedis D) key (rsBody resp) s1"
    by (rule Wrap_records [OF assms(1,2,4), of "apiRoutes D (drop 2 (rqPath rq))" "with_meta rq Background" s])
      (use assms(5-9) in \<open>simp_all add: NewRouter_api [OF assms(3)] success_status_def\<close>)
  then have a: "answered (dpRedis D) key (rsBody resp) (http_run D others s1)" by (rule http_run_answered)
  have "rdFault (dpRedis D) n = None" for n using assms(1) by (simp add: redis_up_def)
  from Wrap_replays [OF a assms(11) this] show ?thesis by (simp add: NewRouter_api [OF assms(10)])
qed

theorem keyed_request_replays_witness:
  "let s1 = snd (NewRouter (demoDeps True) demoPost Background (demoServer demo2));
       again = demoPost\<lparr>rqHeaders := [(''Idempotency-Key'', ''key1'')], rqPath := [''api'', ''v1'', ''holds'']\<rparr>
   in fst (NewRouter (demoDeps True) again Background (http_run (demoDeps True) [demoGet] s1)) = replayed ''{}'' \<and>
      svWorld (snd (NewRouter (demoDeps True) again Background (http_run (demoDeps True) [demoGet] s1))) =
        svWorld (http_run (demoDeps True) [demoGet] s1)"
proof -
  let ?run = "NewRouter (demoDeps True) demoPost Background (demoServer demo2)"
  note r = keyed_request_replays [of "demoDeps True" "''key1''" demoPost "demoServer demo2" "fst ?run" "snd ?run"
      "demoPost\<lparr>rqHeaders := [(''Idempotency-Key'', ''key1'')], rqPath := [''api'', ''v1'', ''holds'']\<rparr>" "[demoGet]"]
  show ?thesis unfolding Let_def using r demoPost_effect
    by (simp add: demo_redis below_api_def keyed_def demoPost_def demoRequest_def Header_Get_def first_value_def
        processing_def)
qed

text \<open>C33: A key does not exclude: while its first request is still being processed, a second request with the same
  key runs the handler again, on the database as it then is, and its effect is done twice.\<close>

theorem key_in_flight_runs_again:
  assumes "redis_up (dpRedis D)" and "key_kept (dpRedis D) (idempotencyKey key)"
    and "rdStore (svRedis s) (idempotencyKey key) = Some processing" and "below_api rq" and "keyed key rq"
  shows "\<exists>s'. svWorld s' = svWorld s \<and>
    fst (NewRouter D rq ctx s) = fst (apiRoutes D (drop 2 (rqPath rq)) rq (with_meta rq ctx) s') \<and>
    svWorld (snd (NewRouter D rq ctx s)) = svWorld (snd (apiRoutes D (drop 2 (rqPath rq)) rq (with_meta rq ctx) s'))"
proof -
  let ?R = "dpRedis D" and ?h = "apiRoutes D (drop 2 (rqPath rq))"
  have f: "rdFault ?R n = None" for n using assms(1) by (simp add: redis_up_def)
  have chk: "onRedis (CheckAndSet ?R key None) s =
      (Inr (True, Some processing), s\<lparr>svRedis := snd (CheckAndSet ?R key None (svRedis s))\<rparr>)"
    using CheckAndSet_set [OF assms(2,3)] f by (simp add: onRedis_run bytesOf_def processing_def)
  have "Wrap ?R ?h rq (with_meta rq ctx) s =
      recordResponse ?R key ?h rq (with_meta rq ctx) (s\<lparr>svRedis := snd (CheckAndSet ?R key None (svRedis s))\<rparr>)"
    using assms(5) chk by (auto simp: Wrap_def Let_def keyed_def)
  then show ?thesis
    by (intro exI [of _ "s\<lparr>svRedis := snd (CheckAndSet ?R key None (svRedis s))\<rparr>"])
      (simp add: NewRouter_api [OF assms(4)] recordResponse_world)
qed

theorem key_in_flight_runs_again_witness:
  "let s = demoServer demo2; busy = s\<lparr>svRedis := \<lparr>rdStore = [''idempotency:key1'' \<mapsto> ''processing''], rdCalls = 1\<rparr>\<rparr>
   in \<exists>s'. svWorld s' = demo2 \<and> svWorld (snd (NewRouter (demoDeps True) demoPost Background busy)) =
        svWorld (snd (apiRoutes (demoDeps True) [''transfers''] demoPost (with_meta demoPost Background) s'))"
proof -
  let ?busy = "(demoServer demo2)\<lparr>svRedis := \<lparr>rdStore = [''idempotency:key1'' \<mapsto> ''processing''], rdCalls = 1\<rparr>\<rparr>"
  have "rdStore (svRedis ?busy) (idempotencyKey ''key1'') = Some processing"
    by (simp add: idempotencyKey_def processing_def)
  moreover have "below_api demoPost" "keyed ''key1'' demoPost"
    by (simp_all add: below_api_def keyed_def demoPost_def demoRequest_def Header_Get_def first_value_def)
  moreover have "drop 2 (rqPath demoPost) = [''transfers'']" by (simp add: demoPost_def demoRequest_def)
  ultimately show ?thesis
    using key_in_flight_runs_again [of "demoDeps True" "''key1''" ?busy demoPost Background] demo_redis
    by (auto simp: demoServer_def Let_def)
qed

text \<open>C34: A gRPC idempotency key is spent by the first call of a method that carries it: while Redis answers
  and keeps the key, no later call of the method with that key reaches the server, whatever comes between. Each is
  refused with AlreadyExists or InvalidArgument and the database is not touched. This holds of a first
  call that failed as well: it cannot be retried with its key.\<close>

theorem grpc_key_is_spent:
  fixes D :: "'d::linordered_idom deps"
  assumes "redis_up (dpRedis D)" and "key_kept (dpRedis D) (idempotencyKey (grpcCacheKey m key))"
    and "grpc_keyed m key call" and "marshal (gcRequest call) = Inr data"
    and "grpc_keyed m key again" and "marshal (gcRequest again) = Inr data'"
    and "grpcServe D marshal again ctx (grpc_run D marshal others (snd (grpcServe D marshal call ctx' s))) = (r, s')"
  shows "(\<exists>e. r = Inl e \<and> fst e \<in> {CodeAlreadyExists, CodeInvalidArgument}) \<and>
    svWorld s' = svWorld (grpc_run D marshal others (snd (grpcServe D marshal call ctx' s)))"
  by (rule grpcServe_refuses [OF assms(1) _ assms(5,6,7)], rule grpc_run_claimed,
      rule grpcServe_claims [where marshal = marshal and call = call, OF assms(1-4)])

theorem grpc_key_is_spent_witness:
  "\<exists>e. fst (grpcServe (demoDeps True) demoMarshal demoCall Background (snd
     (grpcServe (demoDeps True) demoMarshal demoCall Background (demoServer demo2)))) = Inl e \<and>
     fst e \<in> {CodeAlreadyExists, CodeInvalidArgument}"
proof -
  let ?m = "''/goledger.v1.TransferService/CreateTransfer''"
  have k: "grpc_keyed ?m ''key1'' demoCall"
    by (simp add: grpc_keyed_def demoCall_def isReadOnlyMethod_def readOnlyMethods_def MD_Get_def)
  note r = grpc_key_is_spent [of "demoDeps True" ?m "''key1''" demoCall demoMarshal _ demoCall _ Background "[]"
      Background "demoServer demo2", OF _ _ k _ k _ prod.collapse [symmetric]]
  show ?thesis using r by (simp add: demo_redis grpc_run_def demoMarshal_def)
qed

section \<open>Errors\<close>

text \<open>Both transports map an error by what it wraps and by nothing else, and the two classifications fit
  together: what is 404 over HTTP is NotFound over gRPC, what is 400 is InvalidArgument or FailedPrecondition, and what
  gRPC calls internal is 500 and is sent without its text.\<close>

theorem error_mapping:
  "mapDomainError (Wrapf e t) = mapDomainError e \<and> mapDomainError (Prefixf t e) = mapDomainError e \<and>
   MapDomainError (Wrapf e t) = MapDomainError e \<and> MapDomainError (Prefixf t e) = MapDomainError e \<and>
   (mapDomainError e = StatusNotFound \<and> fst (MapDomainError e) = CodeNotFound \<or>
    mapDomainError e = StatusBadRequest \<and> fst (MapDomainError e) \<in> {CodeInvalidArgument, CodeFailedPrecondition} \<or>
    mapDomainError e = StatusInternalServerError \<and>
      (fst (MapDomainError e) = CodeInternal \<longleftrightarrow> snd (MapDomainError e) = ''an internal error occurred''))"
proof (intro conjI)
  show "MapDomainError (Wrapf e t) = MapDomainError e" "MapDomainError (Prefixf t e) = MapDomainError e"
    using MapDomainError_root [of "Wrapf e t"] MapDomainError_root [of "Prefixf t e"] MapDomainError_root [of e] by simp_all
  show "mapDomainError e = StatusNotFound \<and> fst (MapDomainError e) = CodeNotFound \<or>
    mapDomainError e = StatusBadRequest \<and> fst (MapDomainError e) \<in> {CodeInvalidArgument, CodeFailedPrecondition} \<or>
    mapDomainError e = StatusInternalServerError \<and>
      (fst (MapDomainError e) = CodeInternal \<longleftrightarrow> snd (MapDomainError e) = ''an internal error occurred'')"
    using MapDomainError_internal [of e] unfolding mapDomainError_root MapDomainError_code
    by (cases "root_err e") (simp_all add: status_defs)
qed (simp_all add: mapDomainError_root)

section \<open>Tokens\<close>

text \<open>C35: A token that was generated for a user verifies, while it has not expired, to claims that name this user: same
  identifier, address and role (given what the token library documents).\<close>

theorem token_roundtrip:
  assumes "jwt_documented J" and "JWT_Generate E J m u w = (Inr token, w1)"
    and "envNow E (nowCount w + 2) \<le> envNow E (nowCount w2)"
    and "envNow E (nowCount w2) < NewNumericDate (envNow E (nowCount w) + jmTokenDuration m)"
    and "envNow E (Suc (nowCount w2)) \<le> NewNumericDate (envNow E (nowCount w) + jmTokenDuration m)"
  shows "\<exists>c w3. Verify E J m token w2 = (Inr c, w3) \<and>
    usID (claimsUser c) = usID u \<and> usEmail (claimsUser c) = usEmail u \<and> usRole (claimsUser c) = usRole u"
proof -
  let ?c = "\<lparr>clUserID = usID u, clEmail = usEmail u, clRole = usRole u,
     clExpiresAt = Some (NewNumericDate (envNow E (nowCount w) + jmTokenDuration m)),
     clIssuedAt = Some (NewNumericDate (envNow E (Suc (nowCount w)))),
     clNotBefore = Some (NewNumericDate (envNow E (nowCount w + 2)))\<rparr>"
  have sign: "jwtSign J (jmSecretKey m) ?c = Inr token"
    using assms(2) by (simp add: JWT_Generate_def bindM_def Now_def Let_def)
  have "NewNumericDate t \<le> t" for t by (simp add: NewNumericDate_def)
  then have "NewNumericDate (envNow E (nowCount w + 2)) \<le> envNow E (nowCount w2)" using assms(3) order_trans by blast
  then have "jwtParse J (keyFunc m) (envNow E (nowCount w2)) token = Inr (?c, True)"
    using assms(1,4) sign unfolding jwt_documented_def by (simp add: keyFunc_def)
  then show ?thesis using assms(5)
    by (intro exI [of _ ?c] exI [of _ "w2\<lparr>nowCount := Suc (Suc (nowCount w2))\<rparr>"]) (simp add: Verify_Inr claimsUser_def)
qed

theorem token_roundtrip_witness:
  "\<exists>c w3. Verify demoEnv demoJwt demoManager ''tok'' demo1 = (Inr c, w3) \<and>
    usID (claimsUser c) = ''u1'' \<and> usEmail (claimsUser c) = ''op@example.com'' \<and> usRole (claimsUser c) = RoleOperator"
proof -
  let ?run = "JWT_Generate demoEnv demoJwt demoManager demoUser demo0"
  have gen: "?run = (Inr ''tok'', snd ?run)" by (intro prod_eqI) code_simp+
  have n: "nowCount demo0 = 0" "nowCount demo1 = 2" "jmTokenDuration demoManager = 3600000000" by code_simp+
  have t: "envNow demoEnv k = int k" for k by (simp add: demoEnv_def)
  show ?thesis
    using token_roundtrip [OF demo_jwt gen, of demo1] by (simp add: n t NewNumericDate_def demoUser_def)
qed

text \<open>Only tokens with an HMAC signature verify, a token with an expiry only up to it, and verifying changes nothing.\<close>

theorem verified_token_is_valid:
  assumes "jwt_documented J" and "Verify E J m token w = (Inr c, w')"
  shows "(\<exists>a. jwtMethod J token = HMAC a) \<and>
    (case clExpiresAt c of None \<Rightarrow> True | Some ex \<Rightarrow> envNow E (Suc (nowCount w)) \<le> ex) \<and>
    committed w' = committed w"
proof -
  have p: "jwtParse J (keyFunc m) (envNow E (nowCount w)) token = Inr (c, True)" using assms(2) by (simp add: Verify_Inr)
  have "\<exists>a. jwtMethod J token = HMAC a"
  proof (cases "jwtMethod J token")
    case (OtherMethod a)
    then obtain e where "keyFunc m (jwtMethod J token) = Inl e" by (simp add: keyFunc_def)
    moreover have "\<forall>kf now token e. kf (jwtMethod J token) = Inl e \<longrightarrow> (\<exists>x. jwtParse J kf now token = Inl x)"
      using assms(1) by (simp add: jwt_documented_def)
    ultimately show ?thesis using p by (metis sum.distinct(1))
  qed simp
  then show ?thesis using assms(2) by (auto simp: Verify_Inr split: option.splits)
qed

theorem verified_token_is_valid_witness:
  "(\<exists>a. jwtMethod demoJwt ''tok'' = HMAC a) \<and> envNow demoEnv 1 \<le> 3600000000"
proof -
  let ?run = "Verify demoEnv demoJwt demoManager ''tok'' demo0"
  have v: "?run = (Inr demoClaims, snd ?run)" by (intro prod_eqI) (code_simp, simp)
  have "nowCount demo0 = 0" by code_simp
  then show ?thesis using verified_token_is_valid [OF demo_jwt v] by (simp add: demoClaims_def)
qed

section \<open>Users\<close>

text \<open>A user that was created can log in with the password given, and gets the same record back; any other password
  that bcrypt tells apart is refused.\<close>

theorem created_user_logs_in:
  assumes "CreateUser E U input w = (Inr u, w1)"
    and "\<And>n p h. bcryptGenerate U n p = Inr h \<Longrightarrow> bcryptCompare U h p"
    and "envFault E' (callCount w1) = None"
  shows "fst (Authenticate E' U (uiEmail input) (uiPassword input) w1) = Inr u"
proof -
  obtain r n where r: "usersT (committed w1) = usersT (committed w) @ [r]" "u = without_hash r"
    "usEmail r = uiEmail input" "usActive r" "bcryptGenerate U n (uiPassword input) = Inr (usHashedPassword r)"
    "usEmail r \<notin> usEmail ` set (usersT (committed w))"
    using CreateUser_Inr [OF assms(1)] by auto
  have "find_row usEmail (uiEmail input) (usersT (committed w1)) = Some r"
    using r find_row_None [of usEmail "usEmail r" "usersT (committed w)"] by (simp add: find_row_append) (simp add: find_row_def)
  then have "Authenticate E' U (uiEmail input) (uiPassword input) w1 = (Inr u, w1\<lparr>callCount := Suc (callCount w1)\<rparr>)"
    using r assms(2) [OF r(5)] assms(3) by (simp add: Authenticate_Inr)
  then show ?thesis by simp
qed

theorem created_user_logs_in_witness:
  "fst (Authenticate demoEnv demoUserLib ''ann@example.com'' ''Passw0rd!'' demoUserWorld) = Inr (without_hash demoUserRow)"
proof -
  have "bcryptGenerate demoUserLib n p = Inr h \<Longrightarrow> bcryptCompare demoUserLib h p" for n p h by auto
  from created_user_logs_in [OF demo_user_run this, where E' = demoEnv] show ?thesis by (simp add: demoNewUser_def)
qed

text \<open>C36: No operation on users hands out a password hash, and only an active user whose stored hash the
  password matches authenticates.\<close>

theorem no_hash_leaves:
  "(CreateUser E U ui w = (Inr u, w1) \<longrightarrow> usHashedPassword u = []) \<and>
   (UpdateUser E U uu w = (Inr u, w1) \<longrightarrow> usHashedPassword u = []) \<and>
   (GetUser E i w = (Inr u, w1) \<longrightarrow> usHashedPassword u = []) \<and>
   (ListUsers E lim off w = (Inr us, w1) \<longrightarrow> list_all (\<lambda>u. usHashedPassword u = []) us) \<and>
   (Authenticate E U email password w = (Inr u, w1) \<longrightarrow> usHashedPassword u = [] \<and>
      (\<exists>r \<in> set (usersT (committed w)). usEmail r = email \<and> usActive r \<and>
         bcryptCompare U (usHashedPassword r) password \<and> u = without_hash r))"
proof (intro conjI impI)
  show "usHashedPassword u = []" if "CreateUser E U ui w = (Inr u, w1)"
    using CreateUser_Inr [OF that] by (auto simp: without_hash_def)
  show "usHashedPassword u = []" if "UpdateUser E U uu w = (Inr u, w1)"
    using that by (auto simp: UpdateUser_def Let_def without_hash_def bindM_def returnM_def split: prod.splits sum.splits)
  show "usHashedPassword u = []" if "GetUser E i w = (Inr u, w1)"
    using that by (auto simp: GetUser_def without_hash_def bindM_def returnM_def split: prod.splits sum.splits)
  show "list_all (\<lambda>u. usHashedPassword u = []) us" if "ListUsers E lim off w = (Inr us, w1)"
    using that by (auto simp: ListUsers_def without_hash_def bindM_def returnM_def list_all_iff split: prod.splits sum.splits)
  assume a: "Authenticate E U email password w = (Inr u, w1)"
  show "usHashedPassword u = []" using a by (auto simp: Authenticate_Inr without_hash_def)
  show "\<exists>r \<in> set (usersT (committed w)). usEmail r = email \<and> usActive r \<and>
      bcryptCompare U (usHashedPassword r) password \<and> u = without_hash r"
    using a find_row_Some by (fastforce simp: Authenticate_Inr)
qed

theorem no_hash_leaves_witness:
  "usHashedPassword (without_hash demoUserRow) = [] \<and> map usHashedPassword (usersT (committed demoUserWorld)) = [''$Passw0rd!'']"
proof
  show "usHashedPassword (without_hash demoUserRow) = []" using no_hash_leaves demo_user_run by blast
qed (simp add: demoUserWorld_def demoUserRow_def)

section \<open>What the transports return\<close>

text \<open>What a transfer that was created looks like and where it is.\<close>

lemma CreateTransfer_stored:
  assumes run: "CreateTransfer E R ctx input w = (Inr t, w')" and inv: "ledger_inv (committed w)"
  shows "trFrom t = ciFrom input \<and> trTo t = ciTo input \<and> trAmount t = ciAmount input \<and> trMetadata t = ciMetadata input \<and>
    find_row trID (trID t) (transfersT (committed w')) = Some t"
proof -
  let ?b = "\<lparr>cbEventAt = ciEventAt input, cbMetadata = ciMetadata input, cbTransfers = [input]\<rparr>"
  obtain ts where b: "CreateBatchTransfer E R ctx ?b w = (Inr ts, w')" and t: "t = hd ts"
    using run by (elim CreateTransfer_batch) (auto split: sum.splits)
  note bd = CreateBatchTransfer_succeeded(1) [OF b inv]
  obtain now eventAt where "list_all2 (asked (ciMetadata input) now eventAt) [input] ts"
    using bd by (auto simp: batch_done_def)
  then have ts: "ts = [t]" "asked (ciMetadata input) now eventAt input t"
    using t by (auto simp: list_all2_Cons1)
  have "t \<in> set (transfersT (committed w'))" using batch_done_effect(1) [OF bd] ts by simp
  moreover have "distinct (map trID (transfersT (committed w')))"
    using batch_done_inv [OF bd inv] by (simp add: ledger_inv_def keys_ok_def)
  ultimately have "find_row trID (trID t) (transfersT (committed w')) = Some t" by (rule find_row_unique [rotated])
  moreover have "trFrom t = ciFrom input" "trTo t = ciTo input" "trAmount t = ciAmount input" "trMetadata t = ciMetadata input"
    using ts(2) by (simp_all add: asked_def) (metis transfer_of_simps)+
  ultimately show ?thesis by simp
qed

lemma stringEntries_AnyStr: "stringEntries (map (\<lambda>(k, v). (k, AnyStr v)) kvs) = kvs"
  by (induction kvs) auto

lemma metadata_roundtrip: "metadataToPb (MetadataToMap m) = (case m of None \<Rightarrow> [] | Some kvs \<Rightarrow> kvs)"
  by (simp add: metadataToPb_def MetadataToMap_def stringEntries_AnyStr split: option.split)

lemma answer_Inr: "answer f m s = (Inr r, s') \<longleftrightarrow> (\<exists>x w. m (svWorld s) = (Inr x, w) \<and> r = f x \<and> s' = s\<lparr>svWorld := w\<rparr>)"
  by (auto simp: answer_def bindM_def withStatus_def onWorld_def returnM_def split: prod.splits sum.splits)



text \<open>Without authentication, reading an account over HTTP answers 200 with the stored row, or 404 when there is none,
  if the database answers.\<close>

theorem http_get_account:
  assumes "rqMethod rq = ''GET''" and "rqPath rq = [''api'', ''v1'', ''accounts'', i]" and "i \<noteq> []"
    and "\<not> dpAuthEnabled D" and "envFault (dpEnv D) (callCount (svWorld s)) = None"
  shows "fst (NewRouter D rq ctx s) =
    (case find_row accID i (accountsT (committed (svWorld s))) of
       Some a \<Rightarrow> writeJSON (dpLib D) StatusOK (AccountFromDomain (dpLib D) a)
     | None \<Rightarrow> writeError (dpLib D) StatusNotFound ''failed to get account'')"
proof -
  have found: "findRoute ''GET'' [''accounts'', i] (viewRoutes D @ writeRoutes D) =
      Some (rt ''GET'' [Lit ''accounts'', Param] None (\<lambda>ps. AccountHandler_Get D (hd ps)), [i])"
    using assms(3) by (simp add: viewRoutes_def rt_def)
  have api: "NewRouter D rq ctx s = AccountHandler_Get D i rq (with_meta rq ctx) s"
    using assms(1,2,4) found
    by (simp add: NewRouter_api below_api_def Wrap_def apiRoutes_def requireAuth_def optionalRole_def rt_def)
  show ?thesis using assms(3,5) unfolding api
    by (simp add: AccountHandler_Get_def orRespond_def onWorld_def GetAccount_def accountRepo_GetByID_def
        translateM_def poolStmt_def dbCall_def sql_GetAccountByID_def one_row_def noRowsAs_def mapDomainError_root
        status_defs Let_def split: option.split)
qed

theorem http_get_account_witness:
  "rsStatus (fst (NewRouter (demoDeps False) demoGet Background (demoServer demo4))) = 200 \<and>
   rsBody (fst (NewRouter (demoDeps False) demoGet Background (demoServer demo4))) = ''{}''"
proof -
  have "find_row accID ''id2'' (accountsT (committed demo4)) \<noteq> None" by code_simp
  then obtain a where a: "find_row accID ''id2'' (accountsT (committed demo4)) = Some a" by blast
  have "envFault demoEnv n = None" for n by (simp add: demoEnv_def)
  then show ?thesis using http_get_account [of demoGet "''id2''" "demoDeps False" "demoServer demo4" Background] a
    by (simp add: demoGet_def demoRequest_def demoServer_def writeJSON_def status_defs)
      (simp add: demoDeps_def demoLib_def)
qed

text \<open>Whoever calls over gRPC, the audit rows of the call name the user system, without address, agent or
  request: the interceptor stores the caller where the audit does not look.\<close>

theorem grpc_audit_is_anonymous:
  "(\<exists>e s'. AuthInterceptor E J m h call Background s = (Inl e, s')) \<or>
   (\<exists>c s' ctx. AuthInterceptor E J m h call Background s = h call ctx s' \<and>
      cxGrpcUser ctx = Some (claimsUser c) \<and> auditActor ctx = (''system'', [], [], []))"
proof (rule AuthInterceptor_cases [of E J m h call Background s])
  fix c s'
  assume "AuthInterceptor E J m h call Background s = h call (Background\<lparr>cxGrpcUser := Some (claimsUser c)\<rparr>) s'"
  then show ?thesis
    by (intro disjI2 exI [of _ c] exI [of _ s'] exI [of _ "Background\<lparr>cxGrpcUser := Some (claimsUser c)\<rparr>"])
      (simp add: auditActor_def UserFromContext_def RequestMetaFromContext_def Background_def)
qed blast

end
