(* ===== verification/Cli.thy ===== *)
theory Cli
  imports Service
begin

text \<open>
  The command line tool (\<^verbatim>\<open>src/cmd/cli/main.go\<close>): every command with what it prints, the exit code
  and what it does to the database. Parsing of flags and arguments belongs to the command library, so a
  command is given with its parameters. The database connection, the migration runner, the JSON
  printer of domain values and the decimal parser come from outside and are the fields of \<open>cli_env\<close>;
  what a migration does to a database is a parameter too (\<open>migrator\<close>), with \<^verbatim>\<open>migrator.go\<close> over it.
\<close>

datatype 'd cli_value =
    VAccount "'d account"
  | VAccounts "'d account list"
  | VTransfer "'d transfer"
  | VHold "'d hold"
  | VEvents "'d outbox_event list"
  | VBreaks "(string \<times> string) list"

record 'd migrator =
  mgNew :: "err option"
  mgUp :: "'d db \<Rightarrow> err option \<times> 'd db"
  mgBack :: "'d db \<Rightarrow> err option \<times> 'd db"
  mgErrNoChange :: err

record 'd cli_env =
  ceEnv :: env
  ceLib :: "'d lib"
  ceUsers :: user_lib
  ceDatabaseURL :: string
  ceConnect :: "err option"
  cePing :: "err option"
  ceMigrate :: "'d migrator"
  ceMarshal :: "'d cli_value \<Rightarrow> err + string"
  ceBadAmount :: "string \<Rightarrow> string"
  ceJSON :: bool

type_synonym 'd cli_run = "'d world \<Rightarrow> (nat \<times> string) \<times> 'd world"

section \<open>Printing\<close>

definition nl :: string where "nl = [CHR 0x0A]"
definition crossMark :: string where "crossMark = [CHR 0xE2, CHR 0x9D, CHR 0x8C, CHR '' '']"
definition checkMark :: string where "checkMark = [CHR 0xE2, CHR 0x9C, CHR 0x85, CHR '' '']"
definition sign_link :: string where "sign_link = [CHR 0xF0, CHR 0x9F, CHR 0x94, CHR 0x97, CHR '' '']"
definition sign_box :: string where "sign_box = [CHR 0xF0, CHR 0x9F, CHR 0x93, CHR 0xA6, CHR '' '']"
definition sign_user :: string where "sign_user = [CHR 0xF0, CHR 0x9F, CHR 0x91, CHR 0xA4, CHR '' '']"
definition sign_warn :: string where
  "sign_warn = [CHR 0xE2, CHR 0x9A, CHR 0xA0, CHR 0xEF, CHR 0xB8, CHR 0x8F, CHR '' '', CHR '' '']"
definition sign_party :: string where "sign_party = [CHR 0xF0, CHR 0x9F, CHR 0x8E, CHR 0x89, CHR '' '']"
definition sign_mail :: string where "sign_mail = [CHR 0xF0, CHR 0x9F, CHR 0x93, CHR 0xA7, CHR '' '']"
definition sign_key :: string where "sign_key = [CHR 0xF0, CHR 0x9F, CHR 0x94, CHR 0x91, CHR '' '']"

definition showInt :: "int \<Rightarrow> string" where
  "showInt z = (if z < 0 then ''-'' @ itoa (nat (- z)) else itoa (nat z))"

text \<open>\<^verbatim>\<open>utf8.RuneCountInString\<close>: a byte that begins no well-formed sequence counts for itself.\<close>

definition byte :: "char \<Rightarrow> nat" where
  "byte c = of_char c"

definition tails :: "nat \<Rightarrow> string \<Rightarrow> bool" where
  "tails n s \<longleftrightarrow> n \<le> length s \<and> list_all (\<lambda>c. 0x80 \<le> byte c \<and> byte c \<le> 0xBF) (take n s)"

definition second :: "nat \<Rightarrow> nat \<Rightarrow> string \<Rightarrow> bool" where
  "second lo hi s \<longleftrightarrow> s \<noteq> [] \<and> lo \<le> byte (hd s) \<and> byte (hd s) \<le> hi"

definition rune_rest :: "char \<Rightarrow> string \<Rightarrow> nat" where
  "rune_rest c s =
     (let b = byte c in
      if 0xC2 \<le> b \<and> b \<le> 0xDF \<and> tails 1 s then 1
      else if b = 0xE0 \<and> tails 2 s \<and> second 0xA0 0xBF s then 2
      else if b = 0xED \<and> tails 2 s \<and> second 0x80 0x9F s then 2
      else if 0xE1 \<le> b \<and> b \<le> 0xEF \<and> b \<noteq> 0xED \<and> tails 2 s then 2
      else if b = 0xF0 \<and> tails 3 s \<and> second 0x90 0xBF s then 3
      else if b = 0xF4 \<and> tails 3 s \<and> second 0x80 0x8F s then 3
      else if 0xF1 \<le> b \<and> b \<le> 0xF3 \<and> tails 3 s then 3
      else 0)"

function rune_count :: "string \<Rightarrow> nat" where
  "rune_count [] = 0"
| "rune_count (c # s) = Suc (rune_count (drop (rune_rest c s) s))"
  by pat_completeness auto
termination by (relation "measure length") auto

text \<open>\<^verbatim>\<open>%-ns\<close>\<close>

definition padRight :: "nat \<Rightarrow> string \<Rightarrow> string" where
  "padRight n s = s @ replicate (n - rune_count s) (CHR '' '')"

definition truncate :: "string \<Rightarrow> nat \<Rightarrow> string" where
  "truncate s n = (if length s \<le> n then s else take (n - 3) s @ ''...'')"

definition row :: "(nat \<times> string) list \<Rightarrow> string" where
  "row cells = joinStrings '' '' (map (\<lambda>(n, s). padRight n s) cells) @ nl"

definition showErr :: "'d cli_env \<Rightarrow> err \<Rightarrow> string" where
  "showErr C e = errText (extErrText (envHasher (ceEnv C))) e"

text \<open>A line that reports an error; every such line is followed by \<^verbatim>\<open>os.Exit(1)\<close>.\<close>

definition failed :: "'d cli_env \<Rightarrow> string \<Rightarrow> err \<Rightarrow> nat \<times> string" where
  "failed C what e = (1, crossMark @ what @ '': '' @ showErr C e @ nl)"

definition printJSON :: "'d cli_env \<Rightarrow> 'd cli_value \<Rightarrow> nat \<times> string" where
  "printJSON C v =
     (case ceMarshal C v of
        Inl e \<Rightarrow> (1, ''Error marshaling JSON: '' @ showErr C e @ nl)
      | Inr s \<Rightarrow> (0, s @ nl))"

text \<open>\<^verbatim>\<open>if jsonOutput { printJSON(v) } else { \<dots> }\<close>\<close>

definition report :: "'d cli_env \<Rightarrow> 'd cli_value \<Rightarrow> string \<Rightarrow> nat \<times> string" where
  "report C v out = (if ceJSON C then printJSON C v else (0, out))"

section \<open>Connecting\<close>

definition mustConnectDB :: "'d cli_env \<Rightarrow> 'd cli_run \<Rightarrow> 'd cli_run" where
  "mustConnectDB C k w =
     (if ceDatabaseURL C = []
      then ((1, crossMark @ ''Error: DATABASE_URL is required'' @ nl @
                ''   Set via --database-url or DATABASE_URL env var'' @ nl), w)
      else case ceConnect C of
        Some e \<Rightarrow> (failed C ''Failed to connect to database'' e, w)
      | None \<Rightarrow>
         (case cePing C of
            Some e \<Rightarrow> (failed C ''Failed to ping database'' e, w)
          | None \<Rightarrow> k w))"

text \<open>\<^verbatim>\<open>x, err := m(); if err != nil { \<dots> os.Exit(1) }; \<dots>\<close>\<close>

definition orExit :: "('d, 'a) act \<Rightarrow> (err \<Rightarrow> nat \<times> string) \<Rightarrow> ('a \<Rightarrow> nat \<times> string) \<Rightarrow> 'd cli_run" where
  "orExit m onErr onOk w = (case m w of (Inl e, w') \<Rightarrow> (onErr e, w') | (Inr x, w') \<Rightarrow> (onOk x, w'))"

section \<open>Migrations (migrator.go)\<close>

definition RunMigrations :: "'d migrator \<Rightarrow> ('d, unit) act" where
  "RunMigrations M w =
     (case mgNew M of
        Some e \<Rightarrow> (Inl (Prefixf ''failed to create migrate instance'' e), w)
      | None \<Rightarrow>
         (case mgUp M (committed w) of
            (Some e, d) \<Rightarrow>
              (if errors_Is e (mgErrNoChange M) then Inr ()
               else Inl (Prefixf ''failed to run migrations'' e), w\<lparr>committed := d\<rparr>)
          | (None, d) \<Rightarrow> (Inr (), w\<lparr>committed := d\<rparr>)))"

definition RunMigrationsDown :: "'d migrator \<Rightarrow> ('d, unit) act" where
  "RunMigrationsDown M w =
     (case mgNew M of
        Some e \<Rightarrow> (Inl (Prefixf ''failed to create migrate instance'' e), w)
      | None \<Rightarrow>
         (case mgBack M (committed w) of
            (Some e, d) \<Rightarrow> (Inl (Prefixf ''failed to rollback migration'' e), w\<lparr>committed := d\<rparr>)
          | (None, d) \<Rightarrow> (Inr (), w\<lparr>committed := d\<rparr>)))"

definition migrateUpCmd :: "'d cli_env \<Rightarrow> 'd cli_run" where
  "migrateUpCmd C =
     mustConnectDB C (orExit (RunMigrations (ceMigrate C)) (failed C ''Migration failed'')
       (\<lambda>_. (0, checkMark @ ''Migrations applied successfully'' @ nl)))"

definition migrateDownCmd :: "'d cli_env \<Rightarrow> 'd cli_run" where
  "migrateDownCmd C =
     mustConnectDB C (orExit (RunMigrationsDown (ceMigrate C)) (failed C ''Rollback failed'')
       (\<lambda>_. (0, checkMark @ ''Migration rolled back successfully'' @ nl)))"

section \<open>Users\<close>

text \<open>No validation: whatever address, password and role are given.\<close>

fun roleOf :: "string \<Rightarrow> role" where
  "roleOf s =
     (if s = ''admin'' then RoleAdmin else if s = ''operator'' then RoleOperator
      else if s = ''viewer'' then RoleViewer else OtherRole s)"

definition cli_createUser ::
  "'d cli_env \<Rightarrow> string \<Rightarrow> string \<Rightarrow> string \<Rightarrow> string \<Rightarrow> ('d, unit) act" where
  "cli_createUser C email name password rol =
     bindM (translateM (Prefixf ''failed to hash password'') (hashPassword (ceUsers C) password)) (\<lambda>hashed.
     bindM (Generate (ceEnv C)) (\<lambda>i.
     bindM (Now (ceEnv C)) (\<lambda>t1.
     bindM (Now (ceEnv C)) (\<lambda>t2.
     userRepo_Create (ceEnv C) \<lparr>usID = i, usEmail = email, usName = name, usHashedPassword = hashed,
       usRole = roleOf rol, usCreatedAt = t1, usUpdatedAt = t2, usActive = True\<rparr>))))"

definition setupCmd :: "'d cli_env \<Rightarrow> string \<Rightarrow> string \<Rightarrow> string \<Rightarrow> 'd cli_run" where
  "setupCmd C adminEmail adminPassword adminName w =
     (let connecting = sign_link @ ''Connecting to database...'' @ nl;
          connected = connecting @ checkMark @ ''Connected to database'' @ nl @
            sign_box @ ''Running migrations...'' @ nl;
          migrated = connected @ checkMark @ ''Migrations applied'' @ nl @
            sign_user @ ''Creating admin user...'' @ nl;
          done_text = nl @ sign_party @ ''Setup complete!'' @ nl @ nl @
            sign_mail @ ''Login: '' @ adminEmail @ nl @ sign_key @ ''Password: '' @ adminPassword @ nl
      in if ceDatabaseURL C = []
         then ((1, crossMark @ ''Error: DATABASE_URL is required'' @ nl @
                   ''   Set it via --database-url flag or DATABASE_URL environment variable'' @ nl), w)
         else case ceConnect C of
           Some e \<Rightarrow> ((1, connecting @ snd (failed C ''Failed to connect'' e)), w)
         | None \<Rightarrow>
            (case RunMigrations (ceMigrate C) w of
               (Inl e, w') \<Rightarrow> ((1, connected @ snd (failed C ''Migration failed'' e)), w')
             | (Inr _, w') \<Rightarrow>
                 orExit (cli_createUser C adminEmail adminName adminPassword ''admin'')
                   (\<lambda>e. (0, migrated @ sign_warn @ ''Admin creation: '' @ showErr C e @ nl @ done_text))
                   (\<lambda>_. (0, migrated @ checkMark @ ''Admin user created: '' @ adminEmail @ nl @ done_text)) w'))"

definition userCreateCmd :: "'d cli_env \<Rightarrow> string \<Rightarrow> string \<Rightarrow> string \<Rightarrow> string \<Rightarrow> 'd cli_run" where
  "userCreateCmd C email password name rol =
     mustConnectDB C (orExit (cli_createUser C email name password rol)
       (failed C ''Failed to create user'')
       (\<lambda>_. (0, checkMark @ ''User created: '' @ email @ '' (role: '' @ rol @ '')'' @ nl)))"

definition userRow :: "user \<Rightarrow> string" where
  "userRow u = row [(36, usID u), (30, usEmail u), (15, truncate (usName u) 15), (10, roleText (usRole u)),
     (8, if usActive u then ''yes'' else ''no'')]"

definition userListCmd :: "'d cli_env \<Rightarrow> 'd cli_run" where
  "userListCmd C =
     mustConnectDB C (orExit (userRepo_List (ceEnv C) 100 0)
       (failed C ''Failed to list users'')
       (\<lambda>us. (0, if us = [] then ''No users found'' @ nl
         else row [(36, ''ID''), (30, ''EMAIL''), (15, ''NAME''), (10, ''ROLE''), (8, ''ACTIVE'')] @
              replicate 96 (CHR ''-'') @ nl @ concat (map userRow us))))"

definition hashPasswordCmd :: "'d cli_env \<Rightarrow> string \<Rightarrow> 'd cli_run" where
  "hashPasswordCmd C password =
     orExit (hashPassword (ceUsers C) password)
       (\<lambda>e. (1, ''Error: '' @ showErr C e @ nl)) (\<lambda>h. (0, h @ nl))"

section \<open>Accounts\<close>

definition accountCreateCmd :: "'d::linordered_idom cli_env \<Rightarrow> CreateAccountInput \<Rightarrow> 'd cli_run" where
  "accountCreateCmd C input =
     mustConnectDB C (orExit (CreateAccount (ceEnv C) Background input)
       (failed C ''Failed to create account'')
       (\<lambda>a. report C (VAccount a)
          (checkMark @ ''Account created: '' @ accID a @ nl @
           ''   Name: '' @ accName a @ nl @ ''   Currency: '' @ accCurrency a @ nl)))"

definition accountRow :: "'d cli_env \<Rightarrow> 'd account \<Rightarrow> string" where
  "accountRow C a = row [(28, accID a), (20, truncate (accName a) 20), (8, accCurrency a),
     (15, decString (ceLib C) (accBalance a))]"

definition accountListCmd :: "'d cli_env \<Rightarrow> int \<Rightarrow> int \<Rightarrow> 'd cli_run" where
  "accountListCmd C limit offset =
     mustConnectDB C (orExit (ListAccounts (ceEnv C) limit offset)
       (failed C ''Failed to list accounts'')
       (\<lambda>as. report C (VAccounts as)
          (row [(28, ''ID''), (20, ''NAME''), (8, ''CURRENCY''), (15, ''BALANCE'')] @
           replicate 71 (CHR ''-'') @ nl @ concat (map (accountRow C) as))))"

definition accountGetCmd :: "'d cli_env \<Rightarrow> string \<Rightarrow> 'd cli_run" where
  "accountGetCmd C i =
     mustConnectDB C (orExit (GetAccount (ceEnv C) i)
       (failed C ''Account not found'')
       (\<lambda>a. report C (VAccount a)
          (''ID:       '' @ accID a @ nl @ ''Name:     '' @ accName a @ nl @
           ''Currency: '' @ accCurrency a @ nl @
           ''Balance:  '' @ decString (ceLib C) (accBalance a) @ nl @
           ''Version:  '' @ showInt (accVersion a) @ nl)))"

section \<open>Transfers\<close>

text \<open>\<^verbatim>\<open>amt, err := decimal.NewFromString(amount); if err != nil { \<dots> os.Exit(1) }\<close>\<close>

definition withAmount :: "'d cli_env \<Rightarrow> string \<Rightarrow> ('d \<Rightarrow> 'd cli_run) \<Rightarrow> 'd cli_run" where
  "withAmount C amount k w =
     (case decFromString (ceLib C) amount of
        None \<Rightarrow> ((1, crossMark @ ''Invalid amount: '' @ ceBadAmount C amount @ nl), w)
      | Some amt \<Rightarrow> k amt w)"

text \<open>The description is a flag of the command that nothing reads.\<close>

definition transferCreateCmd ::
  "'d::linordered_idom cli_env \<Rightarrow> string \<Rightarrow> string \<Rightarrow> string \<Rightarrow> string \<Rightarrow> 'd cli_run" where
  "transferCreateCmd C fromID toID amount description =
     mustConnectDB C (withAmount C amount (\<lambda>amt.
       orExit (CreateTransfer (ceEnv C) NoopRetrier Background
           \<lparr>ciEventAt = None, ciMetadata = None, ciFrom = fromID, ciTo = toID, ciAmount = amt, ciReversed = None\<rparr>)
         (failed C ''Failed to create transfer'')
         (\<lambda>t. report C (VTransfer t)
            (checkMark @ ''Transfer created: '' @ trID t @ nl @ ''   From: '' @ trFrom t @ nl @
             ''   To:   '' @ trTo t @ nl @ ''   Amount: '' @ decString (ceLib C) (trAmount t) @ nl))))"

definition transferGetCmd :: "'d cli_env \<Rightarrow> string \<Rightarrow> 'd cli_run" where
  "transferGetCmd C i =
     mustConnectDB C (orExit (GetTransfer (ceEnv C) i)
       (failed C ''Transfer not found'')
       (\<lambda>t. report C (VTransfer t)
          (''ID:     '' @ trID t @ nl @ ''From:   '' @ trFrom t @ nl @
           ''To:     '' @ trTo t @ nl @ ''Amount: '' @ decString (ceLib C) (trAmount t) @ nl)))"

section \<open>Holds\<close>

definition holdCreateCmd ::
  "'d::linordered_idom cli_env \<Rightarrow> string \<Rightarrow> string \<Rightarrow> string \<Rightarrow> 'd cli_run" where
  "holdCreateCmd C accountID amount description =
     mustConnectDB C (withAmount C amount (\<lambda>amt.
       orExit (HoldFunds (ceEnv C) Background accountID amt)
         (failed C ''Failed to create hold'')
         (\<lambda>h. report C (VHold h)
            (checkMark @ ''Hold created: '' @ hoID h @ nl @ ''   Account: '' @ hoAccount h @ nl @
             ''   Amount: '' @ decString (ceLib C) (hoAmount h) @ nl))))"

definition holdCaptureCmd :: "'d::linordered_idom cli_env \<Rightarrow> string \<Rightarrow> string \<Rightarrow> 'd cli_run" where
  "holdCaptureCmd C i toID =
     mustConnectDB C (orExit (CaptureHold (ceEnv C) Background i toID)
       (failed C ''Failed to capture hold'')
       (\<lambda>t. report C (VTransfer t) (checkMark @ ''Hold captured, transfer created: '' @ trID t @ nl)))"

definition holdVoidCmd :: "'d::linordered_idom cli_env \<Rightarrow> string \<Rightarrow> 'd cli_run" where
  "holdVoidCmd C i =
     mustConnectDB C (orExit (VoidHold (ceEnv C) Background i)
       (failed C ''Failed to void hold'')
       (\<lambda>_. (0, checkMark @ ''Hold voided: '' @ i @ nl)))"

section \<open>Ledger, audit trail, outbox\<close>

definition checkConsistency :: "'d::linordered_idom cli_env \<Rightarrow> 'd cli_run" where
  "checkConsistency C =
     orExit (CheckConsistency (ceEnv C)) (failed C ''Consistency check failed'')
       (\<lambda>consistent. if consistent then (0, checkMark @ ''Ledger is consistent'' @ nl)
          else (1, crossMark @ ''Ledger is NOT consistent'' @ nl))"

definition ledgerConsistencyCmd :: "'d::linordered_idom cli_env \<Rightarrow> 'd cli_run" where
  "ledgerConsistencyCmd C = mustConnectDB C (checkConsistency C)"

definition fetchAuditChainBreaks :: "env \<Rightarrow> ('d, (string \<times> string) list) act" where
  "fetchAuditChainBreaks E = poolStmt E (query (\<lambda>d. verify_audit_log_chain (envHasher E) (auditT d)))"

definition verifyAuditChain :: "'d cli_env \<Rightarrow> 'd cli_run" where
  "verifyAuditChain C =
     orExit (fetchAuditChainBreaks (ceEnv C)) (failed C ''Chain verification failed'')
       (\<lambda>breaks.
         if ceJSON C
         then let (code, out) = printJSON C (VBreaks breaks) in (if breaks = [] then code else 1, out)
         else if breaks = [] then (0, checkMark @ ''Audit log hash chain is intact'' @ nl)
         else (1, crossMark @ ''Audit log hash chain has '' @ itoa (length breaks) @ '' break(s):'' @ nl @
                concat (map (\<lambda>(i, reason). ''   '' @ i @ '': '' @ reason @ nl) breaks)))"

definition auditVerifyChainCmd :: "'d cli_env \<Rightarrow> 'd cli_run" where
  "auditVerifyChainCmd C = mustConnectDB C (verifyAuditChain C)"

fun eventText :: "event_type \<Rightarrow> string" where
  "eventText EventTypeTransferCreated = ''transfer.created''"
| "eventText EventTypeTransferReversed = ''transfer.reversed''"
| "eventText EventTypeHoldCreated = ''hold.created''"
| "eventText EventTypeHoldVoided = ''hold.voided''"
| "eventText EventTypeHoldCaptured = ''hold.captured''"
| "eventText EventTypeAccountCreated = ''account.created''"

fun aggregateText :: "aggregate_type \<Rightarrow> string" where
  "aggregateText AggregateTypeTransfer = ''transfer''"
| "aggregateText AggregateTypeHold = ''hold''"
| "aggregateText AggregateTypeAccount = ''account''"

definition deadLetterLine :: "'d cli_env \<Rightarrow> 'd outbox_event \<Rightarrow> string" where
  "deadLetterLine C e =
     ''  '' @ obID e @ ''  '' @ aggregateText (obAggregateType e) @ ''/'' @ obAggregateID e @ ''  '' @
     eventText (obEventType e) @ ''  attempts='' @ showInt (obAttempts e) @ ''  last_error='' @
     truncate (case obLastError e of None \<Rightarrow> [] | Some err \<Rightarrow> showErr C err) 80 @ nl"

definition listDeadLetters :: "'d cli_env \<Rightarrow> 'd cli_run" where
  "listDeadLetters C =
     orExit (outboxRepo_GetDeadLettered (ceEnv C) 100 0) (failed C ''Failed to list dead letters'')
       (\<lambda>events. report C (VEvents events)
          (if events = [] then checkMark @ ''No dead-lettered outbox events'' @ nl
           else ''Found '' @ itoa (length events) @ '' dead-lettered event(s):'' @ nl @
             concat (map (deadLetterLine C) events)))"

definition outboxDeadLettersCmd :: "'d cli_env \<Rightarrow> 'd cli_run" where
  "outboxDeadLettersCmd C = mustConnectDB C (listDeadLetters C)"

section \<open>The tool\<close>

datatype cli_command =
    CmdSetup string string string
  | CmdMigrateUp
  | CmdMigrateDown
  | CmdUserCreate string string string string
  | CmdUserList
  | CmdAccountCreate CreateAccountInput
  | CmdAccountList int int
  | CmdAccountGet string
  | CmdTransferCreate string string string string
  | CmdTransferGet string
  | CmdHoldCreate string string string
  | CmdHoldCapture string string
  | CmdHoldVoid string
  | CmdLedgerConsistency
  | CmdAuditVerifyChain
  | CmdOutboxDeadLetters
  | CmdHashPassword string

fun cli_main :: "'d::linordered_idom cli_env \<Rightarrow> cli_command \<Rightarrow> 'd cli_run" where
  "cli_main C (CmdSetup email password name) = setupCmd C email password name"
| "cli_main C CmdMigrateUp = migrateUpCmd C"
| "cli_main C CmdMigrateDown = migrateDownCmd C"
| "cli_main C (CmdUserCreate email password name rol) = userCreateCmd C email password name rol"
| "cli_main C CmdUserList = userListCmd C"
| "cli_main C (CmdAccountCreate input) = accountCreateCmd C input"
| "cli_main C (CmdAccountList limit offset) = accountListCmd C limit offset"
| "cli_main C (CmdAccountGet i) = accountGetCmd C i"
| "cli_main C (CmdTransferCreate fromID toID amount description) = transferCreateCmd C fromID toID amount description"
| "cli_main C (CmdTransferGet i) = transferGetCmd C i"
| "cli_main C (CmdHoldCreate accountID amount description) = holdCreateCmd C accountID amount description"
| "cli_main C (CmdHoldCapture i toID) = holdCaptureCmd C i toID"
| "cli_main C (CmdHoldVoid i) = holdVoidCmd C i"
| "cli_main C CmdLedgerConsistency = ledgerConsistencyCmd C"
| "cli_main C CmdAuditVerifyChain = auditVerifyChainCmd C"
| "cli_main C CmdOutboxDeadLetters = outboxDeadLettersCmd C"
| "cli_main C (CmdHashPassword password) = hashPasswordCmd C password"

end
