(* ===== verification/CliLaws.thy ===== *)
theory CliLaws
  imports Cli Guards
begin

text \<open>
  What the command line tool does to the database: every command but the roll-back of the schema has an
  effect of the ledger, adds a user, or reads; a command that exits with a failure has left the ledger
  as it was. Then the whole installation as a step relation: server and tool on one database.
\<close>

section \<open>Effects\<close>

inductive user_added :: "'d db \<Rightarrow> 'd db \<Rightarrow> bool" where
  no_user: "user_added d d"
| one_user: "usID u \<notin> usID ` set (usersT d) \<Longrightarrow> usEmail u \<notin> usEmail ` set (usersT d) \<Longrightarrow>
    user_added d (d\<lparr>usersT := usersT d @ [u]\<rparr>)"

inductive_cases user_addedE: "user_added d d'"

definition cli_effect :: "hasher \<Rightarrow> 'd::linordered_idom db \<Rightarrow> 'd db \<Rightarrow> bool" where
  "cli_effect H d d' \<longleftrightarrow> ledger_effect H d d' \<or> user_added d d'"

definition touches :: "hasher \<Rightarrow> ('d::linordered_idom world \<Rightarrow> 'x \<times> 'd world) \<Rightarrow> bool" where
  "touches H f \<longleftrightarrow> (\<forall>w. sys_inv H (committed w) \<longrightarrow> cli_effect H (committed w) (committed (snd (f w))))"

text \<open>A run whose failures leave the ledger alone.\<close>

definition clean_exit :: "'d cli_run \<Rightarrow> bool" where
  "clean_exit f \<longleftrightarrow> (\<forall>w. fst (fst (f w)) = 0 \<or> same_ledger (committed w) (committed (snd (f w))))"

definition clean :: "('d, 'a) act \<Rightarrow> bool" where
  "clean m \<longleftrightarrow> (\<forall>w e w'. m w = (Inl e, w') \<longrightarrow> same_ledger (committed w) (committed w'))"

text \<open>The JSON printer is not asked, or answers.\<close>

definition prints :: "'d cli_env \<Rightarrow> bool" where
  "prints C \<longleftrightarrow> (ceJSON C \<longrightarrow> (\<forall>v. \<not> isl (ceMarshal C v)))"

text \<open>The schema is up to date: applying migrations changes no data.\<close>

definition migrated :: "'d migrator \<Rightarrow> bool" where
  "migrated M \<longleftrightarrow> (\<forall>d. snd (mgUp M d) = d)"

named_theorems cli_intros "how commands of the tool compose"

lemma touches_keeps: "keeps committed m \<Longrightarrow> touches H m"
  by (simp add: touches_def keeps_def cli_effect_def ledger_effect_refl)

lemma touches_does:
  fixes m :: "('d::linordered_idom, 'a) act"
  assumes "does H (onWorld m)"
  shows "touches H m"
  unfolding touches_def
proof (intro allI impI)
  fix w :: "'d world" assume "sys_inv H (committed w)"
  then show "cli_effect H (committed w) (committed (snd (m w)))"
    using assms [unfolded does_def, rule_format, of "\<lparr>svWorld = w, svRedis = undefined\<rparr>"]
    by (simp add: onWorld_def cli_effect_def split: prod.splits)
qed

lemma clean_server:
  fixes m :: "('d, 'a) act"
  assumes "fails_clean (onWorld m)"
  shows "clean m"
  unfolding clean_def
proof (intro allI impI)
  fix w e w' assume "m w = (Inl e, w')"
  then show "same_ledger (committed w) (committed w')"
    using assms [unfolded fails_clean_def, rule_format, of "\<lparr>svWorld = w, svRedis = undefined\<rparr>"]
    by (simp add: onWorld_def)
qed

lemma orExit_run:
  "snd (orExit m e k w) = snd (m w)"
  "fst (orExit m e k w) = (case fst (m w) of Inl x \<Rightarrow> e x | Inr x \<Rightarrow> k x)"
  by (simp_all add: orExit_def split: prod.splits sum.splits)

lemma touches_orExit [cli_intros]: "touches H m \<Longrightarrow> touches H (orExit m e k)"
  by (simp add: touches_def orExit_run)

lemma clean_orExit: "clean m \<Longrightarrow> (\<And>x. fst (k x) = 0) \<Longrightarrow> clean_exit (orExit m e k)"
  unfolding clean_exit_def clean_def by (auto simp: orExit_def split: prod.splits sum.splits)

lemma reads_orExit: "keeps committed m \<Longrightarrow> clean_exit (orExit m e k)"
  by (simp add: clean_exit_def orExit_run keeps_def)

lemma touches_pure: "touches H (\<lambda>w. (r, w))"
  by (simp add: touches_def cli_effect_def no_user)

lemma mustConnectDB_cases:
  "(\<exists>out. mustConnectDB C k w = ((1, out), w)) \<or> mustConnectDB C k w = k w"
  by (auto simp: mustConnectDB_def failed_def split: option.split)

lemma withAmount_cases:
  "(\<exists>out. withAmount C amount k w = ((1, out), w)) \<or> (\<exists>amt. withAmount C amount k w = k amt w)"
  by (auto simp: withAmount_def split: option.split)

lemma touches_connect [cli_intros]: "touches H k \<Longrightarrow> touches H (mustConnectDB C k)"
  unfolding touches_def using mustConnectDB_cases [of C k] cli_effect_def no_user by (metis snd_conv)

lemma touches_amount [cli_intros]: "(\<And>amt. touches H (k amt)) \<Longrightarrow> touches H (withAmount C amount k)"
  unfolding touches_def using withAmount_cases [of C amount k] cli_effect_def no_user by (metis snd_conv)

lemma clean_connect [cli_intros]: "clean_exit k \<Longrightarrow> clean_exit (mustConnectDB C k)"
  unfolding clean_exit_def using mustConnectDB_cases [of C k] same_ledger_refl by (metis snd_conv)

lemma clean_amount [cli_intros]: "(\<And>amt. clean_exit (k amt)) \<Longrightarrow> clean_exit (withAmount C amount k)"
  unfolding clean_exit_def using withAmount_cases [of C amount k] same_ledger_refl by (metis snd_conv)

lemma report_code [simp]: "prints C \<Longrightarrow> fst (report C v out) = 0"
  by (auto simp: report_def printJSON_def prints_def isl_def split: sum.split)

section \<open>Users and migrations\<close>

definition adds_user :: "('d, 'a) act \<Rightarrow> bool" where
  "adds_user m \<longleftrightarrow> (\<forall>w. case m w of
     (Inl e, w') \<Rightarrow> committed w' = committed w
   | (Inr x, w') \<Rightarrow> user_added (committed w) (committed w'))"

lemma adds_user_bind:
  assumes "keeps committed m" and "\<And>x. adds_user (f x)"
  shows "adds_user (bindM m f)"
  unfolding adds_user_def
proof
  fix w
  obtain r v where m: "m w = (r, v)" by fastforce
  then have v: "committed v = committed w" using keepsD [OF assms(1)] by metis
  show "case bindM m f w of (Inl e, w') \<Rightarrow> committed w' = committed w
      | (Inr x, w') \<Rightarrow> user_added (committed w) (committed w')"
  proof (cases r)
    case (Inr x)
    then show ?thesis using assms(2) [unfolded adds_user_def, of x, rule_format, of v] m v
      by (simp add: bindM_def split: prod.splits sum.splits)
  qed (simp add: bindM_def m v)
qed

lemma adds_user_Create: "adds_user (userRepo_Create E u)"
  by (auto simp: adds_user_def userRepo_Create_def poolStmt_def dbCall_def Let_def has_row_iff
      intro: one_user split: option.splits)

lemma adds_user_createUser: "adds_user (cli_createUser C email name password rol)"
  unfolding cli_createUser_def by (intro adds_user_bind adds_user_Create frame_intros)

lemma touches_adds: "adds_user m \<Longrightarrow> touches H m"
  unfolding touches_def adds_user_def cli_effect_def
  by (metis (mono_tags, lifting) no_user old.prod.case old.sum.simps(5,6) prod.collapse sum.exhaust)

lemma clean_adds: "adds_user m \<Longrightarrow> clean m"
  unfolding clean_def adds_user_def by (metis (mono_tags, lifting) old.prod.case old.sum.simps(5) same_ledger_refl)

lemma keeps_RunMigrations: "migrated M \<Longrightarrow> keeps committed (RunMigrations M)"
  by (auto simp: keeps_def migrated_def RunMigrations_def split: option.split prod.split) (metis snd_conv)+

section \<open>Commands\<close>

lemma keeps_chain_breaks: "keeps committed (fetchAuditChainBreaks E)"
  unfolding fetchAuditChainBreaks_def by (intro keeps_pool_read st_reads_intros)

lemma keeps_dead_letters: "keeps committed (outboxRepo_GetDeadLettered E lim off)"
  unfolding outboxRepo_GetDeadLettered_def sql_GetDeadLetteredEvents_def by (intro keeps_pool_read st_reads_intros)

lemmas cli_reads = keeps_queries keeps_userRepo_List keeps_chain_breaks keeps_dead_letters keeps_hashPassword

lemmas cmd_defs =
  migrateUpCmd_def userCreateCmd_def userListCmd_def accountCreateCmd_def accountListCmd_def accountGetCmd_def
  transferCreateCmd_def transferGetCmd_def holdCreateCmd_def holdCaptureCmd_def holdVoidCmd_def
  ledgerConsistencyCmd_def checkConsistency_def auditVerifyChainCmd_def verifyAuditChain_def
  outboxDeadLettersCmd_def listDeadLetters_def hashPasswordCmd_def

lemma setupCmd_cases:
  assumes "migrated (ceMigrate C)"
  shows "fst (fst (setupCmd C email password name w)) = 1 \<and>
      committed (snd (setupCmd C email password name w)) = committed w \<or>
    (\<exists>w'. committed w' = committed w \<and> fst (fst (setupCmd C email password name w)) = 0 \<and>
      snd (setupCmd C email password name w) = snd (cli_createUser C email name password ''admin'' w'))"
proof -
  obtain r w' where m: "RunMigrations (ceMigrate C) w = (r, w')" by fastforce
  then have c: "committed w' = committed w" using keepsD [OF keeps_RunMigrations [OF assms]] by metis
  show ?thesis
  proof (cases "ceDatabaseURL C = [] \<or> ceConnect C \<noteq> None \<or> isl r")
    case True
    then show ?thesis using m c
      by (intro disjI1) (auto simp: setupCmd_def Let_def isl_def split: option.split)
  next
    case False
    then obtain u where "r = Inr u" by (cases r) auto
    then show ?thesis using False m c
      by (intro disjI2 exI [of _ w']) (simp add: setupCmd_def Let_def orExit_run split: sum.split)
  qed
qed

lemma touches_cli:
  fixes C :: "'d::linordered_idom cli_env"
  assumes "envHasher (ceEnv C) = H" and "migrated (ceMigrate C)" and "cmd \<noteq> CmdMigrateDown"
  shows "touches H (cli_main C cmd)"
proof (cases cmd)
  case (CmdSetup email password name)
  show ?thesis unfolding touches_def
  proof (intro allI impI)
    fix w :: "'d world" assume inv: "sys_inv H (committed w)"
    show "cli_effect H (committed w) (committed (snd (cli_main C cmd w)))"
      using setupCmd_cases [OF assms(2), of email password name w]
    proof (elim disjE exE conjE)
      assume "committed (snd (setupCmd C email password name w)) = committed w"
      then show ?thesis by (simp add: CmdSetup cli_effect_def no_user)
    next
      fix w'
      assume "snd (setupCmd C email password name w) = snd (cli_createUser C email name password ''admin'' w')"
        and "committed w' = committed w"
      then show ?thesis
        using touches_adds [OF adds_user_createUser, of H C email name password "''admin''",
            unfolded touches_def, rule_format, of w'] inv
        by (simp add: CmdSetup)
    qed
  qed
qed (insert assms, simp_all only: cli_main.simps cmd_defs,
    auto intro!: cli_intros does_use_cases [THEN touches_does] adds_user_createUser [THEN touches_adds]
      cli_reads [THEN touches_keeps] keeps_RunMigrations [THEN touches_keeps])

lemma clean_reading_cmds:
  "migrated (ceMigrate C) \<Longrightarrow> clean_exit (migrateUpCmd C)" "clean_exit (userListCmd C)"
  "clean_exit (accountListCmd C limit offset)" "clean_exit (accountGetCmd C i)" "clean_exit (transferGetCmd C i)"
  "clean_exit (outboxDeadLettersCmd C)" "clean_exit (hashPasswordCmd C password)"
  unfolding cmd_defs by (intro cli_intros reads_orExit cli_reads keeps_RunMigrations; assumption)+

lemma clean_checks: "clean_exit (ledgerConsistencyCmd C)" "clean_exit (auditVerifyChainCmd C)"
  unfolding cmd_defs by (intro cli_intros reads_orExit cli_reads)+

lemma clean_writing_cmds:
  assumes "prints C"
  shows "clean_exit (userCreateCmd C email password name rol)" "clean_exit (accountCreateCmd C ai)"
    "clean_exit (transferCreateCmd C fromID toID amount description)"
    "clean_exit (holdCreateCmd C accountID amount description)"
    "clean_exit (holdCaptureCmd C i toID)" "clean_exit (holdVoidCmd C i)"
  unfolding cmd_defs using assms
  by (auto intro!: cli_intros clean_orExit clean_use_cases [THEN clean_server] adds_user_createUser [THEN clean_adds])

lemma clean_cli:
  fixes C :: "'d::linordered_idom cli_env"
  assumes "migrated (ceMigrate C)" and "prints C" and "cmd \<noteq> CmdMigrateDown"
  shows "clean_exit (cli_main C cmd)"
proof (cases cmd)
  case (CmdSetup email password name)
  show ?thesis unfolding clean_exit_def
  proof
    fix w :: "'d world"
    show "fst (fst (cli_main C cmd w)) = 0 \<or> same_ledger (committed w) (committed (snd (cli_main C cmd w)))"
      using setupCmd_cases [OF assms(1), of email password name w]
      by (elim disjE exE conjE) (simp_all add: CmdSetup)
  qed
qed (use assms in \<open>simp_all add: clean_reading_cmds clean_writing_cmds clean_checks\<close>)

section \<open>Exit codes\<close>

definition connected :: "'d cli_env \<Rightarrow> bool" where
  "connected C \<longleftrightarrow> ceDatabaseURL C \<noteq> [] \<and> ceConnect C = None \<and> cePing C = None"

lemma mustConnectDB_connected: "connected C \<Longrightarrow> mustConnectDB C k w = k w"
  by (simp add: mustConnectDB_def connected_def)

lemma mustConnectDB_code: "fst (fst (mustConnectDB C k w)) = 0 \<longleftrightarrow> connected C \<and> fst (fst (k w)) = 0"
  by (auto simp: mustConnectDB_def connected_def failed_def split: option.split)

lemma verify_code:
  assumes "prints C"
  shows "fst (fst (verifyAuditChain C w)) = 0 \<longleftrightarrow> envFault (ceEnv C) (callCount w) = None \<and>
    verify_audit_log_chain (envHasher (ceEnv C)) (auditT (committed w)) = []"
  using assms
  by (auto simp: verifyAuditChain_def orExit_run fetchAuditChainBreaks_def poolStmt_def dbCall_def query_def Let_def
      failed_def printJSON_def prints_def isl_def split: option.splits sum.splits)

section \<open>The installation\<close>

text \<open>Server and tool work on one database; a run of the tool is one step. Rolling the schema back is not among
  the steps: it drops columns and tables.\<close>

inductive operates :: "hasher \<Rightarrow> 'd::linordered_idom server \<Rightarrow> 'd server \<Rightarrow> bool" for H where
  operates_serve: "serves H s s' \<Longrightarrow> operates H s s'"
| operates_cli: "envHasher (ceEnv C) = H \<Longrightarrow> migrated (ceMigrate C) \<Longrightarrow> cmd \<noteq> CmdMigrateDown \<Longrightarrow>
    cli_main C cmd (svWorld s) = (out, w) \<Longrightarrow> operates H s (s\<lparr>svWorld := w\<rparr>)"

inductive_cases operatesE: "operates H s s'"

definition unique_users :: "'d db \<Rightarrow> bool" where
  "unique_users d \<longleftrightarrow> distinct (map usID (usersT d)) \<and> distinct (map usEmail (usersT d))"

lemma unique_users_empty: "unique_users empty_db"
  by (simp add: unique_users_def empty_db_def)

definition installation_inv :: "hasher \<Rightarrow> 'd::linordered_idom server \<Rightarrow> bool" where
  "installation_inv H s \<longleftrightarrow> sys_inv H (committed (svWorld s)) \<and> unique_users (committed (svWorld s))"

lemma user_change_unique:
  assumes "user_change us us'" and "distinct (map usID us)" and "distinct (map usEmail us)"
  shows "distinct (map usID us') \<and> distinct (map usEmail us')"
  using assms
proof (cases rule: user_change.cases)
  case (user_set u i)
  have "map usEmail (update_rows usID i (set_user u) us) = map usEmail us" by (simp add: update_rows_def)
  then show ?thesis using assms(2,3) user_set(1) by simp
qed (auto simp: distinct_map_filter_key)

lemma operates_effect:
  assumes "operates H s s'" and "sys_inv H (committed (svWorld s))"
  obtains "ledger_effect H (committed (svWorld s)) (committed (svWorld s'))"
  | "but_users (committed (svWorld s')) = but_users (committed (svWorld s))"
    "unique_users (committed (svWorld s)) \<Longrightarrow> unique_users (committed (svWorld s'))"
proof -
  from assms(1) show ?thesis
  proof cases
    case operates_serve
    then show ?thesis
      using serves_effect [OF _ assms(2)] that user_change_unique unfolding user_effect_def unique_users_def by metis
  next
    case (operates_cli C cmd out w)
    have "cli_effect H (committed (svWorld s)) (committed w)"
      using touches_cli [OF operates_cli(2-4)] assms(2) operates_cli(5) unfolding touches_def by (metis snd_conv)
    then show ?thesis using that operates_cli(1)
      by (auto simp: cli_effect_def unique_users_def elim!: user_addedE)
  qed
qed

lemma operates_inv:
  assumes "operates H s s'" and "installation_inv H s"
  shows "installation_inv H s'"
proof -
  have inv: "sys_inv H (committed (svWorld s))" "unique_users (committed (svWorld s))"
    using assms(2) by (simp_all add: installation_inv_def)
  show ?thesis using assms(1) inv(1)
  proof (rule operates_effect)
    assume e: "ledger_effect H (committed (svWorld s)) (committed (svWorld s'))"
    show ?thesis using ledger_effect_inv [OF e inv(1)] ledger_effect_users [OF e] inv(2)
      by (simp add: installation_inv_def unique_users_def)
  next
    assume b: "but_users (committed (svWorld s')) = but_users (committed (svWorld s))"
      and u: "unique_users (committed (svWorld s)) \<Longrightarrow> unique_users (committed (svWorld s'))"
    show ?thesis
      using u [OF inv(2)] inv(1) b sys_inv_but_users [of H "committed (svWorld s)"]
        sys_inv_but_users [of H "committed (svWorld s')"]
      by (simp add: installation_inv_def)
  qed
qed

interpretation installation: step_invariant fresh "operates H" "installation_inv H" for H
proof
  show "fresh s \<Longrightarrow> installation_inv H s" for s
    by (simp add: fresh_def installation_inv_def sys_inv_def ledger_inv_empty audit_ok_empty unique_users_empty)
qed (rule operates_inv)

definition installed :: "hasher \<Rightarrow> 'd::linordered_idom server \<Rightarrow> bool" where
  "installed H s \<longleftrightarrow> (\<exists>s0. fresh s0 \<and> (operates H)\<^sup>*\<^sup>* s0 s)"

lemma installed_inv: "installed H s \<Longrightarrow> installation_inv H s"
  unfolding installed_def using installation.reachable_ok by blast

lemma installed_step: "installed H s \<Longrightarrow> operates H s s' \<Longrightarrow> installed H s'"
  unfolding installed_def by (meson rtranclp.rtrancl_into_rtrancl)

lemma server_reachable_installed:
  assumes "server_reachable H s"
  shows "installed H s"
proof -
  obtain s0 where "fresh s0" "(serves H)\<^sup>*\<^sup>* s0 s" using assms by (auto simp: server_reachable_def)
  moreover have "(operates H)\<^sup>*\<^sup>* s0 s"
    using rtranclp_mono [of "serves H" "operates H"] operates_serve \<open>(serves H)\<^sup>*\<^sup>* s0 s\<close> by blast
  ultimately show ?thesis by (auto simp: installed_def)
qed

lemma operates_past_kept:
  assumes "operates H s s'" and "installation_inv H s"
  shows "past_kept (committed (svWorld s)) (committed (svWorld s'))"
proof -
  have inv: "sys_inv H (committed (svWorld s))" using assms(2) by (simp add: installation_inv_def)
  show ?thesis using assms(1) inv
    by (rule operates_effect) (auto intro: ledger_effect_past [OF _ inv] but_users_past)
qed

interpretation installation_history: step_history fresh "operates H" "installation_inv H"
    "\<lambda>s s'. past_kept (committed (svWorld s)) (committed (svWorld s'))" for H
  by unfold_locales (auto intro: past_kept_refl past_kept_trans operates_past_kept)

end
