(* ===== verification/CliChecks.thy ===== *)
theory CliChecks
  imports CliLaws ApiDemo
begin

text \<open>
  The properties of the command line tool and of the installation it shares with the server, each with an
  instance over the demo run.
\<close>

definition demoCli :: "int cli_env" where
  "demoCli = \<lparr>ceEnv = demoEnv, ceLib = demoLib, ceUsers = demoUserLib, ceDatabaseURL = ''db'', ceConnect = None,
     cePing = None, ceMigrate = \<lparr>mgNew = None, mgUp = (\<lambda>d. (Some (PlainErr ''no change''), d)),
       mgBack = (\<lambda>d. (None, empty_db)), mgErrNoChange = PlainErr ''no change''\<rparr>,
     ceMarshal = (\<lambda>v. Inr ''{}''), ceBadAmount = (\<lambda>s. s), ceJSON = False\<rparr>"

lemma demoCli_simps [simp]:
  "envHasher (ceEnv demoCli) = demoHasher" "migrated (ceMigrate demoCli)" "prints demoCli" "connected demoCli"
  "ceEnv demoCli = demoEnv" "ceUsers demoCli = demoUserLib"
  by (simp_all add: demoCli_def migrated_def prints_def connected_def)

lemma demoCli_account: "cli_main demoCli (CmdAccountCreate (demoAccount True)) demo0 =
    (fst (cli_main demoCli (CmdAccountCreate (demoAccount True)) demo0), demo1)"
  by (intro prod_eqI)
    (simp_all add: accountCreateCmd_def mustConnectDB_connected orExit_run demo1_run)

lemma demo_installed: "installed demoHasher (demoServer demo1)"
proof -
  have "installed demoHasher (demoServer demo0)"
    unfolding installed_def
    by (rule exI [of _ "demoServer demo0"]) (simp add: fresh_def demoServer_def demo0_def demoDb0_def)
  moreover have "operates demoHasher (demoServer demo0) ((demoServer demo0)\<lparr>svWorld := demo1\<rparr>)"
    by (rule operates_cli [of demoCli _ "CmdAccountCreate (demoAccount True)", OF _ _ _ trans [OF _ demoCli_account]])
      (simp_all add: demoServer_def)
  ultimately show ?thesis using installed_step by (force simp: demoServer_def)
qed

section \<open>The installation\<close>

text \<open>C31: Whatever server and command line tool do to one database, in any order and with any failures, short of
  rolling the schema back: the ledger invariant holds, the audit chain verifies, no two users share an identifier
  or an address, and what was recorded once (transfers, entries, holds that ended) stays as it was.\<close>

theorem installation_keeps_invariants:
  assumes "installed H s" and "(operates H)\<^sup>*\<^sup>* s s'"
  shows "ledger_inv (committed (svWorld s')) \<and> verify_audit_log_chain H (auditT (committed (svWorld s'))) = [] \<and>
    distinct (map usID (usersT (committed (svWorld s')))) \<and>
    distinct (map usEmail (usersT (committed (svWorld s')))) \<and>
    past_kept (committed (svWorld s)) (committed (svWorld s'))"
  using installation_history.run_kept [OF assms(2) installed_inv [OF assms(1)]]
  by (auto simp: installation_inv_def unique_users_def sys_inv_def intro: audit_ok_verify)

theorem installation_keeps_invariants_witness:
  "verify_audit_log_chain demoHasher (auditT (committed demo1)) = [] \<and> length (auditT (committed demo1)) = 1"
proof
  show "verify_audit_log_chain demoHasher (auditT (committed demo1)) = []"
    using installation_keeps_invariants [OF demo_installed rtranclp.rtrancl_refl] by (simp add: demoServer_def)
  show "length (auditT (committed demo1)) = 1" by code_simp
qed

section \<open>Exit codes\<close>

text \<open>C32: A command of the tool that exits with a failure has left accounts, transfers, entries, holds, events and
  users as they were (the schema being up to date, and the JSON printer not failing on a value it is given).\<close>

theorem failed_command_changes_nothing:
  assumes "migrated (ceMigrate C)" and "prints C" and "cmd \<noteq> CmdMigrateDown"
    and "cli_main C cmd w = ((code, out), w')" and "code \<noteq> 0"
  shows "same_ledger (committed w) (committed w')"
  using clean_cli [OF assms(1-3)] assms(4,5) unfolding clean_exit_def by (metis fst_conv snd_conv)

theorem failed_command_changes_nothing_witness:
  "\<exists>out w'. cli_main demoCli (CmdTransferCreate ''id0'' ''id9'' ''100'' []) demo2 = ((1, out), w') \<and>
     same_ledger (committed demo2) (committed w')"
proof -
  let ?run = "cli_main demoCli (CmdTransferCreate ''id0'' ''id9'' ''100'' []) demo2"
  have c: "fst (fst ?run) = 1" by code_simp
  then have "?run = ((1, snd (fst ?run)), snd ?run)" by (intro prod_eqI) simp_all
  moreover from failed_command_changes_nothing [OF _ _ _ this]
  have "same_ledger (committed demo2) (committed (snd ?run))" by simp
  ultimately show ?thesis by blast
qed

text \<open>The exit code of \<^verbatim>\<open>audit verify-chain\<close> is the verdict: it is 0 exactly when the tool reached the
  database and every row of the chain verifies; and the command changes nothing.\<close>

theorem verify_chain_exit_code:
  assumes "prints C"
  shows "(fst (fst (cli_main C CmdAuditVerifyChain w)) = 0 \<longleftrightarrow>
      connected C \<and> envFault (ceEnv C) (callCount w) = None \<and>
      verify_audit_log_chain (envHasher (ceEnv C)) (auditT (committed w)) = []) \<and>
    committed (snd (cli_main C CmdAuditVerifyChain w)) = committed w"
proof
  have k: "committed (snd (verifyAuditChain C w)) = committed w"
    using keeps_chain_breaks unfolding keeps_def by (auto simp: verifyAuditChain_def orExit_run)
  then show "committed (snd (cli_main C CmdAuditVerifyChain w)) = committed w"
    using mustConnectDB_cases [of C "verifyAuditChain C" w] by (auto simp: auditVerifyChainCmd_def)
qed (simp add: auditVerifyChainCmd_def mustConnectDB_code verify_code [OF assms])

theorem verify_chain_exit_code_witness:
  "fst (fst (cli_main demoCli CmdAuditVerifyChain demo4)) = 0 \<and>
   fst (fst (cli_main demoCli CmdAuditVerifyChain
     (demo4\<lparr>committed := (committed demo4)\<lparr>auditT := tl (auditT (committed demo4))\<rparr>\<rparr>))) \<noteq> 0"
proof -
  have "verify_audit_log_chain demoHasher (auditT (committed demo4)) = []" by code_simp
  moreover have "verify_audit_log_chain demoHasher (tl (auditT (committed demo4))) \<noteq> []" by code_simp
  ultimately show ?thesis
    using verify_chain_exit_code [of demoCli] by (simp add: demoEnv_def demoHasher_def)
qed

section \<open>Users\<close>

text \<open>\<^verbatim>\<open>user create\<close> checks nothing: given a working database and a password bcrypt takes, any address that
  is not taken, any password and any role, one of the three or not, is stored as it is.\<close>

theorem cli_user_unchecked:
  assumes "connected C" and "\<And>n. envFault (ceEnv C) n = None"
    and "bcryptGenerate (ceUsers C) (callCount w) password = Inr h"
    and "usEmail ` set (usersT (committed w)) \<inter> {email} = {}"
    and "envID (ceEnv C) (idCount w) \<notin> usID ` set (usersT (committed w))"
    and "char_count (envID (ceEnv C) (idCount w)) \<le> 255" and "char_count email \<le> 255" and "char_count name \<le> 255"
    and "char_count h \<le> 255" and "char_count rol \<le> 50"
  shows "fst (fst (cli_main C (CmdUserCreate email password name rol) w)) = 0 \<and>
    (\<exists>u. usersT (committed (snd (cli_main C (CmdUserCreate email password name rol) w))) =
       usersT (committed w) @ [u] \<and> usEmail u = email \<and> usRole u = roleOf rol \<and> usHashedPassword u = h \<and> usActive u)"
proof -
  have r: "roleText (roleOf rol) = rol" by simp
  show ?thesis using assms(3-10)
    by (simp add: userCreateCmd_def mustConnectDB_connected [OF assms(1)] orExit_run cli_createUser_def bindM_def
        translateM_def hashPassword_def Generate_def Now_def userRepo_Create_def poolStmt_def dbCall_def assms(2)
        user_too_long_def has_row_iff r Let_def del: roleOf.simps)
qed

theorem cli_user_unchecked_witness:
  "\<exists>u. usersT (committed (snd (cli_main demoCli (CmdUserCreate ''nobody'' ''x'' [] ''root'') demo0))) = [u] \<and>
     usEmail u = ''nobody'' \<and> \<not> Role_IsValid (usRole u) \<and> ValidateEmail ''nobody'' \<noteq> None \<and> ValidatePassword ''x'' \<noteq> None"
proof -
  have c: "char_count ''id0'' \<le> 255" "char_count ''nobody'' \<le> 255" "char_count [] \<le> 255" "char_count ''$x'' \<le> 255"
    "char_count ''root'' \<le> 50" "envID demoEnv 0 = ''id0''" "usersT (committed demo0) = []" "idCount demo0 = 0"
    "envFault demoEnv n = None" for n
    by code_simp+
  have v: "\<not> Role_IsValid (roleOf ''root'')" "ValidateEmail ''nobody'' \<noteq> None" "ValidatePassword ''x'' \<noteq> None"
    by code_simp+
  show ?thesis
    using cli_user_unchecked [of demoCli demo0 "''x''" "''$x''" "''nobody''" "[]" "''root''"] c v
    by (auto simp: demoUserLib_def)
qed

end
