(* ===== verification/Edge.thy ===== *)
theory Edge
  imports Server
begin

text \<open>
  The middleware around the API that keeps state of its own: the rate limiter \<^verbatim>\<open>ratelimit.go\<close>, which
  the router installs when it is given one (the server gives it none), and the request counter of
  \<^verbatim>\<open>middleware/metrics.go\<close> with the path it counts under; and the request log of \<^verbatim>\<open>logging.go\<close>. The token bucket is \<^verbatim>\<open>x/time/rate\<close>, a parameter.
\<close>

section \<open>Rate limiting\<close>

record ('r, 'l) limiter_lib =
  NewLimiter :: "'r \<Rightarrow> int \<Rightarrow> 'l"
  Allow :: "int \<Rightarrow> 'l \<Rightarrow> bool \<times> 'l"

record ('r, 'l) RateLimiter =
  rlLimiters :: "string \<rightharpoonup> 'l"
  rlRate :: 'r
  rlBurst :: int

definition NewRateLimiter :: "'r \<Rightarrow> int \<Rightarrow> ('r, 'l) RateLimiter" where
  "NewRateLimiter r b = \<lparr>rlLimiters = Map.empty, rlRate = r, rlBurst = b\<rparr>"

definition getLimiter :: "('r, 'l) limiter_lib \<Rightarrow> ('r, 'l) RateLimiter \<Rightarrow> string \<Rightarrow> 'l \<times> ('r, 'l) RateLimiter" where
  "getLimiter L rl ip =
     (case rlLimiters rl ip of
        Some limiter \<Rightarrow> (limiter, rl)
      | None \<Rightarrow> let limiter = NewLimiter L (rlRate rl) (rlBurst rl)
               in (limiter, rl\<lparr>rlLimiters := (rlLimiters rl)(ip \<mapsto> limiter)\<rparr>))"

definition getIP :: "request \<Rightarrow> string" where
  "getIP rq =
     (let forwarded = Header_Get rq ''X-Forwarded-For''; realIP = Header_Get rq ''X-Real-Ip''
      in if forwarded \<noteq> [] then forwarded else if realIP \<noteq> [] then realIP else rqRemoteAddr rq)"

text \<open>The limiter a map entry points to is changed in place.\<close>

definition Limit ::
  "('r, 'l) limiter_lib \<Rightarrow> int \<Rightarrow> 'd http_handler \<Rightarrow> request \<Rightarrow> context_values \<Rightarrow>
   ('r, 'l) RateLimiter \<times> 'd server \<Rightarrow> response \<times> ('r, 'l) RateLimiter \<times> 'd server" where
  "Limit L now handler rq ctx = (\<lambda>(rl, s).
     let ip = getIP rq; (limiter, rl) = getLimiter L rl ip; (allowed, limiter') = Allow L now limiter;
         rl = rl\<lparr>rlLimiters := (rlLimiters rl)(ip \<mapsto> limiter')\<rparr>
     in if \<not> allowed then (http_Error ''rate limit exceeded'' 429, rl, s)
        else let (resp, s') = handler rq ctx s in (resp, rl, s'))"

definition CleanupLimiters :: "('r, 'l) RateLimiter \<Rightarrow> ('r, 'l) RateLimiter" where
  "CleanupLimiters rl = rl\<lparr>rlLimiters := Map.empty\<rparr>"

subsection \<open>A limiter per key\<close>

text \<open>The requests in the order they are served, each with its instant; which of them pass.\<close>

fun limit_run ::
  "('r, 'l) limiter_lib \<Rightarrow> 'd http_handler \<Rightarrow> (int \<times> request \<times> context_values) list \<Rightarrow>
   ('r, 'l) RateLimiter \<times> 'd server \<Rightarrow> (request \<times> response) list \<times> ('r, 'l) RateLimiter \<times> 'd server" where
  "limit_run L h [] st = ([], st)"
| "limit_run L h ((now, rq, ctx) # rqs) st =
     (let (resp, st') = Limit L now h rq ctx st; (out, st'') = limit_run L h rqs st'
      in ((rq, resp) # out, st''))"

text \<open>One bucket asked at these instants.\<close>

fun bucket :: "('r, 'l) limiter_lib \<Rightarrow> 'l \<Rightarrow> int list \<Rightarrow> bool list" where
  "bucket L l [] = []"
| "bucket L l (now # ts) = fst (Allow L now l) # bucket L (snd (Allow L now l)) ts"

definition limiter_of :: "('r, 'l) limiter_lib \<Rightarrow> ('r, 'l) RateLimiter \<Rightarrow> string \<Rightarrow> 'l" where
  "limiter_of L rl k = (case rlLimiters rl k of Some l \<Rightarrow> l | None \<Rightarrow> NewLimiter L (rlRate rl) (rlBurst rl))"

definition refused :: "response" where
  "refused = http_Error ''rate limit exceeded'' 429"

lemma getLimiter_of: "fst (getLimiter L rl k) = limiter_of L rl k"
  by (simp add: getLimiter_def limiter_of_def Let_def split: option.split)

lemma Limit_run:
  assumes "Limit L now h rq ctx (rl, s) = (resp, rl', s')"
  shows "rl' = rl\<lparr>rlLimiters := (rlLimiters rl)(getIP rq \<mapsto> snd (Allow L now (limiter_of L rl (getIP rq))))\<rparr>"
    and "if fst (Allow L now (limiter_of L rl (getIP rq))) then h rq ctx s = (resp, s') else resp = refused \<and> s' = s"
  using assms
  by (auto simp: Limit_def getLimiter_def limiter_of_def refused_def Let_def split: option.splits prod.splits if_splits)

lemma limiter_of_update:
  "limiter_of L (rl\<lparr>rlLimiters := (rlLimiters rl)(k' \<mapsto> l)\<rparr>) k = (if k = k' then l else limiter_of L rl k)"
  by (simp add: limiter_of_def split: option.split)

text \<open>Whatever else is asked, the requests under one key meet one bucket: its verdicts are those of the bucket
  alone, and a request it refuses does not reach the handler.\<close>

lemma limit_run_bucket:
  assumes "\<And>rq ctx s. fst (h rq ctx s) \<noteq> refused" and "limit_run L h rqs (rl, s) = (out, st)"
  shows "map (\<lambda>(rq, resp). resp \<noteq> refused) (filter (\<lambda>(rq, resp). getIP rq = k) out) =
    bucket L (limiter_of L rl k) (map fst (filter (\<lambda>(now, rq, ctx). getIP rq = k) rqs))"
  using assms(2)
proof (induction rqs arbitrary: rl s out st)
  case (Cons x rqs)
  obtain now rq ctx where x: "x = (now, rq, ctx)" by (cases x)
  obtain resp rl' s' where one: "Limit L now h rq ctx (rl, s) = (resp, rl', s')" by (metis prod.collapse)
  obtain out' st' where rest: "limit_run L h rqs (rl', s') = (out', st')"
    by (cases "limit_run L h rqs (rl', s')")
  have out: "out = (rq, resp) # out'" using Cons.prems by (simp add: x one rest)
  have v: "(resp \<noteq> refused) = fst (Allow L now (limiter_of L rl (getIP rq)))"
    using Limit_run(2) [OF one] assms(1) by (metis fst_conv)
  show ?case using Cons.IH [OF rest] v Limit_run(1) [OF one] by (auto simp: out x limiter_of_update)
qed simp

text \<open>The key is the caller's to choose: requests with new values of the header all pass.\<close>

lemma limit_run_forged:
  assumes "\<And>t. fst (Allow L t (NewLimiter L (rlRate rl) (rlBurst rl)))"
    and "distinct (map (\<lambda>(now, rq, ctx). getIP rq) rqs)"
    and "\<forall>(now, rq, ctx) \<in> set rqs. rlLimiters rl (getIP rq) = None"
    and "\<And>rq ctx s. fst (h rq ctx s) \<noteq> refused"
    and "limit_run L h rqs (rl, s) = (out, st)"
  shows "\<forall>(rq, resp) \<in> set out. resp \<noteq> refused"
  using assms(1-3,5)
proof (induction rqs arbitrary: rl s out st)
  case (Cons x rqs)
  obtain now rq ctx where x: "x = (now, rq, ctx)" by (cases x)
  obtain resp rl' s' where one: "Limit L now h rq ctx (rl, s) = (resp, rl', s')" by (metis prod.collapse)
  obtain out' st' where rest: "limit_run L h rqs (rl', s') = (out', st')"
    by (cases "limit_run L h rqs (rl', s')")
  have out: "out = (rq, resp) # out'" using Cons.prems(4) by (simp add: x one rest)
  note rl' = Limit_run(1) [OF one]
  have new: "limiter_of L rl (getIP rq) = NewLimiter L (rlRate rl) (rlBurst rl)"
    using Cons.prems(3) by (simp add: x limiter_of_def)
  have ne: "getIP rq' \<noteq> getIP rq" if "(t, rq', c) \<in> set rqs" for t rq' c
    using Cons.prems(2) that by (force simp: x)
  have "\<forall>(rq, resp) \<in> set out'. resp \<noteq> refused"
    by (rule Cons.IH [OF _ _ _ rest]) (use Cons.prems ne in \<open>auto simp: rl' x split: prod.splits\<close>)
  moreover have "resp \<noteq> refused"
    using Limit_run(2) [OF one] Cons.prems(1) [of now] assms(4) [of rq ctx s] by (simp add: new)
  ultimately show ?case by (simp add: out)
qed simp

section \<open>Request counters\<close>

definition upToSlash :: "string \<Rightarrow> string" where
  "upToSlash s = dropWhile (\<lambda>c. c \<noteq> CHR ''/'') s"

definition normalizePath :: "string \<Rightarrow> string" where
  "normalizePath path =
     (if length path > 20 \<and> take 17 path = ''/api/v1/accounts/''
      then if path ! 17 \<noteq> CHR ''/'' then ''/api/v1/accounts/:id'' @ upToSlash (drop 17 path) else path
      else if length path > 21 \<and> take 18 path = ''/api/v1/transfers/''
      then if path ! 18 \<noteq> CHR ''/'' then ''/api/v1/transfers/:id'' @ upToSlash (drop 18 path) else path
      else path)"

definition path_text :: "request \<Rightarrow> string" where
  "path_text rq = concat (map (\<lambda>p. CHR ''/'' # p) (rqPath rq))"

text \<open>The counter \<^verbatim>\<open>http_requests_total\<close>: how many responses there were under the labels.\<close>

type_synonym counters = "string \<times> string \<times> int \<Rightarrow> nat"

definition Metrics ::
  "'d http_handler \<Rightarrow> request \<Rightarrow> context_values \<Rightarrow> counters \<times> 'd server \<Rightarrow> response \<times> counters \<times> 'd server" where
  "Metrics handler rq ctx = (\<lambda>(counts, s).
     let (resp, s') = handler rq ctx s;
         labels = (rqMethod rq, normalizePath (path_text rq), rsStatus resp)
     in (resp, counts(labels := Suc (counts labels)), s'))"

lemma Metrics_transparent:
  "Metrics h rq ctx (counts, s) = (resp, counts', s') \<Longrightarrow> h rq ctx s = (resp, s')"
  by (auto simp: Metrics_def Let_def split: prod.splits)

text \<open>The record \<^verbatim>\<open>LoggingMiddleware.Wrap\<close> writes after the handler: the request, the status it was answered with
  and, in a valid span, the trace. The duration is left out.\<close>

record request_log =
  rlMethod :: string
  rlPath :: string
  rlStatus :: int
  rlRemoteAddr :: string
  rlTraceID :: "string option"

definition LoggingMiddleware_Wrap ::
  "'d http_handler \<Rightarrow> string option \<Rightarrow> request \<Rightarrow> context_values \<Rightarrow> request_log list \<times> 'd server \<Rightarrow>
   response \<times> request_log list \<times> 'd server" where
  "LoggingMiddleware_Wrap handler span rq ctx = (\<lambda>(lines, s).
     let (resp, s') = handler rq ctx s
     in (resp, lines @ [\<lparr>rlMethod = rqMethod rq, rlPath = path_text rq, rlStatus = rsStatus resp,
                        rlRemoteAddr = rqRemoteAddr rq, rlTraceID = span\<rparr>], s'))"

lemma every_request_is_logged:
  "LoggingMiddleware_Wrap h span rq ctx (lines, s) = (resp, lines', s') \<Longrightarrow>
     h rq ctx s = (resp, s') \<and> (\<exists>l. lines' = lines @ [l] \<and> rlStatus l = rsStatus resp)"
  by (auto simp: LoggingMiddleware_Wrap_def Let_def split: prod.splits)

text \<open>The label of an account or a transfer does not name it, nor does the label of what is below it.\<close>

lemma after_prefix:
  assumes "length p = n"
  shows "take n (p @ x) = p" "drop n (p @ x) = x" "x \<noteq> [] \<Longrightarrow> (p @ x) ! n = hd x"
  using assms by (auto simp: nth_append hd_conv_nth)

lemma other_prefix: "take 17 (''/api/v1/transfers/'' @ x) \<noteq> ''/api/v1/accounts/''"
  by simp

lemma normalizePath_account:
  "normalizePath (''/api/v1/accounts/'' @ x) =
     (if length x > 3 \<and> hd x \<noteq> CHR ''/'' then ''/api/v1/accounts/:id'' @ upToSlash x else ''/api/v1/accounts/'' @ x)"
proof -
  have p: "length ''/api/v1/accounts/'' = 17" by simp
  have q: "take 18 (''/api/v1/accounts/'' @ x) \<noteq> ''/api/v1/transfers/''" by simp
  have r: "length (''/api/v1/accounts/'' @ x) = 17 + length x" by simp
  have e: "''/api/v1/accounts/:id'' = ''/api/v1/accounts/'' @ '':id''" by simp
  show ?thesis unfolding normalizePath_def e append_assoc
    using after_prefix [OF p, of x] q r by (cases x) (auto simp del: append_Cons)
qed

lemma normalizePath_transfer:
  "normalizePath (''/api/v1/transfers/'' @ x) =
     (if length x > 3 \<and> hd x \<noteq> CHR ''/'' then ''/api/v1/transfers/:id'' @ upToSlash x else ''/api/v1/transfers/'' @ x)"
proof -
  have p: "length ''/api/v1/transfers/'' = 18" by simp
  have r: "length (''/api/v1/transfers/'' @ x) = 18 + length x" by simp
  have e: "''/api/v1/transfers/:id'' = ''/api/v1/transfers/'' @ '':id''" by simp
  show ?thesis unfolding normalizePath_def e append_assoc
    using after_prefix [OF p, of x] other_prefix [of x] r by (cases x) (auto simp del: append_Cons)
qed

lemma upToSlash_id:
  assumes "CHR ''/'' \<notin> set i" and "rest = [] \<or> hd rest = CHR ''/''"
  shows "upToSlash (i @ rest) = rest"
  using assms by (induction i) (auto simp: upToSlash_def dropWhile_eq_self_iff)

lemma normalizePath_id:
  assumes "CHR ''/'' \<notin> set i" and "3 < length i" and "rest = [] \<or> hd rest = CHR ''/''"
  shows "normalizePath (''/api/v1/accounts/'' @ i @ rest) = ''/api/v1/accounts/:id'' @ rest"
    and "normalizePath (''/api/v1/transfers/'' @ i @ rest) = ''/api/v1/transfers/:id'' @ rest"
proof -
  have "hd (i @ rest) \<noteq> CHR ''/''" "length (i @ rest) > 3" using assms(1,2) by (cases i; auto)+
  then show "normalizePath (''/api/v1/accounts/'' @ i @ rest) = ''/api/v1/accounts/:id'' @ rest"
    "normalizePath (''/api/v1/transfers/'' @ i @ rest) = ''/api/v1/transfers/:id'' @ rest"
    unfolding normalizePath_account normalizePath_transfer by (simp_all only: upToSlash_id [OF assms(1,3)] if_True simp_thms)
qed

end
