(* ===== verification/StartupChecks.thy ===== *)
theory StartupChecks
  imports Startup Edge ApiDemo
begin

text \<open>
  The properties of configuration, start-up and edge middleware, each with an instance.
\<close>

definition demoConfig :: Config where
  "demoConfig = defaultConfig\<lparr>cfJWTSecret := ''k'', cfJWTExpiration := seconds 3600, cfAuthEnabled := True,
     cfTracingEnabled := True\<rparr>"

definition demoBoot :: "int boot" where
  "demoBoot = \<lparr>btQuote = (\<lambda>s. s), btParsed = Inr demoConfig, btTracing = \<lparr>tdResource = None, tdExporter = (\<lambda>e. None)\<rparr>,
     btPg = \<lparr>pgParseConfig = (\<lambda>u. None), pgNewWithConfig = (\<lambda>c. None), pgPing = None\<rparr>,
     btMigrator = \<lparr>mgNew = None, mgUp = (\<lambda>d. (None, d)), mgBack = (\<lambda>d. (None, d)), mgErrNoChange = PlainErr []\<rparr>,
     btRedis = \<lparr>rsParseURL = (\<lambda>u. None), rsPing = None\<rparr>, btGRPCPort = [], btEnv = demoEnv, btWaits = (\<lambda>n. TryAgain),
     btLib = demoLib, btUsers = demoUserLib, btJwt = demoJwt, btStore = demoRedis, btPayload = (\<lambda>p. Inr ''{}''),
     btMiss = (\<lambda>rq. http_Error ''404 page not found'' 404), btMetrics = \<lparr>rsStatus = 200, rsHeaders = [], rsBody = []\<rparr>\<rparr>"

lemma demoBoot_loads: "Load (btQuote demoBoot) (btParsed demoBoot) = Inr demoConfig"
  by (simp add: Load_Inr Validate_None valid_port_def decimal_def digit_value_def demoBoot_def demoConfig_def
      defaultConfig_def seconds_def is_digit_def between_def)

lemma demoBoot_run: "fst (run demoBoot (Interrupted None) demo2) = (Returned 0,
    [TracingStarted, PoolOpened, RedisOpened, PublisherStarted, SchedulerStarted, ServersStarted,
     PublisherCancelled, SchedulerCancelled, GRPCStopped, HTTPStopped, PublisherCancelled,
     RedisClosed, PoolClosed, TracingStopped])"
  by (simp add: run_def demoBoot_loads)
    (simp add: demoBoot_def demoConfig_def defaultConfig_def seconds_def tracing_Setup_def NewPool_def
      NewPoolWithConfig_def RunMigrations_def run_served_def NewClient_def serve_until_def assemble_def
      preceded_def deferring_def Let_def)

section \<open>Configuration\<close>

text \<open>The server accepts a configuration exactly when: authentication is off or a secret is set; the port is a
  nonempty string of digits that denotes a number below 65536; at least one connection may be opened, and the minimum is
  between 0 and the maximum. What it accepts it uses as it is.\<close>

theorem config_valid_iff:
  "Load quote parsed = Inr c \<longleftrightarrow>
     parsed = Inr c \<and> (cfAuthEnabled c = False \<or> cfJWTSecret c \<noteq> []) \<and>
     cfHTTPPort c \<noteq> [] \<and> list_all is_digit (cfHTTPPort c) \<and> decimal (cfHTTPPort c) < 65536 \<and>
     0 < cfDatabaseMaxConns c \<and> 0 \<le> cfDatabaseMinConns c \<and> cfDatabaseMinConns c \<le> cfDatabaseMaxConns c"
  unfolding Load_Inr Validate_None valid_port_def by blast

section \<open>Authentication\<close>

text \<open>C38: A server started with AUTH_ENABLED enforces it, with the configured secret: the secret is not empty, and
  every HTTP request that changes the ledger, and every gRPC call that changes the database, carries a token which the
  library, given that secret for HMAC methods only, finds valid, and which names an administrator or an operator.\<close>

theorem configured_auth_is_enforced:
  fixes B :: "'d::linordered_idom boot"
  assumes "Load (btQuote B) (btParsed B) = Inr cfg" and "cfAuthEnabled cfg"
    and "NewRouter (rnDeps (assemble B cfg)) rq Background s = (resp, s1)"
    and "grpcServe (rnDeps (assemble B cfg)) marshal call Background s = (r, s2)"
    and "gcMethod call = FullMethod (gcRequest call)"
  shows "cfJWTSecret cfg \<noteq> [] \<and>
    (same_ledger (committed (svWorld s)) (committed (svWorld s1)) \<or>
      (\<exists>token t c. bearerToken (Header_Get rq ''Authorization'') = Some token \<and>
        jwtParse (btJwt B) (keyFunc (NewJWTManager (cfJWTSecret cfg) (cfJWTExpiration cfg))) t token = Inr (c, True) \<and>
        clRole c \<in> {RoleAdmin, RoleOperator})) \<and>
    (committed (svWorld s2) = committed (svWorld s) \<or>
      (\<exists>md v vs t c. gcMetadata call = Some md \<and> MD_Get md ''authorization'' = v # vs \<and>
        jwtParse (btJwt B) (keyFunc (NewJWTManager (cfJWTSecret cfg) (cfJWTExpiration cfg))) t
          (TrimPrefix v ''Bearer '') = Inr (c, True) \<and>
        clRole c \<in> {RoleAdmin, RoleOperator}))"
proof -
  let ?D = "rnDeps (assemble B cfg)"
  have D: "dpAuthEnabled ?D" "dpJwt ?D = btJwt B"
    "dpManager ?D = NewJWTManager (cfJWTSecret cfg) (cfJWTExpiration cfg)"
    using assms(2) by (simp_all add: assemble_def server_deps_def)
  have "cfJWTSecret cfg \<noteq> []" using assms(1,2) by (simp add: Load_Inr Validate_None)
  moreover note http_change_needs_role [OF D(1) assms(3)] grpc_change_needs_role [OF D(1) assms(5,4)]
  ultimately show ?thesis unfolding http_token_def grpc_token_def D(2,3) by blast
qed

theorem configured_auth_is_enforced_witness:
  "cfJWTSecret demoConfig \<noteq> [] \<and>
   length (transfersT (committed (svWorld (snd (NewRouter (rnDeps (assemble demoBoot demoConfig)) demoPost Background
     (demoServer demo2)))))) = 1 \<and>
   (\<exists>token t c. bearerToken (Header_Get demoPost ''Authorization'') = Some token \<and>
      jwtParse demoJwt (keyFunc demoManager) t token = Inr (c, True) \<and> clRole c \<in> {RoleAdmin, RoleOperator})"
proof -
  let ?D = "rnDeps (assemble demoBoot demoConfig)"
  let ?s1 = "snd (NewRouter ?D demoPost Background (demoServer demo2))"
  have one: "length (transfersT (committed (svWorld ?s1))) = 1" by code_simp
  then have "\<not> same_ledger (committed (svWorld (demoServer demo2))) (committed (svWorld ?s1))"
    using demo_no_transfers by (auto simp: same_ledger_def demoServer_def)
  moreover have "cfAuthEnabled demoConfig" "btJwt demoBoot = demoJwt"
    "NewJWTManager (cfJWTSecret demoConfig) (cfJWTExpiration demoConfig) = demoManager"
    "gcMethod demoCall = FullMethod (gcRequest demoCall)"
    by (simp_all add: demoConfig_def demoBoot_def demoManager_def demoCall_def seconds_def)
  moreover note configured_auth_is_enforced [where rq = demoPost and s = "demoServer demo2" and call = demoCall and
      marshal = demoMarshal, OF demoBoot_loads _ prod.collapse [symmetric] prod.collapse [symmetric]]
  ultimately show ?thesis using one by auto
qed

section \<open>The life of the process\<close>



section \<open>Rate limiting\<close>

text \<open>The rate limiter keeps a bucket per key: in any run of requests, those under one key are let through or refused
  exactly as one bucket asked at their instants would, whatever arrives under other keys in between. The key is the
  X-Forwarded-For header as the caller sends it, so requests that each bring a new value are all let through by
  a bucket that lets its first request pass.\<close>

theorem rate_limit_per_key:
  fixes h :: "'d http_handler"
  assumes "\<And>rq ctx s. fst (h rq ctx s) \<noteq> refused" and "limit_run L h rqs (rl, s) = (out, st)"
  shows "map (\<lambda>(rq, resp). resp \<noteq> refused) (filter (\<lambda>(rq, resp). getIP rq = k) out) =
      bucket L (limiter_of L rl k) (map fst (filter (\<lambda>(now, rq, ctx). getIP rq = k) rqs)) \<and>
    ((\<forall>t. fst (Allow L t (NewLimiter L (rlRate rl) (rlBurst rl)))) \<and>
     distinct (map (\<lambda>(now, rq, ctx). getIP rq) rqs) \<and>
     (\<forall>(now, rq, ctx) \<in> set rqs. rlLimiters rl (getIP rq) = None) \<longrightarrow> (\<forall>(rq, resp) \<in> set out. resp \<noteq> refused))"
  using limit_run_bucket [OF assms] limit_run_forged [OF _ _ _ assms] by blast

text \<open>A bucket of one token that never refills.\<close>

definition demoLimiter :: "(unit, bool) limiter_lib" where
  "demoLimiter = \<lparr>NewLimiter = (\<lambda>r b. True), Allow = (\<lambda>now l. (l, False))\<rparr>"

definition demoFrom :: "string \<Rightarrow> request" where
  "demoFrom ip = demoGet\<lparr>rqHeaders := [(''X-Forwarded-For'', ip)]\<rparr>"

theorem rate_limit_per_key_witness:
  "let h = (\<lambda>rq ctx s. (\<lparr>rsStatus = 200, rsHeaders = [], rsBody = []\<rparr>, s));
       rqs = [(0, demoFrom ''a'', Background), (1, demoFrom ''b'', Background), (2, demoFrom ''a'', Background)];
       (out, st) = limit_run demoLimiter h rqs (NewRateLimiter () 1, demoServer demo0)
   in map (\<lambda>(rq, resp). resp \<noteq> refused) (filter (\<lambda>(rq, resp). getIP rq = ''a'') out) = [True, False]"
proof -
  let ?h = "\<lambda>rq ctx s. (\<lparr>rsStatus = 200, rsHeaders = [], rsBody = []\<rparr>, s)"
  let ?rqs = "[(0, demoFrom ''a'', Background), (1, demoFrom ''b'', Background), (2, demoFrom ''a'', Background)]"
  obtain out st where run: "limit_run demoLimiter ?h ?rqs (NewRateLimiter () 1, demoServer demo0) = (out, st)"
    by (cases "limit_run demoLimiter ?h ?rqs (NewRateLimiter () 1, demoServer demo0)")
  have ip: "getIP (demoFrom x) = (if x \<noteq> [] then x else rqRemoteAddr demoGet)" for x
    by (simp add: getIP_def demoFrom_def Header_Get_def first_value_def)
  have "bucket demoLimiter (limiter_of demoLimiter (NewRateLimiter () 1) ''a'')
      (map fst (filter (\<lambda>(now, rq, ctx). getIP rq = ''a'') ?rqs)) = [True, False]"
    by (simp add: ip limiter_of_def NewRateLimiter_def demoLimiter_def)
  then have "map (\<lambda>(rq, resp). resp \<noteq> refused) (filter (\<lambda>(rq, resp). getIP rq = ''a'') out) = [True, False]"
    using rate_limit_per_key [OF _ run, of "''a''"] by (simp add: refused_def http_Error_def)
  then show ?thesis using run by simp
qed

end
