(* ===== verification/Telemetry.thy ===== *)
theory Telemetry
  imports System
begin

text \<open>
  What the server tells the outside about itself: the collectors of
  \<^verbatim>\<open>src/internal/infrastructure/metrics/metrics.go\<close>, the calls that update them in the use cases, the publisher
  and the reconciliation scheduler, and the records they log. An operation is modelled once more, on a state that
  carries the signals sent so far; the operation without them is the one of the earlier theories, and
  \<^verbatim>\<open>TelemetryLaws\<close> proves that they agree. What the Prometheus library makes of the calls is not modelled.
\<close>

section \<open>Collectors\<close>

text \<open>The bounds of a histogram's buckets, in thousandths.\<close>

datatype buckets = DefBuckets | Buckets "int list"

datatype collector_kind = Counter | Gauge | Histogram buckets

record collector =
  coName :: string
  coKind :: collector_kind
  coLabels :: "string list"

abbreviation collector :: "string \<Rightarrow> collector_kind \<Rightarrow> string list \<Rightarrow> collector" where
  "collector n k ls \<equiv> \<lparr>coName = n, coKind = k, coLabels = ls\<rparr>"

definition transferCollectors :: "collector list" where
  "transferCollectors =
     [collector ''goledger_transfers_created_total'' Counter [],
      collector ''goledger_transfers_reversed_total'' Counter [],
      collector ''goledger_transfer_duration_seconds'' (Histogram DefBuckets) [],
      collector ''goledger_transfer_amount'' (Histogram (Buckets [1000, 10000, 100000, 1000000, 10000000, 100000000, 1000000000])) [''currency''],
      collector ''goledger_transfer_errors_total'' Counter [''error_type'']]"

definition accountCollectors :: "collector list" where
  "accountCollectors =
     [collector ''goledger_accounts_created_total'' Counter [],
      collector ''goledger_account_balance'' Gauge [''account_id'', ''currency''],
      collector ''goledger_account_operations_total'' Counter [''operation'']]"

definition holdCollectors :: "collector list" where
  "holdCollectors =
     [collector ''goledger_holds_created_total'' Counter [],
      collector ''goledger_holds_voided_total'' Counter [],
      collector ''goledger_holds_captured_total'' Counter [],
      collector ''goledger_hold_duration_seconds'' (Histogram DefBuckets) []]"

definition apiCollectors :: "collector list" where
  "apiCollectors =
     [collector ''goledger_http_requests_total'' Counter [''method'', ''path'', ''status''],
      collector ''goledger_http_duration_seconds'' (Histogram DefBuckets) [''method'', ''path''],
      collector ''goledger_grpc_requests_total'' Counter [''method'', ''status''],
      collector ''goledger_grpc_duration_seconds'' (Histogram DefBuckets) [''method'']]"

definition dbCollectors :: "collector list" where
  "dbCollectors =
     [collector ''goledger_db_queries_total'' Counter [''operation'', ''table''],
      collector ''goledger_db_query_duration_seconds'' (Histogram DefBuckets) [''operation'', ''table''],
      collector ''goledger_db_connections'' Gauge [],
      collector ''goledger_db_errors_total'' Counter [''operation'']]"

definition redisCollectors :: "collector list" where
  "redisCollectors =
     [collector ''goledger_redis_operations_total'' Counter [''operation''],
      collector ''goledger_redis_duration_seconds'' (Histogram DefBuckets) [''operation''],
      collector ''goledger_redis_errors_total'' Counter [''operation'']]"

definition authCollectors :: "collector list" where
  "authCollectors =
     [collector ''goledger_auth_attempts_total'' Counter [''status''],
      collector ''goledger_auth_failures_total'' Counter [''reason''],
      collector ''goledger_active_sessions'' Gauge [],
      collector ''goledger_rate_limit_hits_total'' Counter [''ip''],
      collector ''goledger_audit_logs_total'' Counter [''action'', ''status'']]"

definition workerCollectors :: "collector list" where
  "workerCollectors =
     [collector ''goledger_reconciliation_runs_total'' Counter [''status''],
      collector ''goledger_reconciliation_discrepancies'' Gauge [],
      collector ''goledger_reconciliation_chain_breaks'' Gauge [],
      collector ''goledger_reconciliation_duration_seconds'' (Histogram DefBuckets) [],
      collector ''goledger_outbox_events_dead_lettered_total'' Counter []]"

text \<open>What \<^verbatim>\<open>metrics.New\<close> registers, in its order, and what the HTTP middleware registers when the program
  is loaded.\<close>

definition Metrics_New :: "collector list" where
  "Metrics_New = transferCollectors @ accountCollectors @ holdCollectors @ apiCollectors @ dbCollectors @
     redisCollectors @ authCollectors @ workerCollectors"

definition middlewareCollectors :: "collector list" where
  "middlewareCollectors =
     [collector ''http_requests_total'' Counter [''method'', ''path'', ''status''],
      collector ''http_request_duration_seconds''
        (Histogram (Buckets [1, 5, 10, 25, 50, 100, 250, 500, 1000, 2500, 5000, 10000]))
        [''method'', ''path''],
      collector ''http_requests_in_flight'' Gauge []]"

section \<open>Log levels and loggers\<close>

datatype level = LevelDebug | LevelInfo | LevelWarn | LevelError

fun levelValue :: "level \<Rightarrow> int" where
  "levelValue LevelDebug = - 4"
| "levelValue LevelInfo = 0"
| "levelValue LevelWarn = 4"
| "levelValue LevelError = 8"

text \<open>\<^verbatim>\<open>internal/infrastructure/logger\<close>, which the server uses.\<close>

datatype log_format = TextHandler | JSONHandler

record logger_config =
  lgLevel :: string
  lgFormat :: string

record handler_options =
  hoptFormat :: log_format
  hoptLevel :: level

definition parseLevel :: "string \<Rightarrow> level" where
  "parseLevel s =
     (if s = ''debug'' then LevelDebug else if s = ''info'' then LevelInfo else if s = ''warn'' then LevelWarn
      else if s = ''error'' then LevelError else LevelInfo)"

definition logger_New :: "logger_config \<Rightarrow> handler_options" where
  "logger_New cfg =
     \<lparr>hoptFormat = (if lgFormat cfg = ''text'' then TextHandler else JSONHandler), hoptLevel = parseLevel (lgLevel cfg)\<rparr>"

text \<open>\<^verbatim>\<open>internal/infrastructure/logging\<close>, which nothing uses: the same levels, another default format, and the
  attributes \<^verbatim>\<open>WithContext\<close> adds.\<close>

definition logging_ParseLevel :: "string \<Rightarrow> level" where
  "logging_ParseLevel s =
     (if s = ''debug'' then LevelDebug else if s = ''info'' then LevelInfo else if s = ''warn'' then LevelWarn
      else if s = ''error'' then LevelError else LevelInfo)"

definition logging_New :: "level \<Rightarrow> string \<Rightarrow> handler_options" where
  "logging_New l format =
     \<lparr>hoptFormat = (if format = ''json'' then JSONHandler else TextHandler), hoptLevel = l\<rparr>"

text \<open>A context value is there or not; only a non-empty string is attached.\<close>

definition contextAttr :: "string \<Rightarrow> string option \<Rightarrow> (string \<times> string) list" where
  "contextAttr key v = (case v of Some s \<Rightarrow> if s \<noteq> [] then [(key, s)] else [] | None \<Rightarrow> [])"

definition WithContext :: "string option \<Rightarrow> string option \<Rightarrow> (string \<times> string) list" where
  "WithContext requestID userID = contextAttr ''request_id'' requestID @ contextAttr ''user_id'' userID"

section \<open>Signals\<close>

text \<open>What an observation or an attribute holds. Durations are not followed.\<close>

datatype 'd attr =
    TextAttr string | IntAttr int | DecAttr 'd | ErrAttr err | TypeAttr event_type | AggregateAttr aggregate_type
  | ReasonAttr "'d break_reason" | ElapsedAttr

datatype 'd signal =
    CounterInc string "string list"
  | CounterAdd string "string list" nat
  | GaugeSet string "string list" nat
  | HistogramObserve string "string list" "'d attr"
  | LogLine level string "(string \<times> 'd attr) list"

record 'd monitored =
  moWorld :: "'d world"
  moSignals :: "'d signal list"

type_synonym ('d, 'a) mact = "(err, 'd monitored, 'a) go"

text \<open>A call that sends nothing, and the sending.\<close>

definition silent :: "('d, 'a) act \<Rightarrow> ('d, 'a) mact" where
  "silent m = (\<lambda>s. case m (moWorld s) of (r, w) \<Rightarrow> (r, s\<lparr>moWorld := w\<rparr>))"

definition send :: "'d signal list \<Rightarrow> ('d, unit) mact" where
  "send us = (\<lambda>s. (Inr (), s\<lparr>moSignals := moSignals s @ us\<rparr>))"

text \<open>\<^verbatim>\<open>if uc.metrics != nil\<close>\<close>

definition measure_if :: "bool \<Rightarrow> 'd signal list \<Rightarrow> ('d, unit) mact" where
  "measure_if M us = (if M then send us else returnM ())"

definition logs :: "level \<Rightarrow> string \<Rightarrow> (string \<times> 'd attr) list \<Rightarrow> ('d, unit) mact" where
  "logs l msg attrs = send [LogLine l msg attrs]"

text \<open>\<^verbatim>\<open>x, err := m(); \<dots>\<close> where what follows looks at both.\<close>

definition attemptM :: "('d, 'a) mact \<Rightarrow> (err + 'a \<Rightarrow> ('d, 'b) mact) \<Rightarrow> ('d, 'b) mact" where
  "attemptM m f = (\<lambda>s. case m s of (r, s') \<Rightarrow> f r s')"

section \<open>The use cases\<close>

definition metered_CreateAccount ::
  "bool \<Rightarrow> env \<Rightarrow> context_values \<Rightarrow> CreateAccountInput \<Rightarrow> ('d::linordered_idom, 'd account) mact" where
  "metered_CreateAccount M E ctx input =
     onErrorM (\<lambda>e. silent (auditFailedAccount E ctx input e))
       (bindM (silent (checkM (ValidateAccountName (aiName input)))) (\<lambda>_.
        bindM (silent (checkM (ValidateCurrency (aiCurrency input)))) (\<lambda>_.
        bindM (silent (Now E)) (\<lambda>now.
        bindM (silent (accountTransaction E ctx input now)) (\<lambda>account.
        bindM (measure_if M [CounterInc ''goledger_accounts_created_total'' []]) (\<lambda>_.
        returnM account))))))"

text \<open>The observations of a batch: its duration in any case, then either the failure or the number of
  transfers and the amount of each under its currency.\<close>

fun observeAmounts :: "'d transfer list \<Rightarrow> string list \<Rightarrow> 'd signal list" where
  "observeAmounts (t # ts) (c # cs) =
     HistogramObserve ''goledger_transfer_amount'' [c] (DecAttr (trAmount t)) # observeAmounts ts cs"
| "observeAmounts _ _ = []"

definition batchSignals :: "err + 'd transfer list \<times> string list \<Rightarrow> 'd signal list" where
  "batchSignals r =
     HistogramObserve ''goledger_transfer_duration_seconds'' [] ElapsedAttr #
     (case r of
        Inl _ \<Rightarrow> [CounterInc ''goledger_transfer_errors_total'' [''create_failed'']]
      | Inr (transfers, currencies) \<Rightarrow>
          CounterAdd ''goledger_transfers_created_total'' [] (length transfers) # observeAmounts transfers currencies)"

definition metered_CreateBatchTransfer ::
  "bool \<Rightarrow> env \<Rightarrow> retrier_impl \<Rightarrow> context_values \<Rightarrow> 'd::linordered_idom CreateBatchTransferInput \<Rightarrow>
   ('d, 'd transfer list) mact" where
  "metered_CreateBatchTransfer M E R ctx input =
     onErrorM (\<lambda>e. silent (auditFailedTransfers E ctx input e))
       (bindM (silent (checkM (checkBatch input))) (\<lambda>_.
        let accountIDs = sort (collectUniqueAccountIDs (cbTransfers input)) in
        attemptM (silent (Retry R (executeTransferTransaction E ctx input accountIDs))) (\<lambda>r.
        bindM (measure_if M (batchSignals r)) (\<lambda>_.
        case r of Inl e \<Rightarrow> raiseM e | Inr (transfers, currencies) \<Rightarrow> returnM transfers))))"

definition metered_CreateTransfer ::
  "bool \<Rightarrow> env \<Rightarrow> retrier_impl \<Rightarrow> context_values \<Rightarrow> 'd::linordered_idom CreateTransferInput \<Rightarrow>
   ('d, 'd transfer) mact" where
  "metered_CreateTransfer M E R ctx input =
     bindM (metered_CreateBatchTransfer M E R ctx
       \<lparr>cbEventAt = ciEventAt input, cbMetadata = ciMetadata input, cbTransfers = [input]\<rparr>)
       (\<lambda>result. returnM (hd result))"

definition metered_ReverseTransfer ::
  "bool \<Rightarrow> env \<Rightarrow> retrier_impl \<Rightarrow> context_values \<Rightarrow> string \<Rightarrow> metadata \<Rightarrow> ('d::linordered_idom, 'd transfer) mact" where
  "metered_ReverseTransfer M E R ctx transfer_id input_metadata =
     bindM (silent (transferRepo_GetByID E transfer_id)) (\<lambda>original.
     bindM (silent (Now E)) (\<lambda>now.
     bindM (metered_CreateBatchTransfer M E R ctx (reversal_input original now input_metadata)) (\<lambda>result.
     returnM (hd result))))"

definition metered_HoldFunds ::
  "bool \<Rightarrow> env \<Rightarrow> context_values \<Rightarrow> string \<Rightarrow> 'd::linordered_idom \<Rightarrow> ('d, 'd hold) mact" where
  "metered_HoldFunds M E ctx accountID amount =
     onErrorM (\<lambda>e. silent (auditFailedHold E ctx AuditActionHoldCreate
                 [(''account_id'', JText accountID), (''amount'', JDecimal amount)] e))
       (bindM (silent (checkM (if amount \<le> 0 then Some ErrInvalidAmount else None))) (\<lambda>_.
        bindM (silent (holdTransaction E ctx accountID amount)) (\<lambda>hold.
        bindM (measure_if M [CounterInc ''goledger_holds_created_total'' [],
                 HistogramObserve ''goledger_hold_duration_seconds'' [] ElapsedAttr]) (\<lambda>_.
        returnM hold))))"

definition metered_VoidHold ::
  "bool \<Rightarrow> env \<Rightarrow> context_values \<Rightarrow> string \<Rightarrow> ('d::linordered_idom, unit) mact" where
  "metered_VoidHold M E ctx holdID =
     onErrorM (\<lambda>e. silent (auditFailedHold E ctx AuditActionHoldVoid [(''hold_id'', JText holdID)] e))
       (bindM (silent (voidTransaction E holdID)) (\<lambda>_.
        bindM (measure_if M [CounterInc ''goledger_holds_voided_total'' [],
                 HistogramObserve ''goledger_hold_duration_seconds'' [] ElapsedAttr]) (\<lambda>_.
        silent (auditHold E ctx AuditActionHoldVoid holdID NoState))))"

definition metered_CaptureHold ::
  "bool \<Rightarrow> env \<Rightarrow> context_values \<Rightarrow> string \<Rightarrow> string \<Rightarrow> ('d::linordered_idom, 'd transfer) mact" where
  "metered_CaptureHold M E ctx holdID toAccountID =
     onErrorM (\<lambda>e. silent (auditFailedHold E ctx AuditActionHoldCapture
                 [(''hold_id'', JText holdID), (''to_account_id'', JText toAccountID)] e))
       (bindM (silent (captureTransaction E holdID toAccountID)) (\<lambda>transfer.
        bindM (measure_if M [CounterInc ''goledger_holds_captured_total'' [],
                 HistogramObserve ''goledger_hold_duration_seconds'' [] ElapsedAttr]) (\<lambda>_.
        bindM (silent (auditHold E ctx AuditActionHoldCapture holdID (StTransfer transfer))) (\<lambda>_.
        returnM transfer))))"

section \<open>The publisher\<close>

definition metered_recordFailure ::
  "bool \<Rightarrow> env \<Rightarrow> publisher_config \<Rightarrow> 'd outbox_event \<Rightarrow> err \<Rightarrow> ('d, unit) mact" where
  "metered_recordFailure M E cfg event publishErr =
     attemptM (silent (outboxRepo_RecordFailure E (obID event) publishErr)) (\<lambda>r. case r of
       Inl e \<Rightarrow> logs LevelError ''failed to record outbox delivery failure''
                 [(''event_id'', TextAttr (obID event)), (''error'', ErrAttr e)]
     | Inr n \<Rightarrow>
         if n < epMaxAttempts cfg then returnM ()
         else attemptM (silent (bindM (Now E) (\<lambda>at. outboxRepo_MarkDeadLettered E (obID event) at))) (\<lambda>r'. case r' of
           Inl e \<Rightarrow> logs LevelError ''failed to mark event dead-lettered''
                     [(''event_id'', TextAttr (obID event)), (''error'', ErrAttr e)]
         | Inr _ \<Rightarrow>
             bindM (logs LevelError ''event dead-lettered after exhausting delivery attempts''
                      [(''event_id'', TextAttr (obID event)), (''event_type'', TypeAttr (obEventType event)),
                       (''attempts'', IntAttr n)]) (\<lambda>_.
             measure_if M [CounterInc ''goledger_outbox_events_dead_lettered_total'' []])))"

definition publishEvent :: "'d publish \<Rightarrow> 'd outbox_event \<Rightarrow> ('d, unit) mact" where
  "publishEvent publish event =
     bindM (logs LevelDebug ''publishing event''
       [(''event_id'', TextAttr (obID event)), (''event_type'', TypeAttr (obEventType event)),
        (''aggregate_type'', AggregateAttr (obAggregateType event)), (''aggregate_id'', TextAttr (obAggregateID event))]) (\<lambda>_ s.
     case publish (callCount (moWorld s)) event of
       Some e \<Rightarrow> (Inl e, s)
     | None \<Rightarrow> logs LevelInfo ''event published''
         [(''event_id'', TextAttr (obID event)), (''event_type'', TypeAttr (obEventType event))] s)"

definition metered_handleEvent ::
  "bool \<Rightarrow> env \<Rightarrow> 'd publish \<Rightarrow> publisher_config \<Rightarrow> 'd outbox_event \<Rightarrow> ('d, unit) mact" where
  "metered_handleEvent M E publish cfg event =
     attemptM (publishEvent publish event) (\<lambda>r. case r of
       Inl e \<Rightarrow>
         bindM (logs LevelError ''failed to publish event''
           [(''event_id'', TextAttr (obID event)), (''event_type'', TypeAttr (obEventType event)), (''error'', ErrAttr e)]) (\<lambda>_.
         metered_recordFailure M E cfg event e)
     | Inr _ \<Rightarrow>
         attemptM (silent (bindM (Now E) (\<lambda>at. outboxRepo_MarkPublished E (obID event) at))) (\<lambda>r'. case r' of
           Inl e \<Rightarrow> logs LevelError ''failed to mark event as published''
                     [(''event_id'', TextAttr (obID event)), (''error'', ErrAttr e)]
         | Inr _ \<Rightarrow> returnM ()))"

definition metered_processEvents ::
  "bool \<Rightarrow> env \<Rightarrow> 'd publish \<Rightarrow> publisher_config \<Rightarrow> ('d, unit) mact" where
  "metered_processEvents M E publish cfg =
     bindM (silent (outboxRepo_GetUnpublished E (epBatchSize cfg))) (\<lambda>events.
     if events = [] then returnM ()
     else bindM (logs LevelInfo ''processing events'' [(''count'', IntAttr (int (length events)))]) (\<lambda>_.
          bindM (forM (metered_handleEvent M E publish cfg) events) (\<lambda>_.
          returnM ())))"

text \<open>\<^verbatim>\<open>LogPublisher\<close>, the publisher the server is started with: it refuses an event only when its payload
  does not marshal.\<close>

definition metered_LogPublisher :: "((string \<times> 'd jval) list \<Rightarrow> err + string) \<Rightarrow> 'd outbox_event \<Rightarrow> ('d, unit) mact" where
  "metered_LogPublisher marshal event =
     (case marshal (obPayload event) of
        Inl e \<Rightarrow> raiseM e
      | Inr payload \<Rightarrow> logs LevelInfo ''EVENT PUBLISHED''
          [(''event_id'', TextAttr (obID event)), (''event_type'', TypeAttr (obEventType event)),
           (''aggregate_type'', AggregateAttr (obAggregateType event)), (''aggregate_id'', TextAttr (obAggregateID event)),
           (''payload'', TextAttr payload)])"

section \<open>The reconciliation scheduler\<close>

definition discrepancyLine :: "'d ReconciliationResult \<Rightarrow> 'd signal" where
  "discrepancyLine d = LogLine LevelError ''reconciliation drift: balance does not match entry sum''
     [(''account_id'', TextAttr (rrAccountID d)), (''recorded_balance'', DecAttr (rrRecordedBalance d)),
      (''calculated_balance'', DecAttr (rrCalculatedBalance d)), (''difference'', DecAttr (rrDifference d))]"

definition breakLine :: "'d EntryChainResult \<Rightarrow> 'd EntryChainBreak \<Rightarrow> 'd signal" where
  "breakLine c b = LogLine LevelError ''reconciliation drift: entry chain broken''
     [(''account_id'', TextAttr (crAccountID c)), (''entry_id'', TextAttr (cbEntryID b)),
      (''sequence'', IntAttr (int (cbSequence b))), (''reason'', ReasonAttr (cbReason b))]"

definition driftLines :: "'d ReconciliationReport \<Rightarrow> 'd signal list" where
  "driftLines report =
     map discrepancyLine (rpDiscrepancies report) @
     concat (map (\<lambda>c. map (breakLine c) (crBreaks c)) (rpChainBreaks report)) @
     (if \<not> rpLedgerConsistent report
      then [LogLine LevelError ''reconciliation drift: ledger inconsistent across currencies'' []] else [])"

definition metered_runOnce :: "bool \<Rightarrow> env \<Rightarrow> ('d \<Rightarrow> string) \<Rightarrow> ('d::linordered_idom, run_outcome) mact" where
  "metered_runOnce M E dec =
     attemptM (silent (GenerateReconciliationReport E dec)) (\<lambda>r.
     bindM (measure_if M [HistogramObserve ''goledger_reconciliation_duration_seconds'' [] ElapsedAttr]) (\<lambda>_.
     case r of
       Inl e \<Rightarrow>
         bindM (logs LevelError ''reconciliation run failed'' [(''error'', ErrAttr e)]) (\<lambda>_.
         bindM (measure_if M [CounterInc ''goledger_reconciliation_runs_total'' [''error'']]) (\<lambda>_.
         returnM RunError))
     | Inr report \<Rightarrow>
         bindM (measure_if M
           [GaugeSet ''goledger_reconciliation_discrepancies'' [] (length (rpDiscrepancies report)),
            GaugeSet ''goledger_reconciliation_chain_breaks'' [] (length (rpChainBreaks report))]) (\<lambda>_.
         if \<not> drifted report
         then bindM (logs LevelInfo ''reconciliation run clean''
                      [(''total_accounts'', IntAttr (int (rpTotalAccounts report))), (''duration'', ElapsedAttr)]) (\<lambda>_.
              bindM (measure_if M [CounterInc ''goledger_reconciliation_runs_total'' [''ok'']]) (\<lambda>_.
              returnM RunOk))
         else bindM (send (driftLines report)) (\<lambda>_.
              bindM (measure_if M [CounterInc ''goledger_reconciliation_runs_total'' [''drift'']]) (\<lambda>_.
              returnM RunDrift)))))"

text \<open>\<^verbatim>\<open>Start\<close>: a pass at once and one per tick, until the context ends.\<close>

fun scheduler_ticks :: "nat \<Rightarrow> bool \<Rightarrow> env \<Rightarrow> ('d \<Rightarrow> string) \<Rightarrow> ('d::linordered_idom, run_outcome list) mact" where
  "scheduler_ticks 0 M E dec = bindM (metered_runOnce M E dec) (\<lambda>out. returnM [out])"
| "scheduler_ticks (Suc n) M E dec =
     bindM (metered_runOnce M E dec) (\<lambda>out.
     bindM (scheduler_ticks n M E dec) (\<lambda>outs. returnM (out # outs)))"

definition scheduler_Start :: "nat \<Rightarrow> bool \<Rightarrow> env \<Rightarrow> ('d \<Rightarrow> string) \<Rightarrow> ('d::linordered_idom, run_outcome list) mact" where
  "scheduler_Start ticks M E dec =
     bindM (logs LevelInfo ''reconciliation scheduler started'' [(''interval'', ElapsedAttr)]) (\<lambda>_.
     bindM (scheduler_ticks ticks M E dec) (\<lambda>outs.
     bindM (logs LevelInfo ''reconciliation scheduler shutting down'' []) (\<lambda>_.
     returnM outs)))"

end
