(* ===== verification/TelemetryLaws.thy ===== *)
theory TelemetryLaws
  imports Telemetry
begin

text \<open>
  The signals change nothing: every metered operation returns and leaves what the plain one does, and only adds
  to what was sent. What it adds is well formed with respect to the registered collectors, and the counters it adds
  to are the rows the operation added to the ledger.
\<close>

section \<open>Well-formed signals\<close>

text \<open>Collectors that nothing ever updates.\<close>

definition idle :: "string list" where
  "idle =
     [''goledger_transfers_reversed_total'', ''goledger_account_balance'', ''goledger_account_operations_total''] @
     map coName (apiCollectors @ dbCollectors @ redisCollectors @ authCollectors)"

definition collects :: "string \<Rightarrow> nat \<Rightarrow> (collector_kind \<Rightarrow> bool) \<Rightarrow> bool" where
  "collects n k kind \<longleftrightarrow>
     list_ex (\<lambda>c. coName c = n \<and> length (coLabels c) = k \<and> kind (coKind c)) Metrics_New \<and> n \<notin> set idle"

text \<open>A call names a registered collector of its kind that is not idle, with a value for each of its labels.\<close>

fun registered :: "'d signal \<Rightarrow> bool" where
  "registered (CounterInc n ls) = collects n (length ls) (\<lambda>k. k = Counter)"
| "registered (CounterAdd n ls v) = collects n (length ls) (\<lambda>k. k = Counter)"
| "registered (GaugeSet n ls v) = collects n (length ls) (\<lambda>k. k = Gauge)"
| "registered (HistogramObserve n ls v) = collects n (length ls) (\<lambda>k. case k of Histogram b \<Rightarrow> True | _ \<Rightarrow> False)"
| "registered (LogLine l m as) = True"

lemmas collector_defs =
  Metrics_New_def transferCollectors_def accountCollectors_def holdCollectors_def apiCollectors_def dbCollectors_def
  redisCollectors_def authCollectors_def workerCollectors_def

lemma live_collectors [simp]:
  "collects ''goledger_accounts_created_total'' 0 (\<lambda>k. k = Counter)"
  "collects ''goledger_transfers_created_total'' 0 (\<lambda>k. k = Counter)"
  "collects ''goledger_transfer_errors_total'' (Suc 0) (\<lambda>k. k = Counter)"
  "collects ''goledger_transfer_duration_seconds'' 0 (\<lambda>k. case k of Histogram b \<Rightarrow> True | _ \<Rightarrow> False)"
  "collects ''goledger_transfer_amount'' (Suc 0) (\<lambda>k. case k of Histogram b \<Rightarrow> True | _ \<Rightarrow> False)"
  "collects ''goledger_holds_created_total'' 0 (\<lambda>k. k = Counter)"
  "collects ''goledger_holds_voided_total'' 0 (\<lambda>k. k = Counter)"
  "collects ''goledger_holds_captured_total'' 0 (\<lambda>k. k = Counter)"
  "collects ''goledger_hold_duration_seconds'' 0 (\<lambda>k. case k of Histogram b \<Rightarrow> True | _ \<Rightarrow> False)"
  "collects ''goledger_outbox_events_dead_lettered_total'' 0 (\<lambda>k. k = Counter)"
  "collects ''goledger_reconciliation_runs_total'' (Suc 0) (\<lambda>k. k = Counter)"
  "collects ''goledger_reconciliation_discrepancies'' 0 (\<lambda>k. k = Gauge)"
  "collects ''goledger_reconciliation_chain_breaks'' 0 (\<lambda>k. k = Gauge)"
  "collects ''goledger_reconciliation_duration_seconds'' 0 (\<lambda>k. case k of Histogram b \<Rightarrow> True | _ \<Rightarrow> False)"
  by (simp_all add: collects_def idle_def collector_defs)

section \<open>What the counters say and what the tables hold\<close>

fun added :: "string \<Rightarrow> 'd signal \<Rightarrow> int" where
  "added n (CounterInc m ls) = (if m = n then 1 else 0)"
| "added n (CounterAdd m ls v) = (if m = n then int v else 0)"
| "added n _ = 0"

definition counted :: "string \<Rightarrow> 'd signal list \<Rightarrow> int" where
  "counted n us = sum_list (map (added n) us)"

lemma counted_simps [simp]:
  "counted n [] = 0" "counted n (u # us) = added n u + counted n us" "counted n (us @ vs) = counted n us + counted n vs"
  by (simp_all add: counted_def)

lemma counted_zero: "(\<And>u. u \<in> set us \<Longrightarrow> added n u = 0) \<Longrightarrow> counted n us = 0"
  by (induction us) simp_all

definition count_rows :: "('r \<Rightarrow> bool) \<Rightarrow> 'r list \<Rightarrow> int" where
  "count_rows P rs = int (length (filter P rs))"

lemma count_rows_simps [simp]:
  "count_rows P [] = 0" "count_rows P (rs @ ss) = count_rows P rs + count_rows P ss"
  "count_rows P (r # rs) = of_bool (P r) + count_rows P rs"
  by (simp_all add: count_rows_def)

lemma count_rows_update:
  assumes "distinct (map key rs)" and "r \<in> set rs" and "key r = k"
  shows "count_rows P (update_rows key k f rs) = count_rows P rs - of_bool (P r) + of_bool (P (f r))"
  using assms
proof (induction rs)
  case (Cons x rs)
  show ?case
  proof (cases "key x = k")
    case True
    then have "k \<notin> key ` set rs" using Cons.prems(1) by auto
    moreover have "x = r" using True Cons.prems by (force simp: image_iff)
    ultimately show ?thesis using True update_rows_other [of k key rs f] by (simp add: update_rows_def)
  next
    case False
    then have "r \<in> set rs" using Cons.prems by auto
    then show ?thesis using False Cons by (simp add: update_rows_def)
  qed
qed simp

text \<open>The quantities that have counters.\<close>

datatype quantity = Accounts | Transfers | Holds | VoidedHolds | CapturedHolds | DeadEvents

fun told :: "quantity \<Rightarrow> 'd signal list \<Rightarrow> int" where
  "told Accounts us = counted ''goledger_accounts_created_total'' us"
| "told Transfers us =
     counted ''goledger_transfers_created_total'' us + counted ''goledger_holds_captured_total'' us"
| "told Holds us = counted ''goledger_holds_created_total'' us"
| "told VoidedHolds us = counted ''goledger_holds_voided_total'' us"
| "told CapturedHolds us = counted ''goledger_holds_captured_total'' us"
| "told DeadEvents us = counted ''goledger_outbox_events_dead_lettered_total'' us"

fun stock :: "quantity \<Rightarrow> 'd db \<Rightarrow> int" where
  "stock Accounts d = int (length (accountsT d))"
| "stock Transfers d = int (length (transfersT d))"
| "stock Holds d = int (length (holdsT d))"
| "stock VoidedHolds d = count_rows (\<lambda>h. hoStatus h = HoldStatusVoided) (holdsT d)"
| "stock CapturedHolds d = count_rows (\<lambda>h. hoStatus h = HoldStatusCaptured) (holdsT d)"
| "stock DeadEvents d = count_rows (\<lambda>e. obDeadLetteredAt e \<noteq> None) (outboxT d)"

lemma told_append [simp]: "told q (us @ vs) = told q us + told q vs"
  by (cases q) simp_all

lemma told_Nil [simp]: "told q [] = 0"
  by (cases q) simp_all

lemma told_Line [simp]: "told q (LogLine l m as # us) = told q us"
  by (cases q) simp_all

lemma told_gauge [simp]:
  "told q (GaugeSet n ls v # us) = told q us" "told q (HistogramObserve n ls x # us) = told q us"
  by (cases q; simp)+

section \<open>Sending changes nothing\<close>

text \<open>The outcome of a plain run, with the signals added.\<close>

definition sending :: "'d signal list \<Rightarrow> 'd monitored \<Rightarrow> (err + 'a) \<times> 'd world \<Rightarrow> (err + 'a) \<times> 'd monitored" where
  "sending us s run = (fst run, s\<lparr>moWorld := snd run, moSignals := moSignals s @ us\<rparr>)"

lemma sending_sel [simp]:
  "fst (sending us s run) = fst run" "moWorld (snd (sending us s run)) = snd run"
  "moSignals (snd (sending us s run)) = moSignals s @ us"
  by (simp_all add: sending_def)

lemmas metered_run =
  sending_def onErrorM_def bindM_def attemptM_def silent_def measure_if_def send_def logs_def ignoreM_def checkM_def
  raiseM_def returnM_def Let_def

definition accountSignals :: "'d signal list" where
  "accountSignals = [CounterInc ''goledger_accounts_created_total'' []]"

definition holdSignals :: "string \<Rightarrow> 'd signal list" where
  "holdSignals n = [CounterInc n [], HistogramObserve ''goledger_hold_duration_seconds'' [] ElapsedAttr]"

text \<open>The signals of an operation that succeeded.\<close>

definition on_success :: "bool \<Rightarrow> err + 'a \<Rightarrow> 'd signal list \<Rightarrow> 'd signal list" where
  "on_success M r us = (case r of Inl e \<Rightarrow> [] | Inr x \<Rightarrow> if M then us else [])"

lemma metered_CreateAccount_sending:
  "metered_CreateAccount M E ctx input s =
     (let run = CreateAccount E ctx input (moWorld s) in sending (on_success M (fst run) accountSignals) s run)"
  unfolding metered_CreateAccount_def CreateAccount_def on_success_def accountSignals_def
  by (auto simp: metered_run split: prod.splits sum.splits option.splits)

lemma metered_HoldFunds_sending:
  "metered_HoldFunds M E ctx acc x s =
     (let run = HoldFunds E ctx acc x (moWorld s)
      in sending (on_success M (fst run) (holdSignals ''goledger_holds_created_total'')) s run)"
  unfolding metered_HoldFunds_def HoldFunds_def on_success_def holdSignals_def
  by (auto simp: metered_run split: prod.splits sum.splits option.splits)

lemma auditHold_Inr: "\<exists>w'. auditHold E ctx a i st w = (Inr (), w')"
  by (auto simp: auditHold_def metered_run Generate_def Now_def split: prod.splits sum.splits)

lemma metered_VoidHold_sending:
  "metered_VoidHold M E ctx hid s =
     (let run = VoidHold E ctx hid (moWorld s)
      in sending (on_success M (fst run) (holdSignals ''goledger_holds_voided_total'')) s run)"
proof -
  obtain r w1 where v: "voidTransaction E hid (moWorld s) = (r, w1)" by fastforce
  obtain w2 where a: "auditHold E ctx AuditActionHoldVoid hid NoState w1 = (Inr (), w2)" using auditHold_Inr by blast
  show ?thesis
    unfolding metered_VoidHold_def VoidHold_def on_success_def holdSignals_def
    by (cases r) (simp_all add: metered_run v a split: prod.splits)
qed

lemma metered_CaptureHold_sending:
  "metered_CaptureHold M E ctx hid to s =
     (let run = CaptureHold E ctx hid to (moWorld s)
      in sending (on_success M (fst run) (holdSignals ''goledger_holds_captured_total'')) s run)"
proof -
  obtain r w1 where v: "captureTransaction E hid to (moWorld s) = (r, w1)" by fastforce
  show ?thesis
  proof (cases r)
    case (Inl e)
    then show ?thesis
      unfolding metered_CaptureHold_def CaptureHold_def on_success_def holdSignals_def
      by (simp add: metered_run v split: prod.splits)
  next
    case (Inr t)
    obtain w2 where "auditHold E ctx AuditActionHoldCapture hid (StTransfer t) w1 = (Inr (), w2)"
      using auditHold_Inr by blast
    then show ?thesis using Inr
      unfolding metered_CaptureHold_def CaptureHold_def on_success_def holdSignals_def
      by (simp add: metered_run v)
  qed
qed

text \<open>A batch: what it sends depends on the result the retrier ended with.\<close>

lemma observeAmounts_signals [simp]:
  "list_all registered (observeAmounts ts cs)" "counted n (observeAmounts ts cs) = 0"
  by (induction ts cs rule: observeAmounts.induct) simp_all

definition batch_sent :: "bool \<Rightarrow> err + 'd transfer list \<Rightarrow> 'd signal list \<Rightarrow> bool" where
  "batch_sent M r us \<longleftrightarrow> list_all registered us \<and>
     (\<forall>q. told q us = (case r of Inl e \<Rightarrow> 0 | Inr ts \<Rightarrow> if M \<and> q = Transfers then int (length ts) else 0))"

lemma batchSignals_sent:
  fixes ts :: "'d transfer list"
  shows "batch_sent M (Inl e :: err + 'd transfer list) (if M then batchSignals (Inl e') else [])"
    and "batch_sent M (Inr ts) (if M then batchSignals (Inr (ts, cs)) else [])"
proof -
  have "told q (batchSignals (Inl e' :: err + 'd transfer list \<times> string list)) = 0" for q
    by (cases q) (simp_all add: batchSignals_def)
  then show "batch_sent M (Inl e :: err + 'd transfer list) (if M then batchSignals (Inl e') else [])"
    by (simp add: batch_sent_def) (simp add: batchSignals_def)
  have "told q (batchSignals (Inr (ts, cs))) = (if q = Transfers then int (length ts) else 0)" for q
    by (cases q) (simp_all add: batchSignals_def)
  then show "batch_sent M (Inr ts) (if M then batchSignals (Inr (ts, cs)) else [])"
    by (simp add: batch_sent_def) (simp add: batchSignals_def)
qed

lemma batch_sent_Nil: "batch_sent M (Inl e) []"
  by (simp add: batch_sent_def)

lemma metered_CreateBatchTransfer_sending:
  obtains us where
    "metered_CreateBatchTransfer M E R ctx input s = sending us s (CreateBatchTransfer E R ctx input (moWorld s))"
    "batch_sent M (fst (CreateBatchTransfer E R ctx input (moWorld s))) us"
proof (cases "checkBatch input")
  case (Some e)
  show thesis
    by (rule that [of "[]"])
      (simp_all add: metered_CreateBatchTransfer_def CreateBatchTransfer_def Some metered_run batch_sent_Nil split: prod.splits)
next
  case None
  obtain r w1 where run: "Retry R (executeTransferTransaction E ctx input
      (sort (collectUniqueAccountIDs (cbTransfers input)))) (moWorld s) = (r, w1)" by fastforce
  note unfolded = metered_CreateBatchTransfer_def CreateBatchTransfer_def None metered_run run
  show thesis
  proof (cases r)
    case (Inl e)
    show thesis
      by (rule that [of "if M then batchSignals r else []"])
        (simp_all add: unfolded Inl batchSignals_sent(1) [unfolded if_distrib] split: prod.splits)
  next
    case (Inr x)
    obtain ts cs where "x = (ts, cs)" by fastforce
    then show thesis
      by (intro that [of "if M then batchSignals r else []"])
        (simp_all add: unfolded Inr batchSignals_sent(2) [unfolded if_distrib] split: prod.splits)
  qed
qed

text \<open>A transfer is a batch of one, a reversal a batch on a state with the same tables or nothing.\<close>

lemma metered_CreateTransfer_batch:
  "snd (metered_CreateTransfer M E R ctx ti s) = snd (metered_CreateBatchTransfer M E R ctx
     \<lparr>cbEventAt = ciEventAt ti, cbMetadata = ciMetadata ti, cbTransfers = [ti]\<rparr> s)"
  unfolding metered_CreateTransfer_def by (simp add: bindM_def returnM_def split: prod.splits sum.splits)

lemma metered_ReverseTransfer_sending:
  obtains us where "metered_ReverseTransfer M E R ctx i md s = sending us s (ReverseTransfer E R ctx i md (moWorld s))"
    "us = [] \<and> committed (snd (ReverseTransfer E R ctx i md (moWorld s))) = committed (moWorld s) \<or>
     (\<exists>original now v. committed v = committed (moWorld s) \<and>
        snd (CreateBatchTransfer E R ctx (reversal_input original now md) v) = snd (ReverseTransfer E R ctx i md (moWorld s)) \<and>
        batch_sent M (fst (CreateBatchTransfer E R ctx (reversal_input original now md) v)) us)"
proof -
  obtain r w1 where get: "transferRepo_GetByID E i (moWorld s) = (r, w1)" by fastforce
  have same: "committed w1 = committed (moWorld s)" by (rule transferRepo_GetByID_reads [OF get])
  show thesis
  proof (cases r)
    case (Inl e)
    then show thesis using same
      by (intro that [of "[]"]) (simp_all add: metered_ReverseTransfer_def ReverseTransfer_def metered_run get)
  next
    case (Inr original)
    let ?now = "envNow E (nowCount w1)"
    let ?v = "w1\<lparr>nowCount := Suc (nowCount w1)\<rparr>"
    let ?in = "reversal_input original ?now md"
    obtain us where us: "metered_CreateBatchTransfer M E R ctx ?in (s\<lparr>moWorld := ?v\<rparr>) =
        sending us (s\<lparr>moWorld := ?v\<rparr>) (CreateBatchTransfer E R ctx ?in ?v)"
      "batch_sent M (fst (CreateBatchTransfer E R ctx ?in ?v)) us"
      using metered_CreateBatchTransfer_sending [of M E R ctx ?in "s\<lparr>moWorld := ?v\<rparr>"] by auto
    have plain: "ReverseTransfer E R ctx i md (moWorld s) =
        bindM (CreateBatchTransfer E R ctx ?in) (\<lambda>result. returnM (hd result)) ?v"
      by (simp add: ReverseTransfer_def reversal_input_def bindM_def get Inr Now_def)
    have metered: "metered_ReverseTransfer M E R ctx i md s =
        bindM (metered_CreateBatchTransfer M E R ctx ?in) (\<lambda>result. returnM (hd result)) (s\<lparr>moWorld := ?v\<rparr>)"
      by (simp add: metered_ReverseTransfer_def bindM_def silent_def get Inr Now_def)
    show thesis
    proof (rule that [of us])
      show "metered_ReverseTransfer M E R ctx i md s = sending us s (ReverseTransfer E R ctx i md (moWorld s))"
        unfolding plain metered by (simp add: bindM_def us(1) returnM_def sending_def split: prod.splits sum.splits)
      have "snd (CreateBatchTransfer E R ctx ?in ?v) = snd (ReverseTransfer E R ctx i md (moWorld s))"
        unfolding plain by (simp add: bindM_def returnM_def split: prod.splits sum.splits)
      then show "us = [] \<and> committed (snd (ReverseTransfer E R ctx i md (moWorld s))) = committed (moWorld s) \<or>
        (\<exists>original now v. committed v = committed (moWorld s) \<and>
           snd (CreateBatchTransfer E R ctx (reversal_input original now md) v) = snd (ReverseTransfer E R ctx i md (moWorld s)) \<and>
           batch_sent M (fst (CreateBatchTransfer E R ctx (reversal_input original now md) v)) us)"
        using us(2) same by (intro disjI2 exI [of _ original] exI [of _ ?now] exI [of _ ?v]) simp
    qed
  qed
qed

section \<open>What an effect adds to the tables\<close>

lemma stock_same: "same_ledger d d' \<Longrightarrow> stock q d' = stock q d"
  by (cases q) (simp_all add: same_ledger_def)

lemma stock_audited: "audits_only H d d' \<Longrightarrow> stock q d' = stock q d"
  using stock_same effect_audited by blast

lemma stock_event:
  assumes "sql_CreateOutboxEvent e d = Inr (row, d')"
  shows "stock q d' = stock q d"
  by (cases q) (simp_all add: sql_CreateOutboxEvent_Inr(3) [OF assms] sql_CreateOutboxEvent_Inr(1) [OF assms])

lemma stock_post: "stock q (post t e1 e2 f g d) = stock q d + (if q = Transfers then 1 else 0)"
  by (cases q) (simp_all add: post_def)

lemma stock_holds:
  assumes "distinct (map hoID (holdsT d))" and "h \<in> set (holdsT d)" and "hoStatus h = HoldStatusActive"
  shows "stock q (d\<lparr>holdsT := update_rows hoID (hoID h) (set_status st now) (holdsT d)\<rparr>) = stock q d +
     (if q = VoidedHolds \<and> st = HoldStatusVoided \<or> q = CapturedHolds \<and> st = HoldStatusCaptured then 1 else 0)"
  using count_rows_update [OF assms(1,2) refl] assms(3) by (cases q) (simp_all add: set_status_def)

lemma stock_account: "stock q (with_account i f d) = stock q d"
  by (cases q) (simp_all add: with_account_def)

lemma stock_posted: "posted d ts d' \<Longrightarrow> stock q d' = stock q d + (if q = Transfers then int (length ts) else 0)"
proof (induction ts arbitrary: d)
  case (Cons t ts)
  then obtain d1 where p: "posted1 d t d1" "posted d1 ts d'" by auto
  have "stock q d1 = stock q d + (if q = Transfers then 1 else 0)"
    using p(1) stock_event stock_post unfolding posted1_def by metis
  then show ?case using Cons.IH [OF p(2)] by simp
qed simp

lemma stock_opened: "opened d a d' \<Longrightarrow> stock q d' = stock q d + (if q = Accounts then 1 else 0)"
  by (cases q) (auto simp: opened_def)

lemma stock_held: "held d h d' \<Longrightarrow> stock q d' = stock q d + (if q = Holds then 1 else 0)"
proof -
  assume held: "held d h d'"
  then have "hoStatus h = HoldStatusActive" by (auto simp: held_def)
  then have "stock q (d\<lparr>holdsT := holdsT d @ [h]\<rparr>) = stock q d + (if q = Holds then 1 else 0)"
    by (cases q) simp_all
  moreover have "stock q d' = stock q (d\<lparr>holdsT := holdsT d @ [h]\<rparr>)"
    using held unfolding held_def by (metis stock_event stock_account)
  ultimately show ?thesis by simp
qed

lemma stock_released:
  assumes rel: "released d h now d'" and k: "keys_ok d"
  shows "stock q d' = stock q d + (if q = VoidedHolds then 1 else 0)"
proof -
  have h: "h \<in> set (holdsT d)" "hoStatus h = HoldStatusActive" using rel by (auto simp: released_def)
  have "stock q d' = stock q (d\<lparr>holdsT := update_rows hoID (hoID h) (set_status HoldStatusVoided now) (holdsT d)\<rparr>)"
    using rel unfolding released_def by (metis stock_event stock_account)
  also have "\<dots> = stock q d + (if q = VoidedHolds then 1 else 0)"
    using stock_holds [OF _ h, of q HoldStatusVoided now] k by (simp add: keys_ok_def)
  finally show ?thesis .
qed

lemma stock_captured:
  assumes cap: "captured d h t d'" and k: "keys_ok d"
  shows "stock q d' = stock q d + (if q = Transfers \<or> q = CapturedHolds then 1 else 0)"
proof -
  let ?mark = "update_rows hoID (hoID h) (set_status HoldStatusCaptured (trCreatedAt t)) (holdsT d)"
  have h: "h \<in> set (holdsT d)" "hoStatus h = HoldStatusActive" using cap by (auto simp: captured_def)
  obtain e1 e2 f g where "stock q d' = stock q ((post t e1 e2 f g d)\<lparr>holdsT := ?mark\<rparr>)"
    using cap unfolding captured_def by (metis stock_event)
  also have "\<dots> = stock q (post t e1 e2 f g d) + (if q = CapturedHolds then 1 else 0)"
    using stock_holds [of "post t e1 e2 f g d" h q HoldStatusCaptured "trCreatedAt t"] k h
    by (simp add: keys_ok_def post_def)
  finally show ?thesis by (simp add: stock_post)
qed

section \<open>Sending by the publisher\<close>

definition gone :: "'d outbox_event \<Rightarrow> bool" where
  "gone e \<longleftrightarrow> obDeadLetteredAt e \<noteq> None"

lemma stock_outbox:
  "stock q (d\<lparr>outboxT := es\<rparr>) = stock q d + (if q = DeadEvents then count_rows gone es - count_rows gone (outboxT d) else 0)"
  unfolding gone_def by (cases q) simp_all

text \<open>What a call sent and did: well-formed signals, and what they count is what the tables gained.\<close>

definition accounted :: "'d world \<Rightarrow> 'd world \<Rightarrow> 'd signal list \<Rightarrow> bool" where
  "accounted w w' us \<longleftrightarrow>
     list_all registered us \<and> (\<forall>q. stock q (committed w') = stock q (committed w) + told q us)"

lemma accounted_same: "list_all registered us \<Longrightarrow> (\<And>q. told q us = 0) \<Longrightarrow> committed w' = committed w \<Longrightarrow> accounted w w' us"
  by (simp add: accounted_def)

lemma accounted_append: "accounted w w1 us \<Longrightarrow> accounted w1 w2 vs \<Longrightarrow> accounted w w2 (us @ vs)"
  by (simp add: accounted_def)

lemma MarkDeadLettered_exact:
  "outboxRepo_MarkDeadLettered E i t w = (Inl e, w') \<Longrightarrow> committed w' = committed w"
  "outboxRepo_MarkDeadLettered E i t w = (Inr u, w') \<Longrightarrow>
     committed w' = (committed w)\<lparr>outboxT := update_rows obID i (\<lambda>e. e\<lparr>obDeadLetteredAt := Some t\<rparr>) (outboxT (committed w))\<rparr>"
  by (auto simp: outboxRepo_MarkDeadLettered_def poolStmt_def dbCall_def sql_MarkOutboxDeadLettered_def Let_def
      split: option.splits)

lemma metered_recordFailure_sending:
  assumes dist: "distinct (map obID (outboxT (committed (moWorld s))))" and ev: "ev \<in> set (outboxT (committed (moWorld s)))"
    and live: "\<not> gone ev"
  obtains us where "metered_recordFailure True E cfg ev x s = sending us s (recordFailure E cfg ev x (moWorld s))"
    "accounted (moWorld s) (snd (recordFailure E cfg ev x (moWorld s))) us"
proof -
  let ?d = "committed (moWorld s)"
  let ?rec = "\<lambda>r. r\<lparr>obAttempts := obAttempts r + 1, obLastError := Some x\<rparr>"
  obtain r w1 where rf: "outboxRepo_RecordFailure E (obID ev) x (moWorld s) = (r, w1)" by fastforce
  note unfolded = metered_recordFailure_def recordFailure_def metered_run rf
  show thesis
  proof (cases r)
    case (Inl e)
    then have "committed w1 = ?d" using rf RecordFailure_Inl by metis
    then show thesis
      by (intro that [of "[LogLine LevelError ''failed to record outbox delivery failure''
            [(''event_id'', TextAttr (obID ev)), (''error'', ErrAttr e)]]"])
        (auto simp: unfolded Inl intro!: accounted_same)
  next
    case (Inr n)
    then have w1: "committed w1 = ?d\<lparr>outboxT := update_rows obID (obID ev) ?rec (outboxT ?d)\<rparr>"
      using RecordFailure_Inr rf by fastforce
    have same: "stock q (committed w1) = stock q ?d" for q
      unfolding w1 stock_outbox using count_rows_update [OF dist ev refl, of gone ?rec] live by (simp add: gone_def)
    show thesis
    proof (cases "n < epMaxAttempts cfg")
      case True
      then show thesis by (intro that [of "[]"]) (simp_all add: unfolded Inr accounted_def same)
    next
      case False
      let ?now = "envNow E (nowCount w1)"
      obtain r2 w2 where md: "outboxRepo_MarkDeadLettered E (obID ev) ?now (w1\<lparr>nowCount := Suc (nowCount w1)\<rparr>) = (r2, w2)"
        by fastforce
      show thesis
      proof (cases r2)
        case (Inl e)
        then have "committed w2 = committed w1" using MarkDeadLettered_exact(1) md by fastforce
        then show thesis using False Inl
          by (intro that [of "[LogLine LevelError ''failed to mark event dead-lettered''
                [(''event_id'', TextAttr (obID ev)), (''error'', ErrAttr e)]]"])
            (simp_all add: unfolded Inr Now_def md accounted_def same)
      next
        case (Inr u)
        then have "committed w2 = ?d\<lparr>outboxT := update_rows obID (obID ev) (\<lambda>r. (?rec r)\<lparr>obDeadLetteredAt := Some ?now\<rparr>) (outboxT ?d)\<rparr>"
          using MarkDeadLettered_exact(2) [OF md [unfolded Inr]] by (simp add: w1 update_rows_twice)
        then have dead: "stock q (committed w2) = stock q ?d + (if q = DeadEvents then 1 else 0)" for q
          unfolding stock_outbox
          using count_rows_update [OF dist ev refl, of gone "\<lambda>r. (?rec r)\<lparr>obDeadLetteredAt := Some ?now\<rparr>"] live
          by (simp add: gone_def stock_outbox)
        let ?us = "[LogLine LevelError ''event dead-lettered after exhausting delivery attempts''
              [(''event_id'', TextAttr (obID ev)), (''event_type'', TypeAttr (obEventType ev)), (''attempts'', IntAttr n)],
            CounterInc ''goledger_outbox_events_dead_lettered_total'' []]"
        have "told q (?us :: 'a signal list) = (if q = DeadEvents then 1 else 0)" for q by (cases q) simp_all
        then show thesis using False Inr \<open>r = Inr n\<close> dead
          by (intro that [of ?us]) (simp_all add: unfolded Now_def md accounted_def)
      qed
    qed
  qed
qed

lemma sending_after: "sending vs (s\<lparr>moSignals := moSignals s @ us\<rparr>) run = sending (us @ vs) s run"
  by (simp add: sending_def)

definition trying :: "'d outbox_event \<Rightarrow> 'd signal" where
  "trying ev = LogLine LevelDebug ''publishing event''
     [(''event_id'', TextAttr (obID ev)), (''event_type'', TypeAttr (obEventType ev)),
      (''aggregate_type'', AggregateAttr (obAggregateType ev)), (''aggregate_id'', TextAttr (obAggregateID ev))]"

lemma MarkPublished_stock:
  assumes dist: "distinct (map obID (outboxT (committed w)))" and ev: "ev \<in> set (outboxT (committed w))"
    and run: "outboxRepo_MarkPublished E (obID ev) t w = (r, w')"
  shows "stock q (committed w') = stock q (committed w)"
  using MarkPublished_run [OF run] count_rows_update [OF dist ev refl, of gone "\<lambda>e. e\<lparr>obPublished := True, obPublishedAt := Some t\<rparr>"]
  by (auto simp: stock_outbox gone_def)

lemma metered_handleEvent_sending:
  assumes dist: "distinct (map obID (outboxT (committed (moWorld s))))" and ev: "ev \<in> set (outboxT (committed (moWorld s)))"
    and live: "\<not> gone ev"
  obtains us where "metered_handleEvent True E publish cfg ev s = sending us s (handleEvent E publish cfg ev (moWorld s))"
    "accounted (moWorld s) (snd (handleEvent E publish cfg ev (moWorld s))) us"
proof (cases "publish (callCount (moWorld s)) ev")
  case None
  let ?w1 = "(moWorld s)\<lparr>nowCount := Suc (nowCount (moWorld s))\<rparr>"
  let ?info = "LogLine LevelInfo ''event published'' [(''event_id'', TextAttr (obID ev)), (''event_type'', TypeAttr (obEventType ev))]"
  obtain r w2 where mp: "outboxRepo_MarkPublished E (obID ev) (envNow E (nowCount (moWorld s))) ?w1 = (r, w2)" by fastforce
  have same: "stock q (committed w2) = stock q (committed (moWorld s))" for q
    using MarkPublished_stock [of ?w1 ev] mp dist ev by simp
  let ?err = "\<lambda>e. LogLine LevelError ''failed to mark event as published'' [(''event_id'', TextAttr (obID ev)), (''error'', ErrAttr e)]"
  show thesis
    by (rule that [of "[trying ev, ?info] @ (case r of Inl e \<Rightarrow> [?err e] | Inr _ \<Rightarrow> [])"])
      (auto simp: metered_handleEvent_def handleEvent_def publishEvent_def trying_def None metered_run Now_def mp accounted_def same
        split: sum.split)
next
  case (Some x)
  let ?log = "LogLine LevelError ''failed to publish event''
    [(''event_id'', TextAttr (obID ev)), (''event_type'', TypeAttr (obEventType ev)), (''error'', ErrAttr x)]"
  let ?s = "s\<lparr>moSignals := moSignals s @ [trying ev, ?log]\<rparr>"
  obtain us where us: "metered_recordFailure True E cfg ev x ?s = sending us ?s (recordFailure E cfg ev x (moWorld s))"
    "accounted (moWorld s) (snd (recordFailure E cfg ev x (moWorld s))) us"
    using metered_recordFailure_sending [of ?s ev E cfg x] dist ev live by auto
  have plain: "handleEvent E publish cfg ev (moWorld s) = recordFailure E cfg ev x (moWorld s)"
    by (simp add: handleEvent_def Some)
  have "metered_handleEvent True E publish cfg ev s = metered_recordFailure True E cfg ev x ?s"
    by (simp add: metered_handleEvent_def publishEvent_def trying_def Some bindM_def attemptM_def logs_def send_def)
  then show thesis using us
    by (intro that [of "[trying ev, ?log] @ us"]) (simp_all add: plain sending_after accounted_def trying_def)
qed

lemma metered_handleAll_sending:
  assumes "distinct (map obID (outboxT (committed (moWorld s))))" and "set evs \<subseteq> set (outboxT (committed (moWorld s)))"
    and "distinct (map obID evs)" and "\<And>e. e \<in> set evs \<Longrightarrow> \<not> gone e"
  shows "\<exists>us. forM (metered_handleEvent True E publish cfg) evs s =
      sending us s (forM (handleEvent E publish cfg) evs (moWorld s)) \<and>
    accounted (moWorld s) (snd (forM (handleEvent E publish cfg) evs (moWorld s))) us"
  using assms
proof (induction evs arbitrary: s)
  case Nil
  show ?case by (rule exI [of _ "[]"]) (simp add: sending_def accounted_def)
next
  case (Cons ev evs)
  obtain us where us: "metered_handleEvent True E publish cfg ev s = sending us s (handleEvent E publish cfg ev (moWorld s))"
    "accounted (moWorld s) (snd (handleEvent E publish cfg ev (moWorld s))) us"
    using metered_handleEvent_sending [of s ev E publish cfg] Cons.prems by auto
  obtain w1 where run: "handleEvent E publish cfg ev (moWorld s) = (Inr (), w1)" using handleEvent_never_fails by blast
  let ?s = "s\<lparr>moWorld := w1, moSignals := moSignals s @ us\<rparr>"
  have one: "outbox_steps (on_event publish cfg {obID ev}) (committed (moWorld s)) (committed w1)"
    using handleEvent_attempted [OF Cons.prems(1), of ev publish cfg E] Cons.prems(2) run by simp
  have "set evs \<subseteq> set (outboxT (committed w1))"
  proof
    fix e assume e: "e \<in> set evs"
    then have "obID e \<noteq> obID ev" using Cons.prems(3) by (metis distinct.simps(2) image_eqI list.set_map list.simps(9))
    then show "e \<in> set (outboxT (committed w1))" using outbox_steps_untouched [OF one] Cons.prems(2) e by auto
  qed
  then obtain vs where vs: "forM (metered_handleEvent True E publish cfg) evs ?s =
      sending vs ?s (forM (handleEvent E publish cfg) evs w1)"
    "accounted w1 (snd (forM (handleEvent E publish cfg) evs w1)) vs"
    using Cons.IH [of ?s] Cons.prems outbox_steps_keys [OF one] by auto
  have "forM (metered_handleEvent True E publish cfg) (ev # evs) s =
      sending (us @ vs) s (forM (handleEvent E publish cfg) (ev # evs) (moWorld s))"
    using us(1) vs(1) by (simp add: run bindM_def returnM_def sending_def split: prod.splits sum.splits)
  moreover have "snd (forM (handleEvent E publish cfg) (ev # evs) (moWorld s)) = snd (forM (handleEvent E publish cfg) evs w1)"
    using run by (simp add: bindM_def returnM_def split: prod.splits sum.splits)
  ultimately show ?case using accounted_append [of "moWorld s" w1 us _ vs] us(2) vs(2) run by auto
qed

lemma metered_processEvents_sending:
  assumes "distinct (map obID (outboxT (committed (moWorld s))))"
  obtains us where "metered_processEvents True E publish cfg s = sending us s (processEvents E publish cfg (moWorld s))"
    "accounted (moWorld s) (snd (processEvents E publish cfg (moWorld s))) us"
proof -
  obtain r w1 where get: "outboxRepo_GetUnpublished E (epBatchSize cfg) (moWorld s) = (r, w1)" by fastforce
  show thesis
  proof (cases r)
    case (Inl e)
    then have "committed w1 = committed (moWorld s)"
      using get unfolding outboxRepo_GetUnpublished_def by (metis poolStmt_Inl)
    then show thesis using Inl
      by (intro that [of "[]"]) (simp_all add: metered_processEvents_def processEvents_def metered_run get accounted_same)
  next
    case (Inr evs)
    note pend = GetUnpublished_Inr [OF get [unfolded Inr]]
    show thesis
    proof (cases "evs = []")
      case True
      then show thesis using Inr pend(2)
        by (intro that [of "[]"]) (simp_all add: metered_processEvents_def processEvents_def metered_run get accounted_same)
    next
      case False
      let ?log = "LogLine LevelInfo ''processing events'' [(''count'', IntAttr (int (length evs)))]"
      let ?s = "s\<lparr>moWorld := w1, moSignals := moSignals s @ [?log]\<rparr>"
      obtain us where us: "forM (metered_handleEvent True E publish cfg) evs ?s = sending us ?s (forM (handleEvent E publish cfg) evs w1)"
        "accounted w1 (snd (forM (handleEvent E publish cfg) evs w1)) us"
        using metered_handleAll_sending [of ?s evs E publish cfg] assms pend by (auto simp: pending_def gone_def)
      have "metered_processEvents True E publish cfg s =
          bindM (forM (metered_handleEvent True E publish cfg) evs) (\<lambda>_. returnM ()) ?s"
        using False by (simp add: metered_processEvents_def bindM_def silent_def get Inr logs_def send_def)
      moreover have plain: "processEvents E publish cfg (moWorld s) = bindM (forM (handleEvent E publish cfg) evs) (\<lambda>_. returnM ()) w1"
        by (simp add: processEvents_def bindM_def get Inr)
      ultimately have "metered_processEvents True E publish cfg s = sending (?log # us) s (processEvents E publish cfg (moWorld s))"
        using us(1) by (simp add: bindM_def returnM_def sending_def split: prod.splits sum.splits)
      moreover have "snd (processEvents E publish cfg (moWorld s)) = snd (forM (handleEvent E publish cfg) evs w1)"
        unfolding plain by (simp add: bindM_def returnM_def split: prod.splits sum.splits)
      ultimately show thesis using us(2) pend(2) by (intro that [of "?log # us"]) (simp_all add: accounted_def)
    qed
  qed
qed

end
