(* ===== verification/TelemetryChecks.thy ===== *)
theory TelemetryChecks
  imports TelemetryLaws Api Demo
begin

text \<open>
  The properties of what the server reports about itself: its counters are what the tables gained since it
  started, every call names a registered collector, and a reconciliation pass that finds anything, or fails, is in the
  log at any configured level. Each with a concrete run.
\<close>

section \<open>Each operation is accounted for\<close>

lemma told_signals:
  "told q accountSignals = (if q = Accounts then 1 else 0)"
  "told q (holdSignals ''goledger_holds_created_total'') = (if q = Holds then 1 else 0)"
  "told q (holdSignals ''goledger_holds_voided_total'') = (if q = VoidedHolds then 1 else 0)"
  "told q (holdSignals ''goledger_holds_captured_total'') = (if q = Transfers \<or> q = CapturedHolds then 1 else 0)"
  by (cases q; simp add: accountSignals_def holdSignals_def)+

lemma registered_signals:
  "list_all registered accountSignals"
  "list_all registered (holdSignals ''goledger_holds_created_total'')"
  "list_all registered (holdSignals ''goledger_holds_voided_total'')"
  "list_all registered (holdSignals ''goledger_holds_captured_total'')"
  by (simp_all add: accountSignals_def holdSignals_def)

lemma accounted_success:
  assumes "\<And>e. fst run = Inl e \<Longrightarrow> audits_only H (committed w) (committed (snd run))"
    and "\<And>x. fst run = Inr x \<Longrightarrow> \<exists>d. (\<forall>q. stock q d = stock q (committed w) + told q us) \<and> audits_only H d (committed (snd run))"
    and "list_all registered us"
  shows "accounted w (snd run) (on_success True (fst run) us)"
proof (cases "fst run")
  case (Inl e)
  then show ?thesis using stock_audited assms(1) by (auto simp: accounted_def on_success_def)
next
  case (Inr x)
  obtain d where d: "\<forall>q. stock q d = stock q (committed w) + told q us" "audits_only H d (committed (snd run))"
    using assms(2) [OF Inr] by blast
  then show ?thesis using stock_audited [OF d(2)] assms(3) by (simp add: accounted_def on_success_def Inr)
qed

lemma account_accounted:
  "accounted w (snd (CreateAccount E ctx ai w)) (on_success True (fst (CreateAccount E ctx ai w)) accountSignals)"
proof (rule accounted_success [OF _ _ registered_signals(1)])
  fix e assume "fst (CreateAccount E ctx ai w) = Inl e"
  then show "audits_only (envHasher E) (committed w) (committed (snd (CreateAccount E ctx ai w)))"
    by (metis CreateAccount_failed prod.collapse)
next
  fix a assume "fst (CreateAccount E ctx ai w) = Inr a"
  then obtain d where d: "opened (committed w) a d" "audits_only (envHasher E) d (committed (snd (CreateAccount E ctx ai w)))"
    using CreateAccount_succeeded(1) by (metis prod.collapse)
  then show "\<exists>d. (\<forall>q. stock q d = stock q (committed w) + told q accountSignals) \<and>
      audits_only (envHasher E) d (committed (snd (CreateAccount E ctx ai w)))"
    unfolding told_signals using stock_opened [OF d(1)] d(2) by blast
qed

lemma hold_accounted:
  "accounted w (snd (HoldFunds E ctx acc x w))
     (on_success True (fst (HoldFunds E ctx acc x w)) (holdSignals ''goledger_holds_created_total''))"
proof (rule accounted_success [OF _ _ registered_signals(2)])
  fix e assume "fst (HoldFunds E ctx acc x w) = Inl e"
  then show "audits_only (envHasher E) (committed w) (committed (snd (HoldFunds E ctx acc x w)))"
    by (metis HoldFunds_failed prod.collapse)
next
  fix h assume "fst (HoldFunds E ctx acc x w) = Inr h"
  then obtain d where d: "held (committed w) h d" "audits_only (envHasher E) d (committed (snd (HoldFunds E ctx acc x w)))"
    using HoldFunds_succeeded(1) by (metis prod.collapse)
  then show "\<exists>d. (\<forall>q. stock q d = stock q (committed w) + told q (holdSignals ''goledger_holds_created_total'' :: 'a signal list)) \<and>
      audits_only (envHasher E) d (committed (snd (HoldFunds E ctx acc x w)))"
    unfolding told_signals using stock_held [OF d(1)] d(2) by blast
qed

lemma void_accounted:
  assumes "keys_ok (committed w)"
  shows "accounted w (snd (VoidHold E ctx hid w))
     (on_success True (fst (VoidHold E ctx hid w)) (holdSignals ''goledger_holds_voided_total''))"
proof (rule accounted_success [OF _ _ registered_signals(3)])
  fix e assume "fst (VoidHold E ctx hid w) = Inl e"
  then show "audits_only (envHasher E) (committed w) (committed (snd (VoidHold E ctx hid w)))"
    by (metis VoidHold_failed prod.collapse)
next
  fix u assume "fst (VoidHold E ctx hid w) = Inr u"
  then obtain h now d where d: "released (committed w) h now d" "audits_only (envHasher E) d (committed (snd (VoidHold E ctx hid w)))"
    using VoidHold_succeeded by (metis prod.collapse)
  then show "\<exists>d. (\<forall>q. stock q d = stock q (committed w) + told q (holdSignals ''goledger_holds_voided_total'' :: 'a signal list)) \<and>
      audits_only (envHasher E) d (committed (snd (VoidHold E ctx hid w)))"
    unfolding told_signals using stock_released [OF d(1) assms] d(2) by blast
qed

lemma capture_accounted:
  assumes inv: "ledger_inv (committed w)"
  shows "accounted w (snd (CaptureHold E ctx hid to w))
     (on_success True (fst (CaptureHold E ctx hid to w)) (holdSignals ''goledger_holds_captured_total''))"
proof (rule accounted_success [OF _ _ registered_signals(4)])
  fix e assume "fst (CaptureHold E ctx hid to w) = Inl e"
  then show "audits_only (envHasher E) (committed w) (committed (snd (CaptureHold E ctx hid to w)))"
    by (metis CaptureHold_failed prod.collapse)
next
  fix t assume "fst (CaptureHold E ctx hid to w) = Inr t"
  then have "CaptureHold E ctx hid to w = (Inr t, snd (CaptureHold E ctx hid to w))" by (metis prod.collapse)
  from CaptureHold_succeeded(1) [OF this inv] obtain h d where
    d: "captured (committed w) h t d" "audits_only (envHasher E) d (committed (snd (CaptureHold E ctx hid to w)))" by blast
  then show "\<exists>d. (\<forall>q. stock q d = stock q (committed w) + told q (holdSignals ''goledger_holds_captured_total'' :: 'a signal list)) \<and>
      audits_only (envHasher E) d (committed (snd (CaptureHold E ctx hid to w)))"
    unfolding told_signals using stock_captured [OF d(1)] d(2) inv unfolding ledger_inv_def by blast
qed

lemma batch_accounted:
  assumes sent: "batch_sent True (fst (CreateBatchTransfer E R ctx bi w)) us" and inv: "ledger_inv (committed w)"
  shows "accounted w (snd (CreateBatchTransfer E R ctx bi w)) us"
proof (cases "fst (CreateBatchTransfer E R ctx bi w)")
  case (Inl e)
  then have a: "audits_only (envHasher E) (committed w) (committed (snd (CreateBatchTransfer E R ctx bi w)))"
    by (metis CreateBatchTransfer_failed prod.collapse)
  then show ?thesis using sent stock_audited [OF a] by (simp add: accounted_def batch_sent_def Inl)
next
  case (Inr ts)
  then have "CreateBatchTransfer E R ctx bi w = (Inr ts, snd (CreateBatchTransfer E R ctx bi w))" by (metis prod.collapse)
  from CreateBatchTransfer_succeeded(1) [OF this inv] obtain d where
    d: "posted (committed w) ts d" "audits_only (envHasher E) d (committed (snd (CreateBatchTransfer E R ctx bi w)))"
    unfolding batch_done_def by blast
  then show ?thesis using sent stock_posted [OF d(1)] stock_audited [OF d(2)]
    by (simp add: accounted_def batch_sent_def Inr)
qed

section \<open>A reconciliation pass\<close>

definition errorLine :: "'d signal \<Rightarrow> bool" where
  "errorLine u \<longleftrightarrow> (case u of LogLine l m as \<Rightarrow> l = LevelError | _ \<Rightarrow> False)"

text \<open>A record is written when its level is at least the one of the handler's options.\<close>

definition written :: "handler_options \<Rightarrow> 'd signal \<Rightarrow> bool" where
  "written opts u \<longleftrightarrow> (case u of LogLine l m as \<Rightarrow> levelValue (hoptLevel opts) \<le> levelValue l | _ \<Rightarrow> False)"

lemma error_written: "errorLine u \<Longrightarrow> written opts u"
  by (cases "hoptLevel opts") (auto simp: errorLine_def written_def split: signal.splits)

lemma forM_results:
  assumes "forM f xs w = (Inr ys, w')" and "\<And>x. x \<in> set xs \<Longrightarrow> keeps p (f x)"
  shows "list_all2 (\<lambda>x y. \<exists>v v'. p v = p w \<and> f x v = (Inr y, v')) xs ys"
  using assms
proof (induction xs arbitrary: w ys)
  case (Cons x xs)
  then obtain y v zs where x: "f x w = (Inr y, v)" and rest: "forM f xs v = (Inr zs, w')" "ys = y # zs"
    by (auto simp: run_simps)
  have "p v = p w" using keepsD [OF Cons.prems(2) x] by simp
  then show ?case using Cons.IH [OF rest(1)] Cons.prems(2) x rest(2) by auto
qed (simp add: run_simps)

lemma ReconcileAccount_says:
  assumes "ReconcileAccount E i w = (Inr r, w')"
  obtains a where "find_row accID i (accountsT (committed w)) = Some a" "rrAccountID r = i"
    "rrIsReconciled r \<longleftrightarrow> accBalance a = sum_list (map enAmount (account_entries (committed w) i))"
  using assms by (auto simp: ReconcileAccount_def accountRepo_GetByID_def entryRepo_SumAmountsByAccount_def
      sql_GetAccountByID_def sql_SumEntryAmountsByAccount_def run_simps Let_def account_entries_def)

text \<open>A report that came about names every account off by its entries, and no broken chain without a break.\<close>

lemma report_says:
  assumes run: "GenerateReconciliationReport E dec w = (Inr rep, w')"
  shows "\<And>c. c \<in> set (rpChainBreaks rep) \<Longrightarrow> crBreaks c \<noteq> []"
    and "length (accountsT (committed w)) \<le> 1000 \<Longrightarrow> keys_ok (committed w) \<Longrightarrow> a \<in> set (accountsT (committed w)) \<Longrightarrow>
      accBalance a \<noteq> sum_list (map enAmount (account_entries (committed w) (accID a))) \<Longrightarrow>
      \<exists>r \<in> set (rpDiscrepancies rep). rrAccountID r = accID a"
proof -
  obtain results w1 w2 chains v where all: "ReconcileAllAccounts E w = (Inr results, w1)"
    and vs: "forM (\<lambda>r. prefixErr (''failed to verify entry chain for account '' @ rrAccountID r)
        (VerifyEntryChain E (rrAccountID r))) results w2 = (Inr chains, v)"
    and rep: "rpDiscrepancies rep = filter (\<lambda>r. \<not> rrIsReconciled r) results" "rpChainBreaks rep = filter (\<lambda>c. \<not> crValid c) chains"
    using run by (auto simp: GenerateReconciliationReport_def bindM_Inr)
  have "list_all2 (\<lambda>r c. \<exists>u u'. u = u \<and> prefixErr (''failed to verify entry chain for account '' @ rrAccountID r)
        (VerifyEntryChain E (rrAccountID r)) u = (Inr c, u')) results chains"
    using forM_results [OF vs, of "\<lambda>_. ()"] by (auto simp: keeps_def elim!: list_all2_mono)
  then have "\<forall>c \<in> set chains. crValid c \<longleftrightarrow> crBreaks c = []"
    by (induction rule: list_all2_induct) (auto simp: prefixErr_def VerifyEntryChain_def run_simps Let_def)
  then show "crBreaks c \<noteq> []" if "c \<in> set (rpChainBreaks rep)" for c using that rep by auto
  assume small: "length (accountsT (committed w)) \<le> 1000" and k: "keys_ok (committed w)"
    and a: "a \<in> set (accountsT (committed w))" and off: "accBalance a \<noteq> sum_list (map enAmount (account_entries (committed w) (accID a)))"
  obtain as u where list: "accountRepo_List E 1000 0 w = (Inr as, u)"
    and each: "forM (\<lambda>a. prefixErr (''failed to reconcile account '' @ accID a) (ReconcileAccount E (accID a))) as u = (Inr results, w1)"
    using all by (auto simp: ReconcileAllAccounts_def ValidatePagination_def Let_def bindM_Inr)
  have u: "committed u = committed w" "set as = set (accountsT (committed w))"
    using list small by (auto simp: accountRepo_List_def poolStmt_Inr sql_ListAccounts_def rows_Inr pg_limit_def limit_offset_def
        toInt32_def max_int32_def min_int32_def)
  have "list_all2 (\<lambda>a r. \<exists>v v'. committed v = committed u \<and>
      prefixErr (''failed to reconcile account '' @ accID a) (ReconcileAccount E (accID a)) v = (Inr r, v')) as results"
    by (rule forM_results [OF each]) (rule keeps_prefixErr [OF keeps_reconciliation(1)])
  moreover obtain k where k_less: "k < length as" "as ! k = a" using a u(2) by (metis in_set_conv_nth)
  ultimately obtain v v' where r: "committed v = committed w" "ReconcileAccount E (accID a) v = (Inr (results ! k), v')"
    and k_res: "k < length results"
    using u(1) by (fastforce simp: list_all2_conv_all_nth prefixErr_def translateM_Inr)
  obtain b where b: "find_row accID (accID a) (accountsT (committed v)) = Some b" "rrAccountID (results ! k) = accID a"
    "rrIsReconciled (results ! k) \<longleftrightarrow> accBalance b = sum_list (map enAmount (account_entries (committed v) (accID a)))"
    using ReconcileAccount_says [OF r(2)] by blast
  have "b = a" using b(1) find_row_unique [of accID "accountsT (committed w)" a] a k r(1) by (simp add: keys_ok_def)
  then show "\<exists>r \<in> set (rpDiscrepancies rep). rrAccountID r = accID a"
    using r b off rep(1) k_res by (intro bexI [of _ "results ! k"]) auto
qed

lemma driftLines_signals:
  "list_all registered (driftLines rep)" "counted n (driftLines rep) = 0"
proof -
  have lines: "\<exists>m as. u = LogLine LevelError m as" if "u \<in> set (driftLines rep)" for u
    using that by (auto simp: driftLines_def discrepancyLine_def breakLine_def split: if_splits)
  show "list_all registered (driftLines rep)" using lines by (fastforce simp: list_all_iff)
  show "counted n (driftLines rep) = 0" using lines by (fastforce intro: counted_zero)
qed

text \<open>The signals of a pass, by how its report came out.\<close>

definition passSignals :: "err + 'd ReconciliationReport \<Rightarrow> 'd signal list" where
  "passSignals r = HistogramObserve ''goledger_reconciliation_duration_seconds'' [] ElapsedAttr #
     (case r of
        Inl e \<Rightarrow> [LogLine LevelError ''reconciliation run failed'' [(''error'', ErrAttr e)],
          CounterInc ''goledger_reconciliation_runs_total'' [''error'']]
      | Inr rep \<Rightarrow>
          [GaugeSet ''goledger_reconciliation_discrepancies'' [] (length (rpDiscrepancies rep)),
           GaugeSet ''goledger_reconciliation_chain_breaks'' [] (length (rpChainBreaks rep))] @
          (if drifted rep then driftLines rep @ [CounterInc ''goledger_reconciliation_runs_total'' [''drift'']]
           else [LogLine LevelInfo ''reconciliation run clean''
                   [(''total_accounts'', IntAttr (int (rpTotalAccounts rep))), (''duration'', ElapsedAttr)],
                 CounterInc ''goledger_reconciliation_runs_total'' [''ok'']]))"

lemma metered_runOnce_sending:
  assumes "GenerateReconciliationReport E dec (moWorld s) = (r, w')"
  shows "metered_runOnce True E dec s = sending (passSignals r) s (Inr (fst (runOnce E dec (moWorld s))), w')"
    "snd (runOnce E dec (moWorld s)) = w'"
  using assms by (auto simp: metered_runOnce_def runOnce_def passSignals_def metered_run split: sum.splits)

lemma passSignals_accounted:
  assumes "GenerateReconciliationReport E dec w = (r, w')"
  shows "accounted w w' (passSignals r)"
proof -
  have "committed w' = committed w" using keepsD [OF keeps_report assms] by simp
  moreover have "list_all registered (passSignals r)"
    by (simp add: passSignals_def driftLines_signals split: sum.split)
  moreover have "told q (passSignals r) = 0" for q
    by (cases q) (simp_all add: passSignals_def driftLines_signals split: sum.split)
  ultimately show ?thesis by (simp add: accounted_def)
qed

lemma passSignals_error:
  assumes "GenerateReconciliationReport E dec w = (r, w')"
  shows "fst (runOnce E dec w) \<noteq> RunOk \<longleftrightarrow> (\<exists>u \<in> set (passSignals r). errorLine u)"
proof (cases r)
  case (Inl e)
  then show ?thesis using assms by (simp add: runOnce_def passSignals_def errorLine_def)
next
  case (Inr rep)
  have "\<exists>u \<in> set (driftLines rep). errorLine u" if d: "drifted rep"
  proof -
    have "driftLines rep \<noteq> []"
      using d report_says(1) [OF assms [unfolded Inr]] by (auto simp: drifted_def driftLines_def filter_empty_conv)
    then obtain u where "u \<in> set (driftLines rep)" by (meson list.set_sel(1))
    moreover from this have "errorLine u"
      by (auto simp: driftLines_def discrepancyLine_def breakLine_def errorLine_def split: if_splits)
    ultimately show ?thesis by blast
  qed
  then show ?thesis using assms Inr by (auto simp: runOnce_def passSignals_def errorLine_def)
qed

text \<open>The scheduler makes one pass per tick and one at the start, whatever came of the earlier ones.\<close>

lemma passSignals_once: "counted ''goledger_reconciliation_runs_total'' (passSignals r) = 1"
  by (simp add: passSignals_def driftLines_signals split: sum.split)

lemma scheduler_passes:
  "\<exists>w outs us. scheduler_ticks n True E dec s = (Inr outs, s\<lparr>moWorld := w, moSignals := moSignals s @ us\<rparr>) \<and>
     length outs = Suc n \<and> counted ''goledger_reconciliation_runs_total'' us = int (Suc n)"
proof (induction n arbitrary: s)
  case 0
  obtain r w' where "GenerateReconciliationReport E dec (moWorld s) = (r, w')" by fastforce
  from metered_runOnce_sending(1) [OF this] show ?case
    by (intro exI [of _ w'] exI [of _ "[fst (runOnce E dec (moWorld s))]"] exI [of _ "passSignals r"])
      (simp add: bindM_def returnM_def sending_def passSignals_once)
next
  case (Suc n)
  obtain r w' where run: "GenerateReconciliationReport E dec (moWorld s) = (r, w')" by fastforce
  let ?s = "s\<lparr>moWorld := w', moSignals := moSignals s @ passSignals r\<rparr>"
  obtain w outs us where rest: "scheduler_ticks n True E dec ?s = (Inr outs, ?s\<lparr>moWorld := w, moSignals := moSignals ?s @ us\<rparr>)"
    "length outs = Suc n" "counted ''goledger_reconciliation_runs_total'' us = int (Suc n)"
    using Suc.IH [of ?s] by blast
  then show ?case
    using metered_runOnce_sending(1) [OF run]
    by (intro exI [of _ w] exI [of _ "fst (runOnce E dec (moWorld s)) # outs"] exI [of _ "passSignals r @ us"])
      (simp add: bindM_def returnM_def sending_def passSignals_once)
qed

text \<open>The two loggers of the source agree where both know the format.\<close>

lemma loggers_agree:
  "logger_New \<lparr>lgLevel = l, lgFormat = f\<rparr> = logging_New (logging_ParseLevel l) f \<longleftrightarrow> f \<in> {''json'', ''text''}"
  by (auto simp: logger_New_def logging_New_def parseLevel_def logging_ParseLevel_def)

section \<open>Runs of the server with its signals\<close>

inductive metered_step :: "hasher \<Rightarrow> 'd::linordered_idom monitored \<Rightarrow> 'd monitored \<Rightarrow> bool" for H where
  metered_account: "envHasher E = H \<Longrightarrow> metered_CreateAccount True E ctx ai s = (r, s') \<Longrightarrow> metered_step H s s'"
| metered_batch: "envHasher E = H \<Longrightarrow> metered_CreateBatchTransfer True E R ctx bi s = (r, s') \<Longrightarrow> metered_step H s s'"
| metered_transfer: "envHasher E = H \<Longrightarrow> metered_CreateTransfer True E R ctx ti s = (r, s') \<Longrightarrow> metered_step H s s'"
| metered_reverse: "envHasher E = H \<Longrightarrow> metered_ReverseTransfer True E R ctx i md s = (r, s') \<Longrightarrow> metered_step H s s'"
| metered_hold: "envHasher E = H \<Longrightarrow> metered_HoldFunds True E ctx acc x s = (r, s') \<Longrightarrow> metered_step H s s'"
| metered_void: "envHasher E = H \<Longrightarrow> metered_VoidHold True E ctx hid s = (ru, s') \<Longrightarrow> metered_step H s s'"
| metered_capture: "envHasher E = H \<Longrightarrow> metered_CaptureHold True E ctx hid to s = (r, s') \<Longrightarrow> metered_step H s s'"
| metered_publish: "metered_processEvents True E publish cfg s = (ru, s') \<Longrightarrow> metered_step H s s'"
| metered_reconcile: "metered_runOnce True E dec s = (out, s') \<Longrightarrow> metered_step H s s'"

inductive_cases metered_stepE: "metered_step H s s'"

text \<open>What a step adds, and that it is a step of the ledger or reads only.\<close>

definition extends :: "hasher \<Rightarrow> 'd::linordered_idom monitored \<Rightarrow> 'd monitored \<Rightarrow> bool" where
  "extends H s s' \<longleftrightarrow> sys_inv H (committed (moWorld s')) \<and>
     (\<exists>us. moSignals s' = moSignals s @ us \<and> accounted (moWorld s) (moWorld s') us)"

lemma extendsI:
  assumes "mm = (r, s')" and "mm = sending us s (pr, w')" and "accounted (moWorld s) w' us"
    and "step H (moWorld s) w' \<or> committed w' = committed (moWorld s)" and "sys_inv H (committed (moWorld s))"
  shows "extends H s s'"
  using assms step_sys by (auto simp: extends_def sending_def)

lemma batch_extends:
  assumes H: "envHasher E = H" and inv: "sys_inv H (committed (moWorld s))"
  shows "extends H s (snd (metered_CreateBatchTransfer True E R ctx bi s))"
proof -
  obtain r1 w1 where run: "CreateBatchTransfer E R ctx bi (moWorld s) = (r1, w1)" by fastforce
  obtain us where us: "metered_CreateBatchTransfer True E R ctx bi s = sending us s (r1, w1)" "batch_sent True r1 us"
    using metered_CreateBatchTransfer_sending [of True E R ctx bi s] unfolding run fst_conv by blast
  have "accounted (moWorld s) w1 us" using batch_accounted [of E R ctx bi "moWorld s" us] sys_ledger [OF inv] us(2) run by simp
  then show ?thesis
    by (rule extendsI [OF prod.collapse [symmetric] us(1) _ disjI1 [OF step_batch [OF H run]] inv])
qed

lemma reverse_extends:
  assumes H: "envHasher E = H" and inv: "sys_inv H (committed (moWorld s))"
  shows "extends H s (snd (metered_ReverseTransfer True E R ctx i md s))"
proof -
  obtain r1 w1 where run: "ReverseTransfer E R ctx i md (moWorld s) = (r1, w1)" by fastforce
  obtain us where us: "metered_ReverseTransfer True E R ctx i md s = sending us s (r1, w1)"
    and sent: "us = [] \<and> committed w1 = committed (moWorld s) \<or>
      (\<exists>original now v. committed v = committed (moWorld s) \<and>
        snd (CreateBatchTransfer E R ctx (reversal_input original now md) v) = w1 \<and>
        batch_sent True (fst (CreateBatchTransfer E R ctx (reversal_input original now md) v)) us)"
    using metered_ReverseTransfer_sending [of True E R ctx i md s] unfolding run snd_conv by blast
  have "accounted (moWorld s) w1 us" using sent
  proof (elim disjE exE conjE)
    fix original now v
    assume v: "committed v = committed (moWorld s)" "snd (CreateBatchTransfer E R ctx (reversal_input original now md) v) = w1"
      "batch_sent True (fst (CreateBatchTransfer E R ctx (reversal_input original now md) v)) us"
    have "ledger_inv (committed v)" using sys_ledger [OF inv] v(1) by simp
    from batch_accounted [OF v(3) this] show ?thesis using v(1,2) by (simp add: accounted_def)
  qed (simp add: accounted_def)
  then show ?thesis
    by (rule extendsI [OF prod.collapse [symmetric] us _ disjI1 [OF step_reverse [OF H run]] inv])
qed

lemma metered_step_extends:
  assumes "metered_step H s s'" and inv: "sys_inv H (committed (moWorld s))"
  shows "extends H s s'"
  using assms(1)
proof cases
  case (metered_account E ctx ai r)
  obtain r1 w1 where run: "CreateAccount E ctx ai (moWorld s) = (r1, w1)" by fastforce
  show ?thesis
    using account_accounted [of "moWorld s" E ctx ai] unfolding run fst_conv snd_conv
    by (rule extendsI [OF metered_account(2) metered_CreateAccount_sending [of True E ctx ai s, unfolded Let_def run fst_conv] _
          disjI1 [OF step_account [OF metered_account(1) run]] inv])
next
  case (metered_batch E R ctx bi r)
  show ?thesis using batch_extends [OF metered_batch(1) inv, of R ctx bi] unfolding metered_batch(2) snd_conv .
next
  case (metered_transfer E R ctx ti r)
  show ?thesis
    using batch_extends [OF metered_transfer(1) inv]
      metered_CreateTransfer_batch [of True E R ctx ti s, unfolded metered_transfer(2) snd_conv] by simp
next
  case (metered_reverse E R ctx i md r)
  show ?thesis using reverse_extends [OF metered_reverse(1) inv, of R ctx i md] unfolding metered_reverse(2) snd_conv .
next
  case (metered_hold E ctx acc x r)
  obtain r1 w1 where run: "HoldFunds E ctx acc x (moWorld s) = (r1, w1)" by fastforce
  show ?thesis
    using hold_accounted [of "moWorld s" E ctx acc x] unfolding run fst_conv snd_conv
    by (rule extendsI [OF metered_hold(2) metered_HoldFunds_sending [of True E ctx acc x s, unfolded Let_def run fst_conv] _
          disjI1 [OF step_hold [OF metered_hold(1) run]] inv])
next
  case (metered_void E ctx hid ru)
  obtain r1 w1 where run: "VoidHold E ctx hid (moWorld s) = (r1, w1)" by fastforce
  have "keys_ok (committed (moWorld s))" using sys_ledger [OF inv] by (simp add: ledger_inv_def)
  from void_accounted [OF this, of E ctx hid] show ?thesis unfolding run fst_conv snd_conv
    by (rule extendsI [OF metered_void(2) metered_VoidHold_sending [of True E ctx hid s, unfolded Let_def run fst_conv] _
          disjI1 [OF step_void [OF metered_void(1) run]] inv])
next
  case (metered_capture E ctx hid to r)
  obtain r1 w1 where run: "CaptureHold E ctx hid to (moWorld s) = (r1, w1)" by fastforce
  show ?thesis
    using capture_accounted [OF sys_ledger [OF inv], of E ctx hid to] unfolding run fst_conv snd_conv
    by (rule extendsI [OF metered_capture(2) metered_CaptureHold_sending [of True E ctx hid to s, unfolded Let_def run fst_conv] _
          disjI1 [OF step_capture [OF metered_capture(1) run]] inv])
next
  case (metered_publish E publish cfg ru)
  obtain r1 w1 where run: "processEvents E publish cfg (moWorld s) = (r1, w1)" by fastforce
  have "distinct (map obID (outboxT (committed (moWorld s))))"
    using sys_ledger [OF inv] by (simp add: ledger_inv_def keys_ok_def)
  then obtain us where us: "metered_processEvents True E publish cfg s = sending us s (r1, w1)" "accounted (moWorld s) w1 us"
    using metered_processEvents_sending [of s E publish cfg] unfolding run snd_conv by blast
  show ?thesis by (rule extendsI [OF metered_publish us disjI1 [OF step_publish [OF run]] inv])
next
  case (metered_reconcile E dec out)
  obtain r w' where rep: "GenerateReconciliationReport E dec (moWorld s) = (r, w')" by fastforce
  have "committed w' = committed (moWorld s)" using keepsD [OF keeps_report rep] by simp
  then show ?thesis
    by (intro extendsI [OF metered_reconcile metered_runOnce_sending(1) [OF rep] passSignals_accounted [OF rep] _ inv] disjI2)
qed

lemma extends_refl: "sys_inv H (committed (moWorld s)) \<Longrightarrow> extends H s s"
  by (simp add: extends_def accounted_def)

lemma extends_trans: "extends H s t \<Longrightarrow> extends H t u \<Longrightarrow> extends H s u"
  unfolding extends_def using accounted_append by (metis append.assoc)

lemma metered_run_extends:
  assumes "(metered_step H)\<^sup>*\<^sup>* s s'" and "sys_inv H (committed (moWorld s))"
  shows "extends H s s'"
  using assms
proof (induction rule: rtranclp_induct)
  case base
  then show ?case by (rule extends_refl)
next
  case (step t u)
  have "extends H s t" by (rule step.IH [OF step.prems])
  moreover from this have "sys_inv H (committed (moWorld t))" by (simp add: extends_def)
  ultimately show ?case using metered_step_extends [OF step.hyps(2)] extends_trans by blast
qed

text \<open>Bounds of buckets in order.\<close>

fun growing :: "collector_kind \<Rightarrow> bool" where
  "growing (Histogram (Buckets bs)) = sorted_wrt (<) bs"
| "growing _ = True"

lemma idle_counts: "registered u \<Longrightarrow> n \<in> set idle \<Longrightarrow> added n u = 0"
  by (cases u) (auto simp: collects_def)

section \<open>Properties\<close>

text \<open>C23: From the start of the server on, whatever operations, publisher passes and reconciliation runs it serves
  and whichever of them fail, its counters say by how much the tables grew: accounts, transfers (created ones and
  captured holds together), holds, voided and captured holds, and events given up.\<close>

theorem counters_follow_the_ledger:
  assumes "(metered_step H)\<^sup>*\<^sup>* s s'" and "sys_inv H (committed (moWorld s))" and "moSignals s = []"
  shows "let d = committed (moWorld s); d' = committed (moWorld s'); us = moSignals s' in
    int (length (accountsT d')) = int (length (accountsT d)) + counted ''goledger_accounts_created_total'' us \<and>
    int (length (transfersT d')) = int (length (transfersT d)) + counted ''goledger_transfers_created_total'' us +
      counted ''goledger_holds_captured_total'' us \<and>
    int (length (holdsT d')) = int (length (holdsT d)) + counted ''goledger_holds_created_total'' us \<and>
    count_rows (\<lambda>h. hoStatus h = HoldStatusVoided) (holdsT d') =
      count_rows (\<lambda>h. hoStatus h = HoldStatusVoided) (holdsT d) + counted ''goledger_holds_voided_total'' us \<and>
    count_rows (\<lambda>h. hoStatus h = HoldStatusCaptured) (holdsT d') =
      count_rows (\<lambda>h. hoStatus h = HoldStatusCaptured) (holdsT d) + counted ''goledger_holds_captured_total'' us \<and>
    count_rows (\<lambda>e. obDeadLetteredAt e \<noteq> None) (outboxT d') =
      count_rows (\<lambda>e. obDeadLetteredAt e \<noteq> None) (outboxT d) + counted ''goledger_outbox_events_dead_lettered_total'' us"
proof -
  have "stock q (committed (moWorld s')) = stock q (committed (moWorld s)) + told q (moSignals s')" for q
    using metered_run_extends [OF assms(1,2)] assms(3) by (auto simp: extends_def accounted_def)
  from this [of Accounts] this [of Transfers] this [of Holds] this [of VoidedHolds] this [of CapturedHolds] this [of DeadEvents]
  show ?thesis by (simp add: Let_def)
qed


text \<open>C25: A reconciliation pass changes nothing and is logged with an error exactly when it failed or found
  something, at whatever level the logger is configured; a pass over a ledger of up to a thousand accounts in which a
  balance differs from the sum of its entries is one of those.\<close>

theorem drift_is_alerted:
  assumes "metered_runOnce True E dec s = (r, s')"
  shows "\<exists>out us. r = Inr out \<and> moSignals s' = moSignals s @ us \<and> committed (moWorld s') = committed (moWorld s) \<and>
    (out \<noteq> RunOk \<longleftrightarrow> (\<exists>u \<in> set us. errorLine u)) \<and>
    (out \<noteq> RunOk \<longrightarrow> (\<exists>u \<in> set us. written (logger_New cfg) u \<and> errorLine u)) \<and>
    counted ''goledger_reconciliation_runs_total'' us = 1 \<and>
    (keys_ok (committed (moWorld s)) \<and> length (accountsT (committed (moWorld s))) \<le> 1000 \<and>
       (\<exists>a \<in> set (accountsT (committed (moWorld s))).
          accBalance a \<noteq> sum_list (map enAmount (account_entries (committed (moWorld s)) (accID a)))) \<longrightarrow> out \<noteq> RunOk)"
proof -
  obtain rep w' where run: "GenerateReconciliationReport E dec (moWorld s) = (rep, w')" by fastforce
  let ?out = "fst (runOnce E dec (moWorld s))"
  have s': "r = Inr ?out" "moSignals s' = moSignals s @ passSignals rep" "moWorld s' = w'"
    using assms metered_runOnce_sending(1) [OF run] by (auto simp: sending_def)
  have errs: "?out \<noteq> RunOk \<longleftrightarrow> (\<exists>u \<in> set (passSignals rep). errorLine u)" by (rule passSignals_error [OF run])
  have same: "committed w' = committed (moWorld s)" using keepsD [OF keeps_report run] by simp
  have once: "counted ''goledger_reconciliation_runs_total'' (passSignals rep) = 1" by (rule passSignals_once)
  have "?out \<noteq> RunOk" if k: "keys_ok (committed (moWorld s))" and n: "length (accountsT (committed (moWorld s))) \<le> 1000"
    and a: "a \<in> set (accountsT (committed (moWorld s)))"
      "accBalance a \<noteq> sum_list (map enAmount (account_entries (committed (moWorld s)) (accID a)))" for a
  proof (cases rep)
    case (Inl e)
    then show ?thesis using run by (simp add: runOnce_def)
  next
    case (Inr report)
    then have "rpDiscrepancies report \<noteq> []" using report_says(2) [OF run [unfolded Inr] n k a] by auto
    then show ?thesis using run Inr by (simp add: runOnce_def drifted_def)
  qed
  then show ?thesis using s' errs same once error_written by (intro exI [of _ ?out] exI [of _ "passSignals rep"]) blast
qed

section \<open>Concrete runs\<close>

definition meteredStart :: "int monitored" where
  "meteredStart = \<lparr>moWorld = demo3, moSignals = []\<rparr>"

text \<open>A hold, its void, and a pass of a publisher that is refused its first event and gives it up at once.\<close>

definition meteredVoided :: "int monitored" where
  "meteredVoided = \<lparr>moWorld = demo5,
     moSignals = holdSignals ''goledger_holds_created_total'' @ holdSignals ''goledger_holds_voided_total''\<rparr>"

definition meteredEnd :: "int monitored" where
  "meteredEnd = snd (metered_processEvents True demoEnv (\<lambda>n e. Some (PlainErr ''down''))
     \<lparr>epBatchSize = 1, epMaxAttempts = 1\<rparr> meteredVoided)"

lemma meteredEnd_run: "(metered_step demoHasher)\<^sup>*\<^sup>* meteredStart meteredEnd"
proof -
  let ?held = "\<lparr>moWorld = demo4, moSignals = holdSignals ''goledger_holds_created_total''\<rparr> :: int monitored"
  have "metered_HoldFunds True demoEnv Background ''id2'' 50 meteredStart = (Inr (last (holdsT (committed demo4))), ?held)"
    by (simp add: metered_HoldFunds_sending meteredStart_def demo4_run sending_def on_success_def)
  from metered_hold [OF demo_hasher this] have "(metered_step demoHasher)\<^sup>*\<^sup>* meteredStart ?held" ..
  moreover have "metered_VoidHold True demoEnv Background ''id14'' ?held = (Inr (), meteredVoided)"
    by (simp add: metered_VoidHold_sending meteredVoided_def demo5_run sending_def on_success_def)
  note metered_void [OF demo_hasher this]
  moreover have "metered_step demoHasher meteredVoided meteredEnd"
    unfolding meteredEnd_def by (rule metered_publish [OF prod.collapse [symmetric]])
  ultimately show ?thesis by (rule rtranclp.rtrancl_into_rtrancl [OF rtranclp.rtrancl_into_rtrancl])
qed

lemma meteredStart_ok: "sys_inv demoHasher (committed (moWorld meteredStart))" "moSignals meteredStart = []"
  using demo_inv(2) by (simp_all add: meteredStart_def)

theorem counters_follow_the_ledger_witness:
  "counted ''goledger_holds_voided_total'' (moSignals meteredEnd) = 1 \<and>
   counted ''goledger_outbox_events_dead_lettered_total'' (moSignals meteredEnd) = 1"
proof -
  have "count_rows (\<lambda>h. hoStatus h = HoldStatusVoided) (holdsT (committed (moWorld meteredStart))) = 0"
    "count_rows (\<lambda>h. hoStatus h = HoldStatusVoided) (holdsT (committed (moWorld meteredEnd))) = 1"
    "count_rows (\<lambda>e. obDeadLetteredAt e \<noteq> None) (outboxT (committed (moWorld meteredStart))) = 0"
    "count_rows (\<lambda>e. obDeadLetteredAt e \<noteq> None) (outboxT (committed (moWorld meteredEnd))) = 1" by code_simp+
  then show ?thesis using counters_follow_the_ledger [OF meteredEnd_run meteredStart_ok] by (simp add: Let_def)
qed


text \<open>A ledger one of whose balances was changed behind its back.\<close>

definition meteredTampered :: "int monitored" where
  "meteredTampered = meteredStart\<lparr>moWorld := demo3\<lparr>committed := demoDb3
     \<lparr>accountsT := update_rows accID ''id2'' (\<lambda>a. a\<lparr>accBalance := 700\<rparr>) (accountsT demoDb3)\<rparr>\<rparr>\<rparr>"

theorem drift_is_alerted_witness:
  "\<exists>u \<in> set (moSignals (snd (metered_runOnce True demoEnv (\<lambda>d. ''amount'') meteredTampered))).
     written (logger_New \<lparr>lgLevel = ''error'', lgFormat = ''json''\<rparr>) u"
proof -
  have "keys_ok (committed (moWorld meteredTampered)) \<and> length (accountsT (committed (moWorld meteredTampered))) \<le> 1000 \<and>
      (\<exists>a \<in> set (accountsT (committed (moWorld meteredTampered))).
         accBalance a \<noteq> sum_list (map enAmount (account_entries (committed (moWorld meteredTampered)) (accID a))))"
    by code_simp
  then show ?thesis
    using drift_is_alerted [OF prod.collapse [symmetric], of demoEnv "\<lambda>d. ''amount''" meteredTampered
      "\<lparr>lgLevel = ''error'', lgFormat = ''json''\<rparr>"] by fastforce
qed

end
