(* ===== verification/Spec2Isabelle.thy ===== *)
theory Spec2Isabelle
  imports Checks Refinement ConcurrencyChecks ApiChecks CliChecks StartupChecks TelemetryChecks
begin

text \<open>
  GoLedger (\<^verbatim>\<open>src/\<close>) is a double-entry ledger in Go over PostgreSQL and Redis: an HTTP and a gRPC API in
  front of use cases for accounts, transfers, holds, reversals, users and reconciliation, a worker that publishes
  the events of an outbox table, a hash-chained audit table, and a command line tool on the same database. This
  development models it in the order of its layers and proves what holds of the whole.

  \<^bold>\<open>The model.\<close> A use case is a function of an environment, a caller and its input that returns an action: a
  state transformer over a world that ends in an error or a value (\<^verbatim>\<open>Prelude\<close>, \<^verbatim>\<open>Store\<close>). The world is the
  committed database, the working copy of the open transaction, and counters. The environment is everything
  outside: the identifiers and clock readings to come, and for each call to the database the failure it meets, if
  any; theorems hold for every environment, so for every pattern of failures. Amounts are elements of an ordered
  integral domain \<^verbatim>\<open>'d\<close>: the decimal type has unbounded digits, its arithmetic is exact, and the columns are
  NUMERIC. Strings are byte strings. Errors are values of the type \<^verbatim>\<open>err\<close>, with the wrapping of
  \<^verbatim>\<open>fmt.Errorf\<close>; a nil-able pointer is an option.

  \<^bold>\<open>Theories and sources.\<close> Definitions have the names of the functions they translate; a method that is
  declared for several types carries the type in front.
  \<^item> \<^verbatim>\<open>Prelude\<close>: actions, binding, deferred work, frames, rows of tables, the collections of hints.
  \<^item> \<^verbatim>\<open>Domain\<close>, \<^verbatim>\<open>Validation\<close>: \<^verbatim>\<open>internal/domain\<close>.
  \<^item> \<^verbatim>\<open>Database\<close>, \<^verbatim>\<open>AuditChain\<close>: the tables, constraints, triggers and functions of
    \<^verbatim>\<open>internal/infrastructure/postgres/migrations\<close> and the queries of \<^verbatim>\<open>generated\<close> over them.
  \<^item> \<^verbatim>\<open>Store\<close>, \<^verbatim>\<open>Repositories\<close>, \<^verbatim>\<open>Retrier\<close>: \<^verbatim>\<open>internal/adapter/repository/postgres\<close>. The interface
    of a transaction is the locale \<^verbatim>\<open>transaction\<close>, that of a retrier the locale in \<^verbatim>\<open>Retrier\<close>.
  \<^item> \<^verbatim>\<open>TransferUC\<close>, \<^verbatim>\<open>HoldUC\<close>, \<^verbatim>\<open>AccountUC\<close>, \<^verbatim>\<open>Reconciliation\<close>, \<^verbatim>\<open>Users\<close>: \<^verbatim>\<open>internal/usecase\<close>, with the
    scheduler's pass and the repository of users.
  \<^item> \<^verbatim>\<open>Publisher\<close>: \<^verbatim>\<open>internal/infrastructure/eventpublisher\<close>.
  \<^item> \<^verbatim>\<open>Errors\<close>, \<^verbatim>\<open>Server\<close>, \<^verbatim>\<open>Idempotency\<close>, \<^verbatim>\<open>Access\<close>, \<^verbatim>\<open>Dto\<close>, \<^verbatim>\<open>Http\<close>, \<^verbatim>\<open>Router\<close>, \<^verbatim>\<open>Grpc\<close>: the two
    transports (\<^verbatim>\<open>internal/adapter/http\<close>, \<^verbatim>\<open>internal/adapter/grpc\<close>), the Redis stores
    (\<^verbatim>\<open>internal/adapter/repository/redis\<close>) and the token manager (\<^verbatim>\<open>internal/infrastructure/auth\<close>).
  \<^item> \<^verbatim>\<open>Edge\<close>: the rate limiter, the request counter and the request log of \<^verbatim>\<open>http/middleware\<close>.
  \<^item> \<^verbatim>\<open>Cli\<close>: \<^verbatim>\<open>cmd/cli\<close> with \<^verbatim>\<open>postgres/migrator.go\<close>. \<^verbatim>\<open>Startup\<close>: \<^verbatim>\<open>cmd/server\<close>, the configuration
    and the connections.
  \<^item> \<^verbatim>\<open>Telemetry\<close>: \<^verbatim>\<open>internal/infrastructure/metrics\<close>, \<^verbatim>\<open>logger\<close>, \<^verbatim>\<open>logging\<close>, and the use cases, the publisher and
    the scheduler (\<^verbatim>\<open>reconciliation/scheduler.go\<close>) once more with the metrics they update and the lines they log.
  \<^item> \<^verbatim>\<open>Demo\<close>, \<^verbatim>\<open>ApiDemo\<close>: a concrete run, a concrete server and requests. They are what the theorems with
    hypotheses are applied to.

  \<^bold>\<open>What is proved, and where.\<close>
  \<^item> \<^verbatim>\<open>Ledger\<close> states the ledger invariant: keys, account constraints, balances that are the running totals of
    their entries, two opposite entries in one currency per transfer, at most one reversal per transfer,
    encumbrances that are the sums of the active holds, gapless event numbers. The effects that keep it (posting,
    holding, releasing, capturing, opening an account) are defined there without any reference to the code.
  \<^item> \<^verbatim>\<open>TransferLaws\<close> and \<^verbatim>\<open>HoldLaws\<close> show that each use case has exactly such an effect when it succeeds and
    none when it fails. \<^verbatim>\<open>System\<close> turns the operations into a step relation; the locale \<^verbatim>\<open>step_invariant\<close>
    carries the invariant over all reachable states and its extension \<^verbatim>\<open>step_history\<close> what every step leaves of the
    past over all runs. Both are interpreted three times: on the operations, on the server, on the installation.
  \<^item> \<^verbatim>\<open>Refinement\<close>: a batch computes what a specification over balances alone says, in both directions.
  \<^item> \<^verbatim>\<open>Locking\<close> interleaves programs of row statements (\<^verbatim>\<open>SELECT FOR UPDATE\<close>, inserts, updates, commit,
    abort) under PostgreSQL's row locks, with timeouts anywhere; its locale \<^verbatim>\<open>lock_discipline\<close> has what programs
    promise (locks in one order, updates only of rows held, no commit after a missing row, a bound) and what follows
    (serializability in the order of the commits, no deadlock, an end). \<^verbatim>\<open>Concurrency\<close> writes the transactions of
    the use cases as such programs and interprets the locale on them; \<^verbatim>\<open>ConcurrencyLaws\<close> shows that each detailed
    use case commits exactly its programs, so the sequential model and the lock analysis speak of the same code;
    \<^verbatim>\<open>ConcurrentMoney\<close> states the money invariant on rows. \<^verbatim>\<open>ConcurrencyChecks\<close> holds the properties.
  \<^item> \<^verbatim>\<open>ReconciliationLaws\<close> and \<^verbatim>\<open>Checks\<close>: what reconciliation, the audit chain, the retrier, the publisher and
    the e-mail check guarantee and what they miss.
  \<^item> \<^verbatim>\<open>Api\<close>, \<^verbatim>\<open>Service\<close>, \<^verbatim>\<open>Guards\<close>, \<^verbatim>\<open>Replays\<close>, \<^verbatim>\<open>Answers\<close>: rules that follow the shape of handlers,
    middleware and interceptors up to the whole router and the whole chain (the locale \<^verbatim>\<open>pointwise\<close> has what the
    five classes of computations share): what a request may do to the database,
    whose request may, what a retry does, what an answer looks like. \<^verbatim>\<open>ApiChecks\<close> holds the properties.
  \<^item> \<^verbatim>\<open>CliLaws\<close> and \<^verbatim>\<open>CliChecks\<close>: the same for the tool, and the invariant of the installation, server and tool
    together. \<^verbatim>\<open>StartupChecks\<close>: configuration, start-up, shutdown, rate limiting.
  \<^item> \<^verbatim>\<open>TelemetryLaws\<close> and \<^verbatim>\<open>TelemetryChecks\<close>: the metered operations do what the plain ones do, their counters are
    what the tables gained, every update fits a registered collector, and drift is always logged.

  \<^bold>\<open>Bounds.\<close> All functions are total. The retrier makes at most four attempts because \<^verbatim>\<open>maxRetries\<close> is 3; the
  worker's loop is given the number of ticks it sees, and the property about delivery says how many are enough.
  Sequence numbers are checked against \<^verbatim>\<open>max_int64\<close>, limits and offsets are clamped to 32 bits and \<^verbatim>\<open>VARCHAR\<close>
  columns count characters, as in the code and the schema.

  \<^bold>\<open>Assumptions.\<close> The detailed model runs transactions one after another. That this is what row locking amounts to is
  proved for the operations that move or hold money, open accounts or write audit rows, on accounts, holds, the unique
  index of reversals and the number of the audit chain (\<^verbatim>\<open>ConcurrencyChecks\<close>); the other tables are only inserted
  into, under identifiers that are assumed not to collide. A batch that reverses several transfers, which neither API can
  ask for, would have to name them in order. A failing call has no effect; in particular a commit
  that reports a failure has not committed. Third-party code is a parameter: the hash function, bcrypt, the signing
  and parsing of tokens, decimal and time formats, the JSON and protobuf encoders, what Redis does between two
  commands, the backoff of the retrier, the token bucket, drivers, the migration library. What a property needs of them is a named
  hypothesis (\<^verbatim>\<open>jwt_documented\<close>, \<^verbatim>\<open>redis_up\<close>, \<^verbatim>\<open>key_kept\<close>, \<^verbatim>\<open>migrated\<close>, \<^verbatim>\<open>prints\<close>). A request is given
  after the router library has split its path and the JSON lexer its body.

  \<^bold>\<open>Not modelled.\<close> What the Prometheus and logging libraries make of the calls, durations and trace spans
  (\<^verbatim>\<open>postgres/tracer.go\<close>); the middleware that recovers from panics, which the router does not use and no modelled
  handler needs; code generated by protoc and sqlc beyond the queries; mocks, tests and the null outbox they use; the
  retention job of migration 000010, which runs outside the program; the parsing of command line flags and of
  environment variables, which belongs to libraries.
\<close>

section \<open>The ledger\<close>

text \<open>C1: In every reachable state of the service, after any operations with any inputs and any
  failures of the database, the ledger invariant holds: unique keys, the account
  constraints, balances that are the running totals of their entries, two entries of opposite
  sign and one currency per transfer, at most one reversal per transfer, encumbrances that are
  the sums of the active holds, and gapless event numbers.\<close>

theorem reachable_ledger_inv:
  assumes "reachable H w"
  shows "ledger_inv (committed w)"
  using reachable_sys [OF assms] by (simp add: sys_inv_def)

theorem reachable_ledger_inv_witness:
  "ledger_inv (committed demo4) \<and> length (entriesT (committed demo4)) = 4"
proof
  show "ledger_inv (committed demo4)" by (rule reachable_ledger_inv [OF demo_reachable(5)])
  show "length (entriesT (committed demo4)) = 4" by code_simp
qed

text \<open>C3: A batch that succeeds moved exactly what was asked: the new transfers are the requested
  ones, in order; every account's balance changed by the net of the batch and no encumbrance
  and no hold changed.\<close>

theorem batch_moves_exactly:
  assumes "CreateBatchTransfer E R ctx input w = (Inr ts, w')" and "ledger_inv (committed w)"
  shows "transfersT (committed w') = transfersT (committed w) @ ts \<and>
    map (\<lambda>t. (trFrom t, trTo t, trAmount t, trReversed t)) ts =
      map (\<lambda>ti. (ciFrom ti, ciTo ti, ciAmount ti, ciReversed ti)) (cbTransfers input) \<and>
    balance_of (committed w') i =
      map_option (\<lambda>b. b + sum_list (map (\<lambda>ti. (if ciTo ti = i then ciAmount ti else 0) -
        (if ciFrom ti = i then ciAmount ti else 0)) (cbTransfers input))) (balance_of (committed w) i) \<and>
    encumbered_of (committed w') i = encumbered_of (committed w) i \<and>
    holdsT (committed w') = holdsT (committed w)"
proof -
  note e = batch_done_effect [OF CreateBatchTransfer_succeeded(1) [OF assms]]
  have "map (moved i) ts = map (\<lambda>(f, t, m, r). (if t = i then m else 0) - (if f = i then m else 0))
      (map (\<lambda>t. (trFrom t, trTo t, trAmount t, trReversed t)) ts)"
    by (simp add: moved_def)
  also have "\<dots> = map (\<lambda>ti. (if ciTo ti = i then ciAmount ti else 0) -
        (if ciFrom ti = i then ciAmount ti else 0)) (cbTransfers input)"
    unfolding e(5) by simp
  finally show ?thesis using e by simp
qed

theorem batch_moves_exactly_witness:
  "balance_of (committed demo3) ''id2'' = Some 70 \<and>
   transfersT (committed demo3) = transfersT (committed demo2) @
     transfersT (committed demo3)"
proof -
  note b = batch_moves_exactly [OF demo3_run demo_ledger(1), of "''id2''"]
  have "balance_of (committed demo2) ''id2'' = Some 0" by code_simp
  then show ?thesis using b by (simp add: demoBatch_def demoTransfer_def)
qed

text \<open>C4: An operation of the service that returns an error, whatever the input, the failures of the
  database and the retries, leaves accounts, transfers, entries, holds and events exactly as they were
  (only audit rows may be added).\<close>

theorem failed_operations_keep_money:
  "(CreateBatchTransfer E R ctx bi w = (Inl e, w1) \<longrightarrow> same_ledger (committed w) (committed w1)) \<and>
   (ReverseTransfer E R ctx i md w = (Inl e, w2) \<longrightarrow> same_ledger (committed w) (committed w2)) \<and>
   (HoldFunds E ctx acc amount w = (Inl e, w3) \<longrightarrow> same_ledger (committed w) (committed w3)) \<and>
   (VoidHold E ctx hid w = (Inl e, w4) \<longrightarrow> same_ledger (committed w) (committed w4)) \<and>
   (CaptureHold E ctx hid to w = (Inl e, w5) \<longrightarrow> same_ledger (committed w) (committed w5)) \<and>
   (CreateAccount E ctx ai w = (Inl e, w6) \<longrightarrow> same_ledger (committed w) (committed w6))"
proof (intro conjI impI)
  assume "ReverseTransfer E R ctx i md w = (Inl e, w2)"
  from ReverseTransfer_batch [OF this] show "same_ledger (committed w) (committed w2)"
    by (elim disjE exE conjE) (auto split: sum.splits dest!: CreateBatchTransfer_failed effect_audited)
qed (auto dest!: CreateBatchTransfer_failed HoldFunds_failed VoidHold_failed CaptureHold_failed
    CreateAccount_failed effect_audited)

theorem failed_operations_keep_money_witness:
  "same_ledger (committed demo3) (committed (snd
     (ReverseTransfer demoEnv NoopRetrier Background ''id4'' None demo3)))"
proof -
  have "isl (fst (ReverseTransfer demoEnv NoopRetrier Background ''id4'' None demo3))" by code_simp
  then show ?thesis using failed_operations_keep_money failure by blast
qed

text \<open>C2: In every reachable state the balances of each currency sum to zero: no sequence of operations
  and failures creates or destroys money.\<close>

theorem money_is_conserved:
  assumes "reachable H w"
  shows "sum_list (map accBalance (filter (\<lambda>a. accCurrency a = c) (accountsT (committed w)))) = 0"
  using currency_balances_zero sys_ledger [OF reachable_sys [OF assms]] by blast

theorem money_is_conserved_witness:
  "sum_list (map accBalance (filter (\<lambda>a. accCurrency a = ''USD'') (accountsT (committed demo4)))) = 0 \<and>
   map accBalance (accountsT (committed demo4)) = [-70, 70]"
proof
  show "map accBalance (accountsT (committed demo4)) = [-70, 70]" by code_simp
qed (rule money_is_conserved [OF demo_reachable(5)])

text \<open>C5: Whatever is done to a reachable state, its transfers, entries and audit rows stay, in place and
  unchanged, and a hold that was voided or captured stays as it is: both are final.\<close>

theorem history_is_immutable:
  assumes "reachable H w" and "(step H)\<^sup>*\<^sup>* w w'"
  shows "prefix (transfersT (committed w)) (transfersT (committed w')) \<and>
    prefix (entriesT (committed w)) (entriesT (committed w')) \<and>
    prefix (auditT (committed w)) (auditT (committed w')) \<and>
    (\<forall>h \<in> set (holdsT (committed w)). hoStatus h \<noteq> HoldStatusActive \<longrightarrow> h \<in> set (holdsT (committed w')))"
  using steps_past_kept [OF assms(2,1)] by (simp add: past_kept_def)

theorem history_is_immutable_witness:
  "prefix (transfersT (committed demo3)) (transfersT (committed demo6)) \<and>
   map trID (transfersT (committed demo6)) = [''id4'', ''id8'', ''id17'']"
proof
  have "(step demoHasher)\<^sup>*\<^sup>* demo3 demo6" using demo_steps(4,6) by (meson rtranclp.simps)
  then show "prefix (transfersT (committed demo3)) (transfersT (committed demo6))"
    using history_is_immutable [OF demo_reachable(4)] by blast
  show "map trID (transfersT (committed demo6)) = [''id4'', ''id8'', ''id17'']" by code_simp
qed

text \<open>In every reachable state the audit table passes the database's own check of its hash chain.\<close>

theorem audit_chain_verifies:
  assumes "reachable H w"
  shows "verify_audit_log_chain H (auditT (committed w)) = []"
  using audit_ok_verify reachable_sys [OF assms] unfolding sys_inv_def by blast

theorem audit_chain_verifies_witness:
  "verify_audit_log_chain demoHasher (auditT (committed demo6)) = [] \<and> length (auditT (committed demo6)) = 6"
proof
  show "length (auditT (committed demo6)) = 6" by code_simp
qed (rule audit_chain_verifies [OF demo_reachable(7)])

text \<open>C6: A hold that succeeds had enough available balance (unless the account may go negative), adds
  exactly that amount to what the account has encumbered, and changes no balance, transfer or entry.\<close>

theorem HoldFunds_exact:
  assumes "HoldFunds E ctx acc amount w = (Inr h, w')"
  shows "hoAccount h = acc \<and> hoAmount h = amount \<and> hoStatus h = HoldStatusActive \<and> 0 < amount \<and>
    holdsT (committed w') = holdsT (committed w) @ [h] \<and>
    balance_of (committed w') i = balance_of (committed w) i \<and>
    encumbered_of (committed w') i =
      map_option (\<lambda>n. n + (if acc = i then amount else 0)) (encumbered_of (committed w) i) \<and>
    transfersT (committed w') = transfersT (committed w) \<and> entriesT (committed w') = entriesT (committed w) \<and>
    (\<exists>a. find_row accID acc (accountsT (committed w)) = Some a \<and>
       (accAllowNegative a \<or> amount \<le> AvailableBalance a))"
proof -
  note s = HoldFunds_succeeded [OF assms]
  obtain d where d: "held (committed w) h d" "same_ledger d (committed w')" using s(1) effect_audited by blast
  have "hoStatus h = HoldStatusActive" "0 < hoAmount h" using d(1) unfolding held_def by blast+
  then show ?thesis using held_effect [OF d(1)] same_ledger_observe [OF d(2)] s(2,3)
    by (simp add: ValidateDebit_None)
qed

theorem HoldFunds_exact_witness:
  "encumbered_of (committed demo4) ''id2'' = Some 50 \<and> balance_of (committed demo4) ''id2'' = Some 70"
proof -
  note h = HoldFunds_exact [OF demo4_run, of "''id2''"]
  have "encumbered_of (committed demo3) ''id2'' = Some 0" "balance_of (committed demo3) ''id2'' = Some 70"
    by code_simp+
  then show ?thesis using h by simp
qed

text \<open>C7: Voiding a hold gives back exactly what it took: every account is as before the hold, and the
  hold is there, voided. The clamp at zero never acts.\<close>

theorem void_undoes_hold:
  assumes "HoldFunds E ctx acc amount w = (Inr h, w1)" and "VoidHold E' ctx' (hoID h) w1 = (Inr (), w2)"
    and "ledger_inv (committed w)"
  shows "balance_of (committed w2) i = balance_of (committed w) i \<and>
    encumbered_of (committed w2) i = encumbered_of (committed w) i \<and>
    (\<exists>t. holdsT (committed w2) = holdsT (committed w) @ [set_status HoldStatusVoided t h])"
proof -
  obtain d where d: "held (committed w) h d" "same_ledger d (committed w1)"
    using HoldFunds_succeeded(1) [OF assms(1)] effect_audited by blast
  have inv1: "ledger_inv (committed w1)" using held_inv [OF d(1) assms(3)] ledger_inv_same [OF d(2)] by blast
  obtain h' now d2 where r: "find_row hoID (hoID h) (holdsT (committed w1)) = Some h'"
    "released (committed w1) h' now d2" "same_ledger d2 (committed w2)"
    using VoidHold_succeeded [OF assms(2)] effect_audited by blast
  note e1 = held_effect [OF d(1)] note s1 = same_ledger_observe [OF d(2)]
  have holds: "holdsT (committed w1) = holdsT (committed w) @ [h]" and new: "hoID h \<notin> hoID ` set (holdsT (committed w))"
    using d e1 s1 by (auto simp: held_def)
  have "find_row hoID (hoID h) (holdsT (committed w)) = None" using new by (simp add: find_row_None)
  then have h': "h' = h" using r(1) holds by (simp add: find_row_append) (simp add: find_row_def)
  note e2 = released_effect [OF r(2) inv1] note s2 = same_ledger_observe [OF r(3)]
  have "update_rows hoID (hoID h) f (holdsT (committed w) @ [h]) = holdsT (committed w) @ [f h]" for f
    using update_rows_other [OF new] by (simp add: update_rows_def)
  then show ?thesis using e1 e2 s1 s2 h' holds by (auto simp: option.map_comp comp_def option.map_ident)
qed


theorem void_undoes_hold_witness:
  "balance_of (committed demo5) ''id2'' = Some 70 \<and> encumbered_of (committed demo5) ''id2'' = Some 0 \<and>
   map hoStatus (holdsT (committed demo5)) = [HoldStatusVoided]"
proof -
  have h: "VoidHold demoEnv Background (hoID (last (holdsT (committed demo4)))) demo4 = (Inr (), demo5)"
  proof -
    have "hoID (last (holdsT (committed demo4))) = ''id14''" by code_simp
    then show ?thesis using demo5_run by simp
  qed
  have "balance_of (committed demo3) ''id2'' = Some 70" "encumbered_of (committed demo3) ''id2'' = Some 0"
    "map hoStatus (holdsT (committed demo5)) = [HoldStatusVoided]" by code_simp+
  then show ?thesis using void_undoes_hold [OF demo4_run h demo_ledger(2), of "''id2''"] by simp
qed

text \<open>C8: A capture that succeeds captured an active hold: it moved the held amount to another account by one
  transfer, took it off the encumbrance, and marked the hold captured.\<close>

theorem CaptureHold_exact:
  assumes "CaptureHold E ctx hid to w = (Inr t, w')" and "ledger_inv (committed w)"
  shows "\<exists>h. find_row hoID hid (holdsT (committed w)) = Some h \<and> hoStatus h = HoldStatusActive \<and>
    trFrom t = hoAccount h \<and> trTo t = to \<and> trAmount t = hoAmount h \<and> hoAccount h \<noteq> to \<and>
    transfersT (committed w') = transfersT (committed w) @ [t] \<and>
    balance_of (committed w') i = map_option (\<lambda>b. b + (if to = i then hoAmount h else 0) -
      (if hoAccount h = i then hoAmount h else 0)) (balance_of (committed w) i) \<and>
    encumbered_of (committed w') i = map_option (\<lambda>n. n - (if hoAccount h = i then hoAmount h else 0))
      (encumbered_of (committed w) i) \<and>
    (\<exists>t. holdsT (committed w') = update_rows hoID hid (set_status HoldStatusCaptured t) (holdsT (committed w)))"
proof -
  obtain h d where h: "find_row hoID hid (holdsT (committed w)) = Some h" and
    d: "captured (committed w) h t d" "same_ledger d (committed w')"
    using CaptureHold_succeeded(1) [OF assms] effect_audited by blast
  have "hoStatus h = HoldStatusActive" using d(1) unfolding captured_def by blast
  then show ?thesis
    using h captured_effect [OF d(1) assms(2)] same_ledger_observe [OF d(2)]
      CaptureHold_succeeded(2) [OF assms] find_row_Some [OF h]
    by (intro exI [of _ h]) (auto simp: moved_def algebra_simps)
qed

theorem CaptureHold_exact_witness:
  "balance_of (committed demo6) ''id2'' = Some 20 \<and> balance_of (committed demo6) ''id0'' = Some (- 20) \<and>
   encumbered_of (committed demo6) ''id2'' = Some 0"
proof -
  have h: "find_row hoID ''id14'' (holdsT (committed demo4)) = Some (last (holdsT (committed demo4)))"
    "hoAmount (last (holdsT (committed demo4))) = 50" "hoAccount (last (holdsT (committed demo4))) = ''id2''"
    "balance_of (committed demo4) ''id2'' = Some 70" "balance_of (committed demo4) ''id0'' = Some (- 70)"
    "encumbered_of (committed demo4) ''id2'' = Some 50" by code_simp+
  show ?thesis
    using CaptureHold_exact [OF demo6_run demo_ledger(3), of "''id2''"]
      CaptureHold_exact [OF demo6_run demo_ledger(3), of "''id0''"] h by simp
qed

text \<open>C9: A transfer that has been reversed cannot be reversed again: the operation fails and changes nothing.\<close>

theorem no_double_reversal:
  assumes "ReverseTransfer E R ctx i md w = (r, w')" and "ledger_inv (committed w)"
    and "t \<in> set (transfersT (committed w))" and "trReversed t = Some i"
  shows "\<exists>e. r = Inl e \<and> same_ledger (committed w) (committed w')"
  using ReverseTransfer_batch [OF assms(1)]
proof (elim disjE exE conjE)
  fix e assume "r = Inl e" "committed w' = committed w"
  then show ?thesis by simp
next
  fix original now v r'
  assume o: "find_row trID i (transfersT (committed w)) = Some original" and v: "committed v = committed w"
    and run: "CreateBatchTransfer E R ctx (reversal_input original now md) v = (r', w')"
    and r: "r = (case r' of Inl e \<Rightarrow> Inl e | Inr ts \<Rightarrow> Inr (hd ts))"
  show ?thesis
  proof (cases r')
    case (Inl e)
    then show ?thesis using CreateBatchTransfer_failed run r effect_audited v by fastforce
  next
    case (Inr ts)
    then obtain d where d: "posted (committed w) ts d"
      using CreateBatchTransfer_succeeded(1) run assms(2) v unfolding batch_done_def by metis
    have "map trReversed ts = [Some (trID original)]"
      using batch_done_effect(5) [OF CreateBatchTransfer_succeeded(1) [OF run [unfolded Inr]]] assms(2) v
      by (cases ts) (auto simp: reversal_input_def)
    then obtain u where "u \<in> set ts" "trReversed u = Some i"
      using find_row_Some [OF o] by (cases ts) auto
    then show ?thesis using posted_reversed_fresh [OF d] assms(3,4) by blast
  qed
qed

theorem no_double_reversal_witness:
  "\<exists>e. fst (ReverseTransfer demoEnv NoopRetrier Background ''id8'' None demo7) = Inl e"
proof -
  have "trReversed (last (transfersT (committed demo7))) = Some ''id8''"
    "last (transfersT (committed demo7)) \<in> set (transfersT (committed demo7))" by code_simp+
  with no_double_reversal [OF prod.collapse [symmetric] sys_ledger [OF reachable_sys [OF demo_reachable(8)]]]
  show ?thesis by blast
qed

section \<open>Round trips and checks\<close>

text \<open>C15: A transfer followed by its reversal restores the balance and the encumbrance of every account;
  both transfers stay on record and the second names the first.\<close>

theorem reversal_restores_balances:
  assumes "CreateTransfer E R ctx input w = (Inr t, w1)" and "ReverseTransfer E' R' ctx' (trID t) md w1 = (Inr t', w2)"
    and "ledger_inv (committed w)"
  shows "trReversed t' = Some (trID t) \<and> trFrom t' = trTo t \<and> trTo t' = trFrom t \<and> trAmount t' = trAmount t \<and>
    transfersT (committed w2) = transfersT (committed w) @ [t, t'] \<and>
    balance_of (committed w2) i = balance_of (committed w) i \<and>
    encumbered_of (committed w2) i = encumbered_of (committed w) i"
proof -
  let ?bi = "\<lparr>cbEventAt = ciEventAt input, cbMetadata = ciMetadata input, cbTransfers = [input]\<rparr>"
  obtain r where r: "CreateBatchTransfer E R ctx ?bi w = (r, w1)" "Inr t = (case r of Inl e \<Rightarrow> Inl e | Inr ts \<Rightarrow> Inr (hd ts))"
    using CreateTransfer_batch [OF assms(1)] by blast
  obtain ts where ts: "r = Inr ts" "t = hd ts" using r(2) by (auto split: sum.splits)
  note b1 = CreateBatchTransfer_succeeded(1) [OF r(1) [unfolded ts(1)] assms(3)]
  note e1 = batch_done_effect [OF b1]
  have one: "ts = [t]" using e1(5) ts(2) by (cases ts; cases "tl ts") auto
  have inv1: "ledger_inv (committed w1)" by (rule batch_done_inv [OF b1 assms(3)])
  have "distinct (map trID (transfersT (committed w1)))" using inv1 by (simp add: ledger_inv_def keys_ok_def)
  then have found: "find_row trID (trID t) (transfersT (committed w1)) = Some t"
    by (rule find_row_unique) (simp add: e1(1) one)
  obtain original now v r' where o: "find_row trID (trID t) (transfersT (committed w1)) = Some original"
    "committed v = committed w1" "CreateBatchTransfer E' R' ctx' (reversal_input original now md) v = (r', w2)"
    "Inr t' = (case r' of Inl e \<Rightarrow> Inl e | Inr ts \<Rightarrow> Inr (hd ts))"
    using ReverseTransfer_batch [OF assms(2)] by auto
  obtain us where us: "r' = Inr us" "t' = hd us" using o(4) by (auto split: sum.splits)
  note e2 = batch_done_effect [OF CreateBatchTransfer_succeeded(1) [OF o(3) [unfolded us(1)]], unfolded o(2), OF inv1]
  have two: "us = [t']" using e2(5) us(2) by (cases us; cases "tl us") (auto simp: reversal_input_def)
  have t': "trReversed t' = Some (trID t)" "trFrom t' = trTo t" "trTo t' = trFrom t" "trAmount t' = trAmount t"
    using e2(5) two found o(1) by (auto simp: reversal_input_def)
  then show ?thesis using e1(1,3,4) e2(1,3,4) one two
    by (auto simp: option.map_comp comp_def moved_def option.map_ident)
qed

text \<open>C16: On an intact ledger reconciliation finds nothing: every account it can read is reconciled, with
  difference zero, and the consistency check fails only when its query does.\<close>

theorem reconciliation_of_intact_ledger:
  assumes "ledger_inv (committed w)"
  shows "(ReconcileAccount E i w = (Inr r, w1) \<longrightarrow> rrIsReconciled r \<and> rrDifference r = 0 \<and>
      balance_of (committed w) i = Some (rrRecordedBalance r)) \<and>
    (CheckLedgerConsistency E dec w = (Inl e, w2) \<longrightarrow> envFault E (callCount w) = Some e)"
proof (intro conjI impI)
  assume run: "ReconcileAccount E i w = (Inr r, w1)"
  then obtain a where a: "find_row accID i (accountsT (committed w)) = Some a"
    "rrRecordedBalance r = accBalance a"
    "rrDifference r = accBalance a - sum_list (map enAmount (account_entries (committed w) i))"
    "rrIsReconciled r \<longleftrightarrow> rrDifference r = 0"
    by (auto simp: ReconcileAccount_def accountRepo_GetByID_def entryRepo_SumAmountsByAccount_def
        sql_GetAccountByID_def sql_SumEntryAmountsByAccount_def run_simps Let_def account_entries_def)
  have "accBalance a = sum_list (map enAmount (account_entries (committed w) i))"
    using chains_balance [of "committed w" a] assms find_row_Some [OF a(1)] by (auto simp: ledger_inv_def)
  then show "rrIsReconciled r" "rrDifference r = 0" "balance_of (committed w) i = Some (rrRecordedBalance r)"
    using a by (simp_all add: balance_of_def)
next
  assume run: "CheckLedgerConsistency E dec w = (Inl e, w2)"
  have eq: "b = s" if "(c, b, s) \<in> set (fst (projr (sql_CheckLedgerConsistencyByCurrency (committed w))))" for c b s
    using that currency_balances_zero [OF assms] currency_entries_zero [OF assms]
    by (auto simp: sql_CheckLedgerConsistencyByCurrency_def query_def)
  show "envFault E (callCount w) = Some e"
  proof (cases "envFault E (callCount w)")
    case None
    then obtain rs where rs: "rs = fst (projr (sql_CheckLedgerConsistencyByCurrency (committed w)))"
      "ledgerRepo_CheckConsistencyByCurrency E w = (Inr rs, w\<lparr>callCount := Suc (callCount w)\<rparr>)"
      by (simp add: ledgerRepo_CheckConsistencyByCurrency_def poolStmt_def dbCall_def Let_def
          sql_CheckLedgerConsistencyByCurrency_def query_def)
    have "filter (\<lambda>(c, b, e). b \<noteq> e) rs = []"
      using eq rs(1) by (auto simp: filter_empty_conv)
    then show ?thesis using run rs(2) by (simp add: CheckLedgerConsistency_def bindM_cong_run Let_def)
  next
    case (Some x)
    then show ?thesis using run
      by (simp add: CheckLedgerConsistency_def ledgerRepo_CheckConsistencyByCurrency_def poolStmt_def dbCall_def
          Let_def bindM_def)
  qed
qed

text \<open>C17: A hold raises the version of its account without an entry, so after any later transfer of that
  account the entry chain check reports a break although the ledger is intact.\<close>

theorem hold_breaks_chain_check:
  assumes "HoldFunds E ctx acc amount w = (Inr h, w1)" and "ledger_inv (committed w)"
    and "CreateTransfer E' R ctx' input w1 = (Inr t, w2)" and "ciFrom input = acc \<or> ciTo input = acc"
    and "VerifyEntryChain E'' acc w2 = (Inr r, w3)"
    and "int (length (entriesT (committed w2))) \<le> max_int64"
  shows "\<not> crValid r \<and> ledger_inv (committed w2)"
proof -
  obtain d where d: "held (committed w) h d" "same_ledger d (committed w1)"
    using HoldFunds_succeeded(1) [OF assms(1)] effect_audited by blast
  have h: "hoAccount h = acc" by (rule HoldFunds_succeeded(2) [OF assms(1)])
  have inv1: "ledger_inv (committed w1)" using held_inv [OF d(1) assms(2)] ledger_inv_same [OF d(2)] by blast
  have g: "gap (committed w1) acc" using gap_same [OF d(2) held_gap [OF d(1) assms(2)]] h by simp
  let ?bi = "\<lparr>cbEventAt = ciEventAt input, cbMetadata = ciMetadata input, cbTransfers = [input]\<rparr>"
  obtain ts where ts: "CreateBatchTransfer E' R ctx' ?bi w1 = (Inr ts, w2)"
    using CreateTransfer_batch [OF assms(3)] by (metis sum.case_eq_if sum.collapse(1) sum.collapse(2) Inr_Inl_False)
  note b = CreateBatchTransfer_succeeded(1) [OF ts inv1]
  have inv2: "ledger_inv (committed w2)" by (rule batch_done_inv [OF b inv1])
  have tab: "map (\<lambda>t. (trFrom t, trTo t, trAmount t, trReversed t)) ts = [(ciFrom input, ciTo input, ciAmount input, ciReversed input)]"
    using batch_done_effect(5) [OF b] by simp
  then obtain u where u: "ts = [u]" "trFrom u = ciFrom input" "trTo u = ciTo input" by (cases ts) auto
  obtain d2 where d2: "posted1 (committed w1) u d2" "same_ledger d2 (committed w2)"
    using b u(1) effect_audited unfolding batch_done_def by auto
  have "\<not> contiguous (account_entries d2 acc)" using gap_posted [OF g d2(1)] assms(4) u by auto
  then have nc: "\<not> contiguous (account_entries (committed w2) acc)"
    using same_ledger_observe(5) [OF d2(2)] by (simp add: account_entries_def)
  have "acc \<in> accID ` set (accountsT (committed w2))"
  proof -
    obtain a where "a \<in> set (accountsT (committed w1))" "accID a = acc"
      using g find_row_Some unfolding gap_def by fastforce
    then have "acc \<in> set (map accID (accountsT d2))" using posted1_frame [OF d2(1)] by auto
    then show ?thesis using d2(2) by (simp add: same_ledger_def)
  qed
  then show ?thesis using VerifyEntryChain_valid [OF assms(5) inv2 _ assms(6)] nc inv2 by blast
qed


theorem reversal_restores_balances_witness:
  "balance_of (committed (snd (ReverseTransfer demoEnv NoopRetrier Background ''id4'' None
     (snd (CreateTransfer demoEnv NoopRetrier Background (demoTransfer ''id0'' ''id2'' 100) demo2))))) ''id2'' = Some 0"
proof -
  let ?c = "CreateTransfer demoEnv NoopRetrier Background (demoTransfer ''id0'' ''id2'' 100) demo2"
  let ?r = "ReverseTransfer demoEnv NoopRetrier Background ''id4'' None (snd ?c)"
  have "\<not> isl (fst ?c) \<and> trID (projr (fst ?c)) = ''id4'' \<and> \<not> isl (fst ?r)" by code_simp
  then have c: "?c = (Inr (projr (fst ?c)), snd ?c)" and r: "?r = (Inr (projr (fst ?r)), snd ?r)"
    and i: "trID (projr (fst ?c)) = ''id4''" using success by blast+
  have "balance_of (committed demo2) ''id2'' = Some 0" by code_simp
  with reversal_restores_balances [OF c _ demo_ledger(1), unfolded i, OF r, of "''id2''"] show ?thesis by simp
qed

theorem reconciliation_of_intact_ledger_witness:
  "rrIsReconciled (projr (fst (ReconcileAccount demoEnv ''id2'' demo4)))"
proof -
  have "\<not> isl (fst (ReconcileAccount demoEnv ''id2'' demo4))" by code_simp
  from success [OF this] show ?thesis using reconciliation_of_intact_ledger [OF demo_ledger(3)] by blast
qed

theorem hold_breaks_chain_check_witness:
  "\<not> crValid (projr (fst (VerifyEntryChain demoEnv ''id2''
     (snd (CreateTransfer demoEnv NoopRetrier Background (demoTransfer ''id0'' ''id2'' 10) demo4)))))"
proof -
  let ?c = "CreateTransfer demoEnv NoopRetrier Background (demoTransfer ''id0'' ''id2'' 10) demo4"
  let ?v = "VerifyEntryChain demoEnv ''id2'' (snd ?c)"
  have "\<not> isl (fst ?c) \<and> int (length (entriesT (committed (snd ?c)))) \<le> max_int64 \<and> \<not> isl (fst ?v) \<and>
      ciTo (demoTransfer ''id0'' ''id2'' (10::int)) = ''id2''"
    by code_simp
  then show ?thesis
    using hold_breaks_chain_check [OF demo4_run demo_ledger(2) success _ success] by blast
qed

end
